(* ===== verification/QKPrelude.thy ===== *)
theory QKPrelude
  imports Main "HOL-Library.Multiset" "HOL-Library.Sublist" "HOL-Library.Log_Nat"
begin

text \<open>
  Generic facts shared by the components: the collections of simplification rules the
  component theories add to, and lemmas on lists, association lists and maps that are not
  about queuekit.
\<close>

named_theorems go_simps \<open>the Go runtime notions: results, faults, round trips\<close>
named_theorems key_simps \<open>distinctness of the Redis key families\<close>
named_theorems parse_simps \<open>field-wise behaviour of the hash parser\<close>

section \<open>Lists\<close>

lemma filter_map_id_update:
  assumes "\<And>r. k (f r) = k r"
  shows "filter (\<lambda>r. k r = i) (map (\<lambda>r. if k r = i then f r else r) rs)
       = map f (filter (\<lambda>r. k r = i) rs)"
  using assms by (induction rs) auto

lemma filter_map_other:
  assumes "\<And>r. k (f r) = k r" and "i \<noteq> i'"
  shows "filter (\<lambda>r. k r = i') (map (\<lambda>r. if k r = i then f r else r) rs)
       = filter (\<lambda>r. k r = i') rs"
  using assms by (induction rs) auto

lemma filter_empty_not_in: "filter (\<lambda>r. k r = i) rs = [] \<longleftrightarrow> i \<notin> k ` set rs"
  by (induction rs) auto

lemma distinct_filter_single:
  assumes "distinct (map k rs)" and "r \<in> set rs"
  shows "filter (\<lambda>r'. k r' = k r) rs = [r]"
  using assms
proof (induction rs)
  case Nil
  then show ?case by simp
next
  case (Cons a rs)
  show ?case
  proof (cases "a = r")
    case True
    with Cons.prems have "k r \<notin> k ` set rs" by auto
    then have "filter (\<lambda>r'. k r' = k r) rs = []" by (simp add: filter_empty_not_in)
    with True show ?thesis by simp
  next
    case False
    with Cons.prems have "r \<in> set rs" by simp
    with Cons.prems False have "k a \<noteq> k r" by auto
    with Cons \<open>r \<in> set rs\<close> show ?thesis by simp
  qed
qed

lemma map_id_update_keys:
  assumes "\<And>r. k (f r) = k r"
  shows "map k (map (\<lambda>r. if c r then f r else r) rs) = map k rs"
  using assms by (induction rs) auto

lemma hd_sort_key_least:
  assumes "x \<in> set xs"
  shows "f (hd (sort_key f xs)) \<le> f x"
proof -
  from assms have ne: "sort_key f xs \<noteq> []" by (cases xs) auto
  have "sorted (map f (sort_key f xs))" by (rule sorted_sort_key)
  moreover from assms have "x \<in> set (sort_key f xs)" by simp
  ultimately show ?thesis using ne
    by (cases "sort_key f xs") auto
qed

lemma set_of_mset_eq: "mset xs = mset ys \<Longrightarrow> set xs = set ys"
  by (metis set_mset_mset)

text \<open>A list is split at the first occurrence of a separator in one way only.\<close>

lemma split_at_unique:
  "xs @ c # ys = xs' @ c # ys' \<Longrightarrow> c \<notin> set xs \<Longrightarrow> c \<notin> set xs' \<Longrightarrow> xs = xs' \<and> ys = ys'"
proof (induction xs arbitrary: xs')
  case Nil
  then show ?case by (cases xs') auto
next
  case (Cons x xs)
  then show ?case by (cases xs') auto
qed

section \<open>Association lists\<close>

lemma map_of_rev_append_single [simp]:
  "map_of (rev (kvs @ [(k, v)])) = (map_of (rev kvs))(k \<mapsto> v)"
  by simp

lemma map_add_map_of_Cons [simp]: "m ++ map_of ((k, v) # kvs) = (m ++ map_of kvs)(k \<mapsto> v)"
  by auto

lemma map_of_rev_distinct: "distinct (map fst kvs) \<Longrightarrow> map_of (rev kvs) = map_of kvs"
  by (subst map_of_inject_set) (simp_all add: rev_map [symmetric])

lemma map_upd_neq_empty [simp]: "m(k \<mapsto> v) \<noteq> Map.empty"
  by (metis fun_upd_same option.simps(3))

end
