(* ===== verification/GoLang.thy ===== *)
theory GoLang
  imports QKPrelude
begin

text \<open>
  The part of Go and of its standard library that queuekit uses: error values and their
  messages, panics, machine integers, decimal conversion (package strconv), the string
  functions of package strings, points in time and durations (package time), the
  conversion of a 64-bit integer to a float64, and the environment of a call: what the
  clock reads and how each exchange with a data store ends.
\<close>

section \<open>Errors, results and panics\<close>

text \<open>
  An error value. \<open>ErrWrap p e\<close> is \<open>fmt.Errorf(p + ": %w", e)\<close>; \<open>ErrNew m\<close> is an error
  built from a message alone; \<open>ErrExt m\<close> an error value of a driver or of a handler with
  the message \<open>m\<close>; \<open>ErrNoHandler t\<close> the struct of worker/handler.go. The other
  constructors are the sentinel values the code compares with.
\<close>

datatype goerr =
    ErrNew string
  | ErrWrap string goerr
  | ErrExt string
  | ErrCanceled
  | ErrRedisNil
  | ErrNoRows
  | ErrNoHandler string

text \<open>
  The verb \<open>%q\<close>: a double-quoted string with backslash escapes. Bytes from 128 on are
  copied, which is what Go does with printable UTF-8.
\<close>

definition hex_digit :: "nat \<Rightarrow> char" where
  "hex_digit n = ''0123456789abcdef'' ! (n mod 16)"

definition quote_char :: "char \<Rightarrow> string" where
  "quote_char c =
     (if c = CHR 0x22 then [CHR 0x5C, CHR 0x22]
      else if c = CHR 0x5C then [CHR 0x5C, CHR 0x5C]
      else if c = CHR 0x07 then [CHR 0x5C, CHR ''a'']
      else if c = CHR 0x08 then [CHR 0x5C, CHR ''b'']
      else if c = CHR 0x0C then [CHR 0x5C, CHR ''f'']
      else if c = CHR 0x0A then [CHR 0x5C, CHR ''n'']
      else if c = CHR 0x0D then [CHR 0x5C, CHR ''r'']
      else if c = CHR 0x09 then [CHR 0x5C, CHR ''t'']
      else if c = CHR 0x0B then [CHR 0x5C, CHR ''v'']
      else if of_char c < (32::nat) \<or> of_char c = (127::nat)
        then [CHR 0x5C, CHR ''x'', hex_digit (of_char c div 16), hex_digit (of_char c)]
      else [c])"

definition go_quote :: "string \<Rightarrow> string" where
  "go_quote s = [CHR 0x22] @ concat (map quote_char s) @ [CHR 0x22]"

text \<open>The method \<open>ErrNoHandler.Error\<close> of worker/handler.go.\<close>

definition noHandlerMessage :: "string \<Rightarrow> string" where
  "noHandlerMessage jobType = ''no handler registered for job type '' @ go_quote jobType"

text \<open>The message of an error: its method \<open>Error()\<close>.\<close>

fun err_msg :: "goerr \<Rightarrow> string" where
  "err_msg (ErrNew m) = m"
| "err_msg (ErrWrap p e) = p @ '': '' @ err_msg e"
| "err_msg (ErrExt m) = m"
| "err_msg ErrCanceled = ''context canceled''"
| "err_msg ErrRedisNil = ''redis: nil''"
| "err_msg ErrNoRows = ''no rows in result set''"
| "err_msg (ErrNoHandler t) = noHandlerMessage t"

text \<open>\<open>errors.Is\<close>: the target occurs in the chain of wrapped errors.\<close>

fun err_is :: "goerr \<Rightarrow> goerr \<Rightarrow> bool" where
  "err_is (ErrWrap p e) t = (ErrWrap p e = t \<or> err_is e t)"
| "err_is e t = (e = t)"

text \<open>
  The outcome of a Go call that returns a value and an error, or panics. A call that
  returns only an error is a \<open>unit res\<close>.
\<close>

datatype 'a res = Ret 'a | Err goerr | Panic string

text \<open>
  Sequencing of calls that change a state \<open>'s\<close>: the next call runs where the first one
  returned; an error or a panic ends the sequence and keeps the effects made so far.
\<close>

fun bindS :: "('s \<Rightarrow> 'a res \<times> 's) \<Rightarrow> ('a \<Rightarrow> 's \<Rightarrow> 'b res \<times> 's) \<Rightarrow> 's \<Rightarrow> 'b res \<times> 's" where
  "bindS m f s =
     (case m s of
        (Ret a, s') \<Rightarrow> f a s'
      | (Err e, s') \<Rightarrow> (Err e, s')
      | (Panic p, s') \<Rightarrow> (Panic p, s'))"

definition readS :: "('s \<Rightarrow> 'a res) \<Rightarrow> 's \<Rightarrow> 'a res \<times> 's" where
  "readS r s = (r s, s)"

definition retS :: "'a \<Rightarrow> 's \<Rightarrow> 'a res \<times> 's" where
  "retS a s = (Ret a, s)"

text \<open>\<open>if err != nil { return fmt.Errorf(p + ": %w", err) }\<close>\<close>

fun wrap_err :: "string \<Rightarrow> 'a res \<times> 's \<Rightarrow> 'a res \<times> 's" where
  "wrap_err p (Err e, s) = (Err (ErrWrap p e), s)"
| "wrap_err p (r, s) = (r, s)"

declare bindS.simps [go_simps] readS_def [go_simps] retS_def [go_simps]

section \<open>Exchanges with a data store, and the environment of a call\<close>

text \<open>
  How one exchange with a server ends: it goes through; the request fails without effect;
  or it takes effect and its reply is lost. Cancellation of the context, a broken
  connection and a statement the server rejects are all failures of this kind.
\<close>

datatype fault = Up | Lost goerr | ReplyLost goerr

text \<open>The environment of one call: the successive readings of the clock and the outcomes of
  the successive exchanges.\<close>

record env =
  clk :: "nat \<Rightarrow> int"
  io :: "nat \<Rightarrow> fault"

text \<open>One exchange that may change the server's state.\<close>

fun exchange :: "fault \<Rightarrow> ('s \<Rightarrow> 'a res \<times> 's) \<Rightarrow> 's \<Rightarrow> 'a res \<times> 's" where
  "exchange Up m s = m s"
| "exchange (Lost e) m s = (Err e, s)"
| "exchange (ReplyLost e) m s = (Err e, snd (m s))"

text \<open>One exchange that only reads, or whose effects a transaction still holds back.\<close>

fun fetch :: "fault \<Rightarrow> 'a res \<Rightarrow> 'a res" where
  "fetch Up r = r"
| "fetch (Lost e) r = Err e"
| "fetch (ReplyLost e) r = Err e"

definition quiet :: "env \<Rightarrow> bool" where
  "quiet e \<longleftrightarrow> (\<forall>n. io e n = Up)"

lemma quiet_io [go_simps]: "quiet e \<Longrightarrow> io e n = Up"
  by (simp add: quiet_def)

lemma fetch_Ret_iff: "fetch f r = Ret a \<longleftrightarrow> f = Up \<and> r = Ret a"
  by (cases f) auto

lemma exchange_read: "exchange f (readS r) s = (fetch f (r s), s)"
  by (cases f) (auto simp: readS_def)

section \<open>Machine integers\<close>

text \<open>Go's \<open>int\<close> and \<open>int64\<close> (the targets are 64-bit): \<open>int\<close> with the wrap-around written
  out.\<close>

definition wrap64 :: "int \<Rightarrow> int" where
  "wrap64 n = (n + 2 ^ 63) mod 2 ^ 64 - 2 ^ 63"

definition int64_ok :: "int \<Rightarrow> bool" where
  "int64_ok n \<longleftrightarrow> - (2 ^ 63) \<le> n \<and> n < 2 ^ 63"

definition int4_ok :: "int \<Rightarrow> bool" where
  "int4_ok n \<longleftrightarrow> - (2 ^ 31) \<le> n \<and> n < 2 ^ 31"

lemma wrap64_id: "int64_ok n \<Longrightarrow> wrap64 n = n"
  by (simp add: wrap64_def int64_ok_def)

lemma wrap64_over:
  assumes "2 ^ 63 \<le> n" "n < 2 ^ 63 + 2 ^ 63"
  shows "wrap64 n = n - 2 ^ 64"
proof -
  have "(n + 2 ^ 63) mod 2 ^ 64 = ((n - 2 ^ 63) + 2 ^ 64) mod 2 ^ 64" by (simp add: ac_simps)
  also have "\<dots> = (n - 2 ^ 63) mod 2 ^ 64" by (rule mod_add_self2)
  also have "\<dots> = n - 2 ^ 63" using assms by (intro mod_pos_pos_trivial) simp_all
  finally show ?thesis by (simp add: wrap64_def)
qed

lemma wrap64_int64: "int64_ok (wrap64 n)"
proof -
  have "0 \<le> (n + 2 ^ 63) mod 2 ^ 64" and "(n + 2 ^ 63) mod 2 ^ 64 < (2 ^ 64 :: int)"
    by simp_all
  then show ?thesis by (simp add: wrap64_def int64_ok_def)
qed

lemma int4_int64: "int4_ok n \<Longrightarrow> int64_ok n"
  by (simp add: int4_ok_def int64_ok_def)


section \<open>Strings\<close>

text \<open>\<open>strings.HasPrefix\<close> and \<open>strings.TrimPrefix\<close>; \<open>strings.Contains\<close> by the first
  position at which the substring starts.\<close>

fun has_prefix :: "string \<Rightarrow> string \<Rightarrow> bool" where
  "has_prefix s [] = True"
| "has_prefix [] (p # ps) = False"
| "has_prefix (c # s) (p # ps) = (c = p \<and> has_prefix s ps)"

definition trim_prefix :: "string \<Rightarrow> string \<Rightarrow> string" where
  "trim_prefix s p = (if has_prefix s p then drop (length p) s else s)"

fun contains_str :: "string \<Rightarrow> string \<Rightarrow> bool" where
  "contains_str [] sub = (sub = [])"
| "contains_str (c # s) sub = (has_prefix (c # s) sub \<or> contains_str s sub)"

lemma has_prefix_iff: "has_prefix s p \<longleftrightarrow> (\<exists>t. s = p @ t)"
  by (induction s p rule: has_prefix.induct) auto

lemma has_prefix_append [simp]: "has_prefix (p @ t) p"
  by (auto simp: has_prefix_iff)

lemma contains_str_iff: "contains_str s sub \<longleftrightarrow> (\<exists>a b. s = a @ sub @ b)"
proof (induction s)
  case Nil
  then show ?case by auto
next
  case (Cons c s)
  have "(\<exists>a b. c # s = a @ sub @ b) \<longleftrightarrow> (\<exists>t. c # s = sub @ t) \<or> (\<exists>a b. s = a @ sub @ b)"
    by (metis append_Cons append_Nil append_eq_Cons_conv)
  then show ?case by (simp add: has_prefix_iff Cons.IH)
qed

lemma contains_str_prefix: "contains_str s sub \<Longrightarrow> contains_str (p @ s) sub"
  unfolding contains_str_iff by (metis append_assoc)

lemma contains_str_suffix: "contains_str s sub \<Longrightarrow> contains_str (s @ t) sub"
  unfolding contains_str_iff by (metis append_assoc)

section \<open>Package strconv\<close>

text \<open>The value of a decimal digit, and the digits of a number.\<close>

definition digit_val :: "char \<Rightarrow> int option" where
  "digit_val c = map_of (zip ''0123456789'' [0, 1, 2, 3, 4, 5, 6, 7, 8, 9]) c"

fun nat_digits :: "nat \<Rightarrow> string" where
  "nat_digits n =
     (if n < 10 then [''0123456789'' ! n]
      else nat_digits (n div 10) @ [''0123456789'' ! (n mod 10)])"

declare nat_digits.simps [simp del]

text \<open>\<open>strconv.Itoa\<close>, \<open>strconv.FormatInt(n, 10)\<close>: also how the Redis client writes an
  integer argument.\<close>

definition itoa :: "int \<Rightarrow> string" where
  "itoa n = (if n < 0 then CHR ''-'' # nat_digits (nat (- n)) else nat_digits (nat n))"

fun parse_digits :: "int \<Rightarrow> string \<Rightarrow> int option" where
  "parse_digits acc [] = Some acc"
| "parse_digits acc (c # cs) =
     (case digit_val c of None \<Rightarrow> None | Some d \<Rightarrow> parse_digits (10 * acc + d) cs)"

text \<open>
  \<open>strconv.Atoi\<close> and \<open>strconv.ParseInt(s, 10, 64)\<close>: an optional sign, at least one digit,
  nothing else, and a value in the range of \<open>int64\<close>. \<open>None\<close> is the error, whose message
  tells bad syntax from a value out of range.
\<close>

definition parse_dec :: "string \<Rightarrow> int option" where
  "parse_dec s =
     (let (neg, ds) =
        (case s of
           c # cs \<Rightarrow> if c = CHR ''-'' then (True, cs) else if c = CHR ''+'' then (False, cs) else (False, s)
         | [] \<Rightarrow> (False, s))
      in if ds = [] then None
         else case parse_digits 0 ds of
                None \<Rightarrow> None
              | Some v \<Rightarrow> Some (if neg then - v else v))"

definition parse_int :: "string \<Rightarrow> int option" where
  "parse_int s =
     (case parse_dec s of None \<Rightarrow> None | Some n \<Rightarrow> if int64_ok n then Some n else None)"

definition atoi_error :: "string \<Rightarrow> goerr" where
  "atoi_error s = ErrNew (''strconv.Atoi: parsing '' @ go_quote s @
     (if parse_dec s = None then '': invalid syntax'' else '': value out of range''))"

lemma digit_val_nth [simp]: "n < 10 \<Longrightarrow> digit_val (''0123456789'' ! n) = Some (int n)"
proof -
  assume "n < 10"
  then have "n \<in> {0, 1, 2, 3, 4, 5, 6, 7, 8, 9}" by auto
  then show ?thesis by (auto simp: digit_val_def)
qed

lemma parse_digits_append:
  "parse_digits acc (xs @ ys) = (case parse_digits acc xs of None \<Rightarrow> None | Some v \<Rightarrow> parse_digits v ys)"
  by (induction xs arbitrary: acc) (auto split: option.splits)

lemma nat_digits_nonempty [simp]: "nat_digits n \<noteq> []"
  by (subst nat_digits.simps) auto

lemma parse_nat_digits: "parse_digits 0 (nat_digits n) = Some (int n)"
proof (induction n rule: nat_digits.induct)
  case (1 n)
  show ?case
  proof (cases "n < 10")
    case True
    then show ?thesis by (simp add: nat_digits.simps [of n])
  next
    case False
    with 1 have "parse_digits 0 (nat_digits (n div 10)) = Some (int (n div 10))" by simp
    with False show ?thesis
      by (simp add: nat_digits.simps [of n] parse_digits_append zmod_int zdiv_int)
  qed
qed

lemma digit_nth_no_sign: "n < 10 \<Longrightarrow> ''0123456789'' ! n \<noteq> CHR ''-'' \<and> ''0123456789'' ! n \<noteq> CHR ''+''"
proof -
  assume "n < 10"
  then have "n \<in> {0, 1, 2, 3, 4, 5, 6, 7, 8, 9}" by auto
  then show ?thesis by auto
qed

lemma nat_digits_no_sign: "\<exists>c cs. nat_digits n = c # cs \<and> c \<noteq> CHR ''-'' \<and> c \<noteq> CHR ''+''"
proof (induction n rule: nat_digits.induct)
  case (1 n)
  show ?case
  proof (cases "n < 10")
    case True
    then show ?thesis by (simp add: nat_digits.simps [of n] digit_nth_no_sign)
  next
    case False
    with 1 show ?thesis by (subst nat_digits.simps) auto
  qed
qed

lemma parse_itoa [simp]: "int64_ok n \<Longrightarrow> parse_int (itoa n) = Some n"
proof -
  assume ok: "int64_ok n"
  show ?thesis
  proof (cases "n < 0")
    case True
    with ok show ?thesis by (simp add: itoa_def parse_int_def parse_dec_def parse_nat_digits Let_def)
  next
    case False
    obtain c cs where "nat_digits (nat n) = c # cs" "c \<noteq> CHR ''-''" "c \<noteq> CHR ''+''"
      using nat_digits_no_sign by blast
    moreover from this have "parse_digits 0 (c # cs) = Some n"
      using parse_nat_digits [of "nat n"] False by simp
    ultimately show ?thesis using ok False
      by (simp add: itoa_def parse_int_def parse_dec_def Let_def del: parse_digits.simps)
  qed
qed

lemma parse_int_range: "parse_int s = Some n \<Longrightarrow> int64_ok n"
  by (auto simp: parse_int_def split: option.splits if_splits)

section \<open>Package time\<close>

text \<open>
  A \<open>time.Time\<close> is its distance from the Unix epoch in nanoseconds (locations are not
  kept: every time the code makes is in UTC); a \<open>time.Duration\<close> is an \<open>int64\<close> number of
  nanoseconds.
\<close>

type_synonym time = int

definition second :: int where "second = 1000000000"

text \<open>The zero \<open>time.Time\<close>: the first of January of year 1.\<close>

definition zero_time :: time where "zero_time = - 62135596800 * second"

text \<open>\<open>t.Unix()\<close>, \<open>time.Unix(n, 0).UTC()\<close> and \<open>t.Add(d)\<close>.\<close>

definition unix :: "time \<Rightarrow> int" where "unix t = t div second"

definition from_unix :: "int \<Rightarrow> time" where "from_unix n = n * second"

definition time_add :: "time \<Rightarrow> int \<Rightarrow> time" where "time_add t d = t + d"

lemma unix_from_unix [simp]: "unix (from_unix n) = n"
  by (simp add: unix_def from_unix_def second_def)

lemma unix_mono: "s \<le> t \<Longrightarrow> unix s \<le> unix t"
  by (simp add: unix_def second_def zdiv_mono1)

lemma from_unix_unix_le: "from_unix (unix t) \<le> t"
  unfolding from_unix_def unix_def second_def
  by (metis div_mod_decomp_int le_add_same_cancel1 pos_mod_sign zero_less_numeral)

lemma from_unix_unix_gt: "t < from_unix (unix t) + second"
proof -
  have "t mod second < second" by (simp add: second_def)
  moreover have "from_unix (unix t) + t mod second = t"
    by (simp add: from_unix_def unix_def)
  ultimately show ?thesis by linarith
qed

section \<open>The conversion of an int64 to a float64\<close>

text \<open>
  \<open>float64(n)\<close>: the nearest multiple of the unit in the last place of a 53-bit
  significand, ties to even. The result is an integer, so it is kept as one.
\<close>

definition round_half_even :: "int \<Rightarrow> int \<Rightarrow> int" where
  "round_half_even a u =
     (let q = a div u; r = a mod u
      in if 2 * r < u \<or> (2 * r = u \<and> even q) then q * u else (q + 1) * u)"

definition f64_of_int :: "int \<Rightarrow> int" where
  "f64_of_int n =
     (if \<bar>n\<bar> \<le> 2 ^ 53 then n
      else sgn n * round_half_even \<bar>n\<bar> (2 ^ nat (bitlen \<bar>n\<bar> - 53)))"

lemma f64_of_int_exact: "\<bar>n\<bar> \<le> 2 ^ 53 \<Longrightarrow> f64_of_int n = n"
  by (simp add: f64_of_int_def)

end
