(* ===== verification/Job.thy ===== *)
theory Job
  imports GoLang
begin

text \<open>
  internal/queue/job.go: the record of a job, the status and priority constants, the
  constructor, validation and the \<open>Mark\<close> methods. A method on a pointer receiver returns
  the changed record; the reading of the clock and the fresh UUID are arguments.
\<close>

section \<open>Constants and the record\<close>

definition StatusPending :: string where "StatusPending = ''pending''"
definition StatusRunning :: string where "StatusRunning = ''running''"
definition StatusCompleted :: string where "StatusCompleted = ''completed''"
definition StatusFailed :: string where "StatusFailed = ''failed''"
definition StatusDead :: string where "StatusDead = ''dead''"

definition PriorityLow :: int where "PriorityLow = 0"
definition PriorityNormal :: int where "PriorityNormal = 10"
definition PriorityHigh :: int where "PriorityHigh = 20"
definition PriorityCritical :: int where "PriorityCritical = 30"

lemmas status_defs =
  StatusPending_def StatusRunning_def StatusCompleted_def StatusFailed_def StatusDead_def

text \<open>The pointers \<open>CompletedAt\<close> and \<open>FailedAt\<close> are options (\<open>nil\<close> is \<open>None\<close>); a nil
  payload and an empty one are both the empty string, which the code never tells apart.\<close>

record job =
  jID :: string
  jType :: string
  jQueue :: string
  jPayload :: string
  jStatus :: string
  jPriority :: int
  jAttempts :: int
  jMaxAttempts :: int
  jScheduledAt :: time
  jCreatedAt :: time
  jUpdatedAt :: time
  jCompletedAt :: "time option"
  jFailedAt :: "time option"
  jLastError :: string

section \<open>Operations\<close>

definition NewJob :: "string \<Rightarrow> time \<Rightarrow> string \<Rightarrow> string \<Rightarrow> string \<Rightarrow> job" where
  "NewJob uuid now jobType q payload =
     \<lparr>jID = uuid, jType = jobType, jQueue = q, jPayload = payload,
      jStatus = StatusPending, jPriority = PriorityNormal, jAttempts = 0, jMaxAttempts = 3,
      jScheduledAt = now, jCreatedAt = now, jUpdatedAt = now,
      jCompletedAt = None, jFailedAt = None, jLastError = ''''\<rparr>"

definition Validate :: "job \<Rightarrow> goerr option" where
  "Validate j =
     (if jType j = '''' then Some (ErrNew ''job type is required'')
      else if jQueue j = '''' then Some (ErrNew ''job queue is required'')
      else if length (jPayload j) = 0 then Some (ErrNew ''job payload is required'')
      else if jMaxAttempts j < 1 then Some (ErrNew ''job max_attempts must be at least 1'')
      else None)"

definition IsRetryable :: "job \<Rightarrow> bool" where
  "IsRetryable j \<longleftrightarrow> jAttempts j < jMaxAttempts j"

definition MarkRunning :: "time \<Rightarrow> job \<Rightarrow> job" where
  "MarkRunning now j = j\<lparr>jStatus := StatusRunning, jUpdatedAt := now\<rparr>"

definition MarkCompleted :: "time \<Rightarrow> job \<Rightarrow> job" where
  "MarkCompleted now j =
     j\<lparr>jStatus := StatusCompleted, jUpdatedAt := now, jCompletedAt := Some now\<rparr>"

definition MarkFailed :: "time \<Rightarrow> goerr option \<Rightarrow> job \<Rightarrow> job" where
  "MarkFailed now err j =
     (let j1 = j\<lparr>jStatus := StatusFailed, jAttempts := wrap64 (jAttempts j + 1),
                 jUpdatedAt := now, jFailedAt := Some now\<rparr>
      in case err of None \<Rightarrow> j1 | Some e \<Rightarrow> j1\<lparr>jLastError := err_msg e\<rparr>)"

definition MarkDead :: "time \<Rightarrow> job \<Rightarrow> job" where
  "MarkDead now j = j\<lparr>jStatus := StatusDead, jUpdatedAt := now\<rparr>"

section \<open>Lemmas\<close>

text \<open>The statuses of the code, as a predicate; the migration's check constraint names the
  same five.\<close>

definition known_status :: "string \<Rightarrow> bool" where
  "known_status st \<longleftrightarrow>
     st \<in> {StatusPending, StatusRunning, StatusCompleted, StatusFailed, StatusDead}"

lemma status_distinct [simp]:
  "StatusPending \<noteq> StatusRunning" "StatusRunning \<noteq> StatusPending"
  "StatusPending \<noteq> StatusCompleted" "StatusCompleted \<noteq> StatusPending"
  "StatusPending \<noteq> StatusFailed" "StatusFailed \<noteq> StatusPending"
  "StatusPending \<noteq> StatusDead" "StatusDead \<noteq> StatusPending"
  "StatusRunning \<noteq> StatusCompleted" "StatusCompleted \<noteq> StatusRunning"
  "StatusRunning \<noteq> StatusFailed" "StatusFailed \<noteq> StatusRunning"
  "StatusRunning \<noteq> StatusDead" "StatusDead \<noteq> StatusRunning"
  "StatusCompleted \<noteq> StatusFailed" "StatusFailed \<noteq> StatusCompleted"
  "StatusCompleted \<noteq> StatusDead" "StatusDead \<noteq> StatusCompleted"
  "StatusFailed \<noteq> StatusDead" "StatusDead \<noteq> StatusFailed"
  by (simp_all add: status_defs)

lemma known_statuses [simp]:
  "known_status StatusPending" "known_status StatusRunning" "known_status StatusCompleted"
  "known_status StatusFailed" "known_status StatusDead"
  by (simp_all add: known_status_def)

lemma Validate_None_iff:
  "Validate j = None \<longleftrightarrow>
     jType j \<noteq> '''' \<and> jQueue j \<noteq> '''' \<and> jPayload j \<noteq> '''' \<and> 1 \<le> jMaxAttempts j"
  by (auto simp: Validate_def)

lemma NewJob_fields [simp]:
  "jID (NewJob u t ty q p) = u" "jType (NewJob u t ty q p) = ty"
  "jQueue (NewJob u t ty q p) = q" "jPayload (NewJob u t ty q p) = p"
  "jStatus (NewJob u t ty q p) = StatusPending" "jPriority (NewJob u t ty q p) = PriorityNormal"
  "jAttempts (NewJob u t ty q p) = 0" "jMaxAttempts (NewJob u t ty q p) = 3"
  "jScheduledAt (NewJob u t ty q p) = t" "jCreatedAt (NewJob u t ty q p) = t"
  "jUpdatedAt (NewJob u t ty q p) = t" "jCompletedAt (NewJob u t ty q p) = None"
  "jFailedAt (NewJob u t ty q p) = None" "jLastError (NewJob u t ty q p) = ''''"
  by (simp_all add: NewJob_def)

text \<open>
  The first failing check decides: the message of a rejected job names the first missing
  field in the order type, queue, payload, max_attempts.
\<close>

lemma Validate_first_failure:
  "Validate j =
     (case find (\<lambda>(bad, m). bad)
        [(jType j = '''', ''job type is required''),
         (jQueue j = '''', ''job queue is required''),
         (jPayload j = '''', ''job payload is required''),
         (jMaxAttempts j < 1, ''job max_attempts must be at least 1'')] of
        None \<Rightarrow> None | Some (bad, m) \<Rightarrow> Some (ErrNew m))"
  by (simp add: Validate_def)

text \<open>
  \<open>n\<close> failures in a row, as a handler that always fails makes them: the job stays
  retryable exactly while fewer than \<open>MaxAttempts\<close> failures were recorded.
\<close>

fun mark_failures :: "(time \<times> goerr option) list \<Rightarrow> job \<Rightarrow> job" where
  "mark_failures [] j = j"
| "mark_failures ((t, e) # fs) j = mark_failures fs (MarkFailed t e j)"

lemma MarkFailed_fields [simp]:
  "jID (MarkFailed t e j) = jID j" "jMaxAttempts (MarkFailed t e j) = jMaxAttempts j"
  "jAttempts (MarkFailed t e j) = wrap64 (jAttempts j + 1)"
  "jStatus (MarkFailed t e j) = StatusFailed"
  by (auto simp: MarkFailed_def Let_def split: option.splits)

lemma mark_failures_max [simp]: "jMaxAttempts (mark_failures fs j) = jMaxAttempts j"
  by (induction fs arbitrary: j) auto

lemma mark_failures_attempts:
  "0 \<le> jAttempts j \<Longrightarrow> jAttempts j + int (length fs) < 2 ^ 63 \<Longrightarrow>
   jAttempts (mark_failures fs j) = jAttempts j + int (length fs)"
proof (induction fs arbitrary: j)
  case Nil
  then show ?case by simp
next
  case (Cons f fs)
  obtain t e where f: "f = (t, e)" by (cases f)
  from Cons.prems have w: "wrap64 (jAttempts j + 1) = jAttempts j + 1"
    by (intro wrap64_id) (simp add: int64_ok_def)
  have "jAttempts (mark_failures fs (MarkFailed t e j))
      = jAttempts (MarkFailed t e j) + int (length fs)"
    using Cons.prems by (intro Cons.IH) (simp_all add: w)
  with f show ?case by (simp add: w)
qed

lemma mark_failures_retryable:
  "0 \<le> jAttempts j \<Longrightarrow> jAttempts j + int (length fs) < 2 ^ 63 \<Longrightarrow>
   IsRetryable (mark_failures fs j) \<longleftrightarrow> jAttempts j + int (length fs) < jMaxAttempts j"
  by (simp add: IsRetryable_def mark_failures_attempts)

end
