(* ===== verification/Backend.thy ===== *)
theory Backend
  imports Job
begin

text \<open>
  internal/queue/queue.go (the statistics record) and internal/backend/backend.go: the
  interface \<open>Backend\<close> as a record of operations over a store of type \<open>'s\<close>, and the
  contract its comments state, as a locale. The two storage backends provide the record and
  are interpretations of the locale; the worker, the HTTP handlers and the dashboard are
  clients that take the record as an argument.
\<close>

section \<open>Queue statistics\<close>

record queue_stats =
  qName :: string
  qSize :: int
  qProcessingCount :: int
  qCompletedCount :: int
  qFailedCount :: int
  qDeadCount :: int

definition TotalJobs :: "queue_stats \<Rightarrow> int" where
  "TotalJobs q =
     wrap64 (wrap64 (wrap64 (wrap64 (qSize q + qProcessingCount q) + qCompletedCount q)
       + qFailedCount q) + qDeadCount q)"

lemma wrap64_add_wrap: "wrap64 (wrap64 a + b) = wrap64 (a + b)"
proof -
  have "wrap64 a + b + 2 ^ 63 = (a + 2 ^ 63) mod 2 ^ 64 + b"
    by (simp add: wrap64_def)
  then have "(wrap64 a + b + 2 ^ 63) mod 2 ^ 64 = (a + 2 ^ 63 + b) mod 2 ^ 64"
    by (simp only: mod_add_left_eq)
  then show ?thesis
    unfolding wrap64_def [of "wrap64 a + b"] wrap64_def [of "a + b"] by (simp add: ac_simps)
qed

lemma TotalJobs_sum:
  "TotalJobs q = wrap64 (qSize q + qProcessingCount q + qCompletedCount q + qFailedCount q
     + qDeadCount q)"
  by (simp add: TotalJobs_def wrap64_add_wrap)

section \<open>The interface\<close>

text \<open>
  One field per method. The environment \<open>env\<close> stands for the context, the clock and the
  network during the call. A slice result is an option: \<open>None\<close> is the nil slice, which the
  JSON encoder and a test for nil tell apart from an empty one.
\<close>

record 's backend =
  beEnqueue :: "env \<Rightarrow> job \<Rightarrow> 's \<Rightarrow> unit res \<times> 's"
  beReserve :: "env \<Rightarrow> string \<Rightarrow> 's \<Rightarrow> job option res \<times> 's"
  beAck :: "env \<Rightarrow> string \<Rightarrow> 's \<Rightarrow> unit res \<times> 's"
  beNack :: "env \<Rightarrow> string \<Rightarrow> goerr option \<Rightarrow> int \<Rightarrow> 's \<Rightarrow> unit res \<times> 's"
  beMoveToDLQ :: "env \<Rightarrow> string \<Rightarrow> 's \<Rightarrow> unit res \<times> 's"
  beListQueues :: "env \<Rightarrow> 's \<Rightarrow> queue_stats list option res \<times> 's"
  beListJobs :: "env \<Rightarrow> string \<Rightarrow> string \<Rightarrow> int \<Rightarrow> int \<Rightarrow> 's \<Rightarrow> job list option res \<times> 's"
  beGetJob :: "env \<Rightarrow> string \<Rightarrow> 's \<Rightarrow> job res \<times> 's"
  beDeleteJob :: "env \<Rightarrow> string \<Rightarrow> 's \<Rightarrow> unit res \<times> 's"

text \<open>
  A call of one method, with the environment it meets, so that properties can speak about
  any sequence of calls: its effect on the store, and the error it reports, if any.
\<close>

datatype call =
    CallEnqueue env job
  | CallReserve env string
  | CallAck env string
  | CallNack env string "goerr option" int
  | CallMoveToDLQ env string
  | CallListQueues env
  | CallListJobs env string string int int
  | CallGetJob env string
  | CallDeleteJob env string

fun call_state :: "'s backend \<Rightarrow> call \<Rightarrow> 's \<Rightarrow> 's" where
  "call_state B (CallEnqueue e j) s = snd (beEnqueue B e j s)"
| "call_state B (CallReserve e q) s = snd (beReserve B e q s)"
| "call_state B (CallAck e i) s = snd (beAck B e i s)"
| "call_state B (CallNack e i x d) s = snd (beNack B e i x d s)"
| "call_state B (CallMoveToDLQ e i) s = snd (beMoveToDLQ B e i s)"
| "call_state B (CallListQueues e) s = snd (beListQueues B e s)"
| "call_state B (CallListJobs e q st l off) s = snd (beListJobs B e q st l off s)"
| "call_state B (CallGetJob e i) s = snd (beGetJob B e i s)"
| "call_state B (CallDeleteJob e i) s = snd (beDeleteJob B e i s)"

fun res_error :: "'a res \<Rightarrow> goerr option" where
  "res_error (Err x) = Some x"
| "res_error _ = None"

fun call_error :: "'s backend \<Rightarrow> call \<Rightarrow> 's \<Rightarrow> goerr option" where
  "call_error B (CallEnqueue e j) s = res_error (fst (beEnqueue B e j s))"
| "call_error B (CallReserve e q) s = res_error (fst (beReserve B e q s))"
| "call_error B (CallAck e i) s = res_error (fst (beAck B e i s))"
| "call_error B (CallNack e i x d) s = res_error (fst (beNack B e i x d s))"
| "call_error B (CallMoveToDLQ e i) s = res_error (fst (beMoveToDLQ B e i s))"
| "call_error B (CallListQueues e) s = res_error (fst (beListQueues B e s))"
| "call_error B (CallListJobs e q st l off) s = res_error (fst (beListJobs B e q st l off s))"
| "call_error B (CallGetJob e i) s = res_error (fst (beGetJob B e i s))"
| "call_error B (CallDeleteJob e i) s = res_error (fst (beDeleteJob B e i s))"

fun call_env :: "call \<Rightarrow> env" where
  "call_env (CallEnqueue e j) = e"
| "call_env (CallReserve e q) = e"
| "call_env (CallAck e i) = e"
| "call_env (CallNack e i x d) = e"
| "call_env (CallMoveToDLQ e i) = e"
| "call_env (CallListQueues e) = e"
| "call_env (CallListJobs e q st l off) = e"
| "call_env (CallGetJob e i) = e"
| "call_env (CallDeleteJob e i) = e"

fun run_calls :: "'s backend \<Rightarrow> call list \<Rightarrow> 's \<Rightarrow> 's" where
  "run_calls B [] s = s"
| "run_calls B (c # cs) s = run_calls B cs (call_state B c s)"

lemma run_calls_invariant:
  assumes "\<And>c s. P s \<Longrightarrow> P (call_state B c s)" and "P s"
  shows "P (run_calls B cs s)"
  using assms(2) by (induction cs arbitrary: s) (auto intro: assms(1))

lemma res_error_Some [simp]: "res_error r = Some x \<longleftrightarrow> r = Err x"
  by (cases r) auto

definition notFoundError :: "string \<Rightarrow> goerr" where
  "notFoundError jobID = ErrNew (''job not found: '' @ jobID)"

definition err_text :: "goerr option \<Rightarrow> string" where
  "err_text err = (case err of None \<Rightarrow> '''' | Some e \<Rightarrow> err_msg e)"

section \<open>The abstract specification of the operations\<close>

text \<open>
  What each operation does to the job it names, on a store whose precision for times is
  \<open>stamp\<close>: the effect the interface's comments promise.
\<close>

definition acked :: "(time \<Rightarrow> time) \<Rightarrow> time \<Rightarrow> job \<Rightarrow> job" where
  "acked stamp now j =
     j\<lparr>jStatus := StatusCompleted, jCompletedAt := Some (stamp now), jUpdatedAt := stamp now\<rparr>"

definition nacked :: "(time \<Rightarrow> time) \<Rightarrow> time \<Rightarrow> goerr option \<Rightarrow> int \<Rightarrow> job \<Rightarrow> job" where
  "nacked stamp now err delay j =
     (let a = jAttempts j + 1;
          j1 = j\<lparr>jAttempts := a, jLastError := err_text err,
                 jFailedAt := Some (stamp now), jUpdatedAt := stamp now\<rparr>
      in if jMaxAttempts j \<le> a then j1\<lparr>jStatus := StatusDead\<rparr>
         else j1\<lparr>jStatus := StatusPending, jScheduledAt := stamp (time_add now delay)\<rparr>)"

definition buried :: "(time \<Rightarrow> time) \<Rightarrow> time \<Rightarrow> job \<Rightarrow> job" where
  "buried stamp now j = j\<lparr>jStatus := StatusDead, jUpdatedAt := stamp now\<rparr>"

text \<open>
  What a reservation may do to the jobs \<open>V\<close>: nothing, or turn one pending job of the queue
  whose time has come into a running one, which it returns.
\<close>

definition reserve_outcome ::
    "time \<Rightarrow> string \<Rightarrow> (string \<rightharpoonup> job) \<Rightarrow> job option res \<Rightarrow> (string \<rightharpoonup> job) \<Rightarrow> bool" where
  "reserve_outcome now q V r V' \<longleftrightarrow>
     (case r of
        Panic p \<Rightarrow> False
      | Err e \<Rightarrow> V' = V
      | Ret None \<Rightarrow> V' = V
      | Ret (Some j') \<Rightarrow>
          (\<exists>j t t'. V (jID j') = Some j \<and> jQueue j = q \<and> jStatus j = StatusPending \<and>
             jScheduledAt j \<le> now \<and> j' = j\<lparr>jStatus := StatusRunning, jUpdatedAt := t\<rparr> \<and>
             V' = V(jID j' \<mapsto> j\<lparr>jStatus := StatusRunning, jUpdatedAt := t'\<rparr>)))"

text \<open>An undisturbed environment: no exchange fails and the clock reads a time after the
  epoch that is small enough for every store to hold.\<close>

definition calm :: "env \<Rightarrow> bool" where
  "calm e \<longleftrightarrow> quiet e \<and> (\<forall>n. 1 \<le> unix (clk e n) \<and> unix (clk e n) < 2 ^ 52)"

text \<open>The undisturbed environment at a given time.\<close>

definition envAt :: "time \<Rightarrow> env" where
  "envAt t = \<lparr>clk = (\<lambda>n. t), io = (\<lambda>n. Up)\<rparr>"

lemma envAt_simps [simp]: "clk (envAt t) n = t" "io (envAt t) n = Up"
  by (simp_all add: envAt_def)

lemma calm_envAt: "1 \<le> unix t \<Longrightarrow> unix t < 2 ^ 52 \<Longrightarrow> calm (envAt t)"
  by (simp add: calm_def quiet_def)

lemma calm_10: "calm (envAt (10 * second))"
  by (rule calm_envAt) (simp_all add: unix_def second_def)

text \<open>The counters of a job are in the range of the narrower of the two stores.\<close>

definition counters_ok :: "job \<Rightarrow> bool" where
  "counters_ok j \<longleftrightarrow> 0 \<le> jAttempts j \<and> jAttempts j < 2 ^ 31 - 1 \<and> 1 \<le> jMaxAttempts j \<and>
     jMaxAttempts j < 2 ^ 31"

lemma calm_quiet: "calm e \<Longrightarrow> quiet e"
  by (simp add: calm_def)

lemma calm_io [go_simps]: "calm e \<Longrightarrow> io e n = Up"
  by (simp add: calm_def quiet_def)

lemma nacked_fields [simp]:
  "jID (nacked f t e d j) = jID j" "jQueue (nacked f t e d j) = jQueue j"
  "jType (nacked f t e d j) = jType j" "jMaxAttempts (nacked f t e d j) = jMaxAttempts j"
  "jAttempts (nacked f t e d j) = jAttempts j + 1" "jPayload (nacked f t e d j) = jPayload j"
  "jPriority (nacked f t e d j) = jPriority j" "jLastError (nacked f t e d j) = err_text e"
  by (simp_all add: nacked_def Let_def)

lemma nacked_status:
  "jStatus (nacked f t e d j) =
     (if jMaxAttempts j \<le> jAttempts j + 1 then StatusDead else StatusPending)"
  by (simp add: nacked_def Let_def)

lemma acked_fields [simp]:
  "jID (acked f t j) = jID j" "jQueue (acked f t j) = jQueue j"
  "jType (acked f t j) = jType j" "jMaxAttempts (acked f t j) = jMaxAttempts j"
  "jAttempts (acked f t j) = jAttempts j" "jStatus (acked f t j) = StatusCompleted"
  by (simp_all add: acked_def)

lemma buried_fields [simp]:
  "jID (buried f t j) = jID j" "jQueue (buried f t j) = jQueue j"
  "jType (buried f t j) = jType j" "jMaxAttempts (buried f t j) = jMaxAttempts j"
  "jAttempts (buried f t j) = jAttempts j" "jStatus (buried f t j) = StatusDead"
  by (simp_all add: buried_def)

section \<open>The contract\<close>

text \<open>
  A store keeps jobs under their ids: \<open>view s\<close> is the map a reader would see. \<open>norm j\<close> is
  what remains of a job after it has been written (the precision of its times, its payload
  as the store keeps it); \<open>storable s j\<close> says that the store accepts it; \<open>readable s i\<close>
  that the record of \<open>i\<close> can be scanned back.
\<close>

locale job_store =
  fixes B :: "'s backend"
    and inv :: "'s \<Rightarrow> bool"
    and view :: "'s \<Rightarrow> string \<Rightarrow> job option"
    and stamp :: "time \<Rightarrow> time"
    and norm :: "job \<Rightarrow> job"
    and storable :: "'s \<Rightarrow> job \<Rightarrow> bool"
    and readable :: "'s \<Rightarrow> string \<Rightarrow> bool"
  assumes view_id: "inv s \<Longrightarrow> view s i = Some j \<Longrightarrow> jID j = i"
    and norm_fields: "jID (norm j) = jID j" "jType (norm j) = jType j"
      "jQueue (norm j) = jQueue j" "jStatus (norm j) = jStatus j"
      "jPriority (norm j) = jPriority j" "jAttempts (norm j) = jAttempts j"
      "jMaxAttempts (norm j) = jMaxAttempts j"
    and enqueue_law: "inv s \<Longrightarrow> calm e \<Longrightarrow> Validate j = None \<Longrightarrow> view s (jID j) = None \<Longrightarrow>
      storable s j \<Longrightarrow>
      \<exists>s'. beEnqueue B e j s = (Ret (), s') \<and> inv s' \<and> view s' = (view s)(jID j \<mapsto> norm j)"
    and enqueue_invalid: "Validate j = Some x \<Longrightarrow>
      beEnqueue B e j s = (Err (ErrWrap ''invalid job'' x), s)"
    and reserve_law: "inv s \<Longrightarrow> calm e \<Longrightarrow>
      \<exists>r s'. beReserve B e q s = (r, s') \<and> inv s' \<and>
        reserve_outcome (clk e 0) q (view s) r (view s')"
    and ack_law: "inv s \<Longrightarrow> calm e \<Longrightarrow> view s i = Some j \<Longrightarrow>
      \<exists>s'. beAck B e i s = (Ret (), s') \<and> inv s' \<and>
        view s' = (view s)(i \<mapsto> acked stamp (clk e 0) j)"
    and nack_law: "inv s \<Longrightarrow> calm e \<Longrightarrow> view s i = Some j \<Longrightarrow> counters_ok j \<Longrightarrow>
      int64_ok delay \<Longrightarrow>
      \<exists>s'. beNack B e i err delay s = (Ret (), s') \<and> inv s' \<and>
        view s' = (view s)(i \<mapsto> nacked stamp (clk e 0) err delay j)"
    and nack_missing: "inv s \<Longrightarrow> calm e \<Longrightarrow> view s i = None \<Longrightarrow>
      beNack B e i err delay s = (Err (notFoundError i), s)"
    and bury_law: "inv s \<Longrightarrow> calm e \<Longrightarrow> view s i = Some j \<Longrightarrow>
      \<exists>s'. beMoveToDLQ B e i s = (Ret (), s') \<and> inv s' \<and>
        view s' = (view s)(i \<mapsto> buried stamp (clk e 0) j)"
    and bury_missing: "inv s \<Longrightarrow> calm e \<Longrightarrow> view s i = None \<Longrightarrow>
      beMoveToDLQ B e i s = (Err (notFoundError i), s)"
    and get_law: "inv s \<Longrightarrow> calm e \<Longrightarrow> view s i = Some j \<Longrightarrow> readable s i \<Longrightarrow>
      beGetJob B e i s = (Ret j, s)"
    and get_missing: "inv s \<Longrightarrow> calm e \<Longrightarrow> view s i = None \<Longrightarrow>
      beGetJob B e i s = (Err (notFoundError i), s)"
    and delete_law: "inv s \<Longrightarrow> calm e \<Longrightarrow> view s i = Some j \<Longrightarrow>
      \<exists>s'. beDeleteJob B e i s = (Ret (), s') \<and> inv s' \<and> view s' = (view s)(i := None)"
    and delete_missing: "inv s \<Longrightarrow> calm e \<Longrightarrow> view s i = None \<Longrightarrow>
      beDeleteJob B e i s = (Err (notFoundError i), s)"
begin

lemma nack_pending_or_dead:
  assumes "inv s" "calm e" "view s i = Some j" "counters_ok j" "int64_ok delay"
  shows "\<exists>s' j'. beNack B e i err delay s = (Ret (), s') \<and> view s' i = Some j' \<and>
           jAttempts j' = jAttempts j + 1 \<and>
           jStatus j' = (if jMaxAttempts j \<le> jAttempts j + 1 then StatusDead else StatusPending)"
proof -
  obtain s' where "beNack B e i err delay s = (Ret (), s')"
    and "view s' = (view s)(i \<mapsto> nacked stamp (clk e 0) err delay j)"
    using nack_law [OF assms] by blast
  then show ?thesis by (simp add: nacked_status)
qed

lemma enqueue_then_get:
  assumes "inv s" "calm e" "calm e'" "Validate j = None" "view s (jID j) = None" "storable s j"
  shows "\<exists>s'. beEnqueue B e j s = (Ret (), s') \<and>
           (readable s' (jID j) \<longrightarrow> beGetJob B e' (jID j) s' = (Ret (norm j), s'))"
proof -
  obtain s' where s: "beEnqueue B e j s = (Ret (), s')" "inv s'" "view s' = (view s)(jID j \<mapsto> norm j)"
    using enqueue_law [OF assms(1,2,4-6)] by blast
  then show ?thesis using get_law [of s' e' "jID j" "norm j"] assms(3) by simp
qed

lemma delete_then_get:
  assumes "inv s" "calm e" "calm e'" "view s i = Some j"
  shows "\<exists>s'. beDeleteJob B e i s = (Ret (), s') \<and>
           beGetJob B e' i s' = (Err (notFoundError i), s')"
proof -
  obtain s' where "beDeleteJob B e i s = (Ret (), s')" "inv s'" "view s' = (view s)(i := None)"
    using delete_law [OF assms(1,2,4)] by blast
  with get_missing [of s' e' i] assms(3) show ?thesis by simp
qed

end

section \<open>Stores that make progress\<close>

text \<open>The jobs that wait in a queue.\<close>

definition waiting :: "(string \<rightharpoonup> job) \<Rightarrow> string \<Rightarrow> string set" where
  "waiting V q = {i. \<exists>j. V i = Some j \<and> jStatus j = StatusPending \<and> jQueue j = q}"

lemma waiting_upd:
  "waiting (V(i \<mapsto> j)) q =
     (if jStatus j = StatusPending \<and> jQueue j = q then insert i (waiting V q) else waiting V q - {i})"
  by (auto simp: waiting_def)

lemma waiting_dom: "waiting V q \<subseteq> dom V"
  by (auto simp: waiting_def)

text \<open>
  The contract does not promise that a reservation finds a job. A store that makes progress
  has states \<open>live s\<close>, kept by the calls of a worker, from which a reservation on a queue with
  a due job returns a job or at least shortens a backlog; a settled job lengthens the backlog
  by one at most. A job is due when its schedule has come at the precision of the store.
\<close>

locale live_store = job_store +
  fixes live :: "'a \<Rightarrow> bool"
    and backlog :: "string \<Rightarrow> 'a \<Rightarrow> nat"
  assumes live_inv: "live s \<Longrightarrow> inv s"
    and waiting_finite: "live s \<Longrightarrow> finite (waiting (view s) q)"
    and reserve_live: "live s \<Longrightarrow> calm e \<Longrightarrow> beReserve B e q s = (r, s') \<Longrightarrow>
      live s' \<and> backlog q s' \<le> backlog q s"
    and ack_live: "live s \<Longrightarrow> calm e \<Longrightarrow> view s i = Some j \<Longrightarrow> jStatus j = StatusRunning \<Longrightarrow>
      beAck B e i s = (u, s') \<Longrightarrow> live s' \<and> backlog q s' \<le> backlog q s"
    and nack_live: "live s \<Longrightarrow> calm e \<Longrightarrow> view s i = Some j \<Longrightarrow> jStatus j = StatusRunning \<Longrightarrow>
      counters_ok j \<Longrightarrow> int64_ok delay \<Longrightarrow> beNack B e i err delay s = (u, s') \<Longrightarrow>
      live s' \<and> backlog q s' \<le> Suc (backlog q s)"
    and reserve_progress: "live s \<Longrightarrow> calm e \<Longrightarrow> view s i = Some j \<Longrightarrow> jStatus j = StatusPending \<Longrightarrow>
      jQueue j = q \<Longrightarrow> jScheduledAt j \<le> stamp (clk e 0) \<Longrightarrow> beReserve B e q s = (r, s') \<Longrightarrow>
      (\<exists>x. r = Ret x) \<and> backlog q s' < backlog q s"

end
