(* ===== verification/Float64.thy ===== *)
theory Float64
  imports GoLang
begin

text \<open>
  Go's \<open>float64\<close> as far as the back-off and the health score use it: finite values as
  rationals, the infinities and NaN; rounding to nearest, ties to even, with the gradual
  underflow and the overflow of IEEE 754 binary64; and \<open>math.Pow\<close> for the exponents the
  code passes, with the loop of the standard library. The sign of a zero is not kept: no
  operation here can tell the two zeros apart.
\<close>

section \<open>Rounding\<close>

datatype f64 = Fin rat | PInf | NInf | NaN

text \<open>The exponent of a positive number: \<open>2 ^ e \<le> r < 2 ^ (e + 1)\<close>.\<close>

definition ilog2 :: "rat \<Rightarrow> int" where
  "ilog2 r = (if 1 \<le> r then bitlen \<lfloor>r\<rfloor> - 1 else - bitlen (\<lceil>1 / r\<rceil> - 1))"

definition round_rat :: "rat \<Rightarrow> int" where
  "round_rat x =
     (let f = \<lfloor>x\<rfloor>; d = x - of_int f
      in if d < 1 / 2 then f else if 1 / 2 < d then f + 1 else if even f then f else f + 1)"

text \<open>The unit in the last place at a positive number: 53 bits, and no less than the
  smallest subnormal.\<close>

definition ulp :: "rat \<Rightarrow> rat" where
  "ulp r = 2 powi (max (ilog2 r) (- 1022) - 52)"

definition round_pos :: "rat \<Rightarrow> rat" where
  "round_pos r = of_int (round_rat (r / ulp r)) * ulp r"

definition round64 :: "rat \<Rightarrow> f64" where
  "round64 r =
     (if r = 0 then Fin 0
      else if 0 < r then (if round_pos r < 2 powi 1024 then Fin (round_pos r) else PInf)
      else (if round_pos (- r) < 2 powi 1024 then Fin (- round_pos (- r)) else NInf))"

lemma ilog2_lower: "0 < r \<Longrightarrow> 2 powi (ilog2 r) \<le> r"
  and ilog2_upper: "0 < r \<Longrightarrow> r < 2 powi (ilog2 r + 1)"
proof -
  assume r: "0 < r"
  have "2 powi (ilog2 r) \<le> r \<and> r < 2 powi (ilog2 r + 1)"
  proof (cases "1 \<le> r")
    case True
    then have f: "0 < \<lfloor>r\<rfloor>" by simp
    let ?b = "bitlen \<lfloor>r\<rfloor>"
    have b: "0 < ?b" using f bitlen_bounds [OF f] by (metis bitlen_eq_zero_iff bitlen_nonneg not_less order_less_le)
    have "(2::int) ^ nat (?b - 1) \<le> \<lfloor>r\<rfloor>" "\<lfloor>r\<rfloor> < 2 ^ nat ?b" using bitlen_bounds [OF f] by auto
    then have "(2::rat) ^ nat (?b - 1) \<le> r" "r < 2 ^ nat ?b" by (simp_all add: le_floor_iff floor_less_iff)
    with b True show ?thesis by (simp add: ilog2_def power_int_nonneg_exp)
  next
    case False
    then have y: "1 < 1 / r" using r by simp
    let ?n = "\<lceil>1 / r\<rceil> - 1"
    let ?b = "bitlen ?n"
    have n: "0 < ?n" using y by (simp add: less_ceiling_iff)
    have b: "0 < ?b" using n by (metis bitlen_eq_zero_iff bitlen_nonneg not_less order_less_le)
    have "(2::int) ^ nat (?b - 1) \<le> ?n" "\<lceil>1 / r\<rceil> \<le> 2 ^ nat ?b"
      using bitlen_bounds [OF n] by auto
    then have "(2::rat) ^ nat (?b - 1) < 1 / r" "1 / r \<le> 2 ^ nat ?b"
      by (simp_all add: ceiling_le_iff less_ceiling_iff)
    then have "r < 1 / 2 ^ nat (?b - 1)" "1 / 2 ^ nat ?b \<le> r" using r by (simp_all add: field_simps)
    moreover have "2 powi (- ?b + 1) = 1 / (2::rat) ^ nat (?b - 1)" "2 powi (- ?b) = 1 / (2::rat) ^ nat ?b"
      using b power_int_minus_divide [of "2::rat" "?b - 1"] power_int_minus_divide [of "2::rat" ?b]
      by (simp_all add: power_int_nonneg_exp)
    ultimately show ?thesis using False by (simp add: ilog2_def)
  qed
  then show "2 powi (ilog2 r) \<le> r" "r < 2 powi (ilog2 r + 1)" by simp_all
qed

lemma powi_less_cancel: "(2::rat) powi a < 2 powi b \<Longrightarrow> a < b"
  by (meson not_less one_le_numeral power_int_increasing)

lemma ilog2_unique: "0 < r \<Longrightarrow> 2 powi e \<le> r \<Longrightarrow> r < 2 powi (e + 1) \<Longrightarrow> ilog2 r = e"
  using powi_less_cancel [of "ilog2 r" "e + 1"] powi_less_cancel [of e "ilog2 r + 1"]
    ilog2_lower [of r] ilog2_upper [of r] by fastforce

lemma ilog2_mono: "0 < r \<Longrightarrow> r \<le> s \<Longrightarrow> ilog2 r \<le> ilog2 s"
  using powi_less_cancel [of "ilog2 r" "ilog2 s + 1"] ilog2_lower [of r] ilog2_upper [of s] by fastforce

section \<open>Rounding is monotone and exact where it can be\<close>

lemma round_rat_mono: "x \<le> y \<Longrightarrow> round_rat x \<le> round_rat y"
proof -
  assume le: "x \<le> y"
  have up: "round_rat x \<le> \<lfloor>x\<rfloor> + 1" and low: "\<lfloor>y\<rfloor> \<le> round_rat y"
    by (simp_all add: round_rat_def Let_def)
  show ?thesis
  proof (cases "\<lfloor>x\<rfloor> = \<lfloor>y\<rfloor>")
    case True
    with le show ?thesis by (auto simp: round_rat_def Let_def)
  next
    case False
    with floor_mono [OF le] have "\<lfloor>x\<rfloor> + 1 \<le> \<lfloor>y\<rfloor>" by linarith
    with up low show ?thesis by linarith
  qed
qed

lemma round_rat_int [simp]: "round_rat (of_int n) = n"
  by (simp add: round_rat_def)

lemma ulp_pos [simp]: "0 < ulp r"
  by (simp add: ulp_def)

lemma ulp_mono: "0 < r \<Longrightarrow> r \<le> s \<Longrightarrow> \<exists>k. ulp s = of_int k * ulp r"
proof -
  assume "0 < r" "r \<le> s"
  then have le: "max (ilog2 r) (- 1022) \<le> max (ilog2 s) (- 1022)" using ilog2_mono [of r s] by simp
  let ?d = "max (ilog2 s) (- 1022) - max (ilog2 r) (- 1022)"
  have "ulp s = 2 powi ?d * ulp r" by (simp add: ulp_def flip: power_int_add)
  also have "2 powi ?d = (of_int (2 ^ nat ?d) :: rat)" using le by (simp add: power_int_nonneg_exp)
  finally show ?thesis by blast
qed

text \<open>A bound that is a multiple of its own unit survives rounding.\<close>

definition on_grid :: "rat \<Rightarrow> bool" where
  "on_grid b \<longleftrightarrow> (\<exists>k. b = of_int k * ulp b)"

lemma round_pos_le:
  assumes "0 < r" "r \<le> b" "on_grid b"
  shows "round_pos r \<le> b"
proof -
  obtain k k' where "b = of_int k * ulp b" "ulp b = of_int k' * ulp r"
    using assms ulp_mono [OF assms(1,2)] unfolding on_grid_def by blast
  then have b: "b = of_int (k * k') * ulp r" by simp
  have "r / ulp r \<le> of_int (k * k')" using assms(2) b by (simp add: divide_le_eq)
  then have "round_rat (r / ulp r) \<le> k * k'" using round_rat_mono round_rat_int by metis
  then have "of_int (round_rat (r / ulp r)) * ulp r \<le> of_int (k * k') * ulp r"
    by (intro mult_right_mono) (simp_all only: of_int_le_iff ulp_pos less_imp_le)
  with b show ?thesis by (simp add: round_pos_def)
qed

lemma round_pos_grid: "0 < r \<Longrightarrow> on_grid r \<Longrightarrow> round_pos r = r"
proof -
  assume r: "0 < r" "on_grid r"
  then obtain k where k: "r = of_int k * ulp r" unfolding on_grid_def by blast
  then have "r / ulp r = of_int k" by (metis nonzero_eq_divide_eq ulp_pos less_irrefl)
  with k show ?thesis by (simp add: round_pos_def)
qed

lemma round_pos_nonneg: "0 < r \<Longrightarrow> 0 \<le> round_pos r"
proof -
  assume "0 < r"
  then have "0 \<le> r / ulp r" by (simp add: less_imp_le)
  then have "0 \<le> round_rat (r / ulp r)" using round_rat_mono [of 0 "r / ulp r"] round_rat_int [of 0] by simp
  then show ?thesis by (simp add: round_pos_def less_imp_le)
qed

text \<open>An integer below \<open>2 ^ 53\<close> times a power of two not below the subnormal unit.\<close>

lemma on_gridI:
  assumes r: "0 < r" "r = of_int m * 2 powi e" and m: "m < 2 ^ 53" and e: "- 1074 \<le> e"
  shows "on_grid r"
proof -
  let ?E = "max (ilog2 r) (- 1022)"
  have "?E - 52 \<le> e"
  proof (cases "ilog2 r \<le> - 1022")
    case True
    then show ?thesis using e by simp
  next
    case False
    have "(2::rat) powi (ilog2 r) \<le> of_int m * 2 powi e" using ilog2_lower [OF r(1)] r(2) by simp
    also have "(of_int m :: rat) < of_int (2 ^ 53)" using m by (simp only: of_int_less_iff)
    then have "of_int m * 2 powi e < (2 ^ 53 :: rat) * 2 powi e"
      by (intro mult_strict_right_mono) simp_all
    also have "\<dots> = 2 powi (53 + e)" by (subst power_int_add) simp_all
    finally have "ilog2 r < 53 + e" by (rule powi_less_cancel)
    then show ?thesis using False by simp
  qed
  then have d: "0 \<le> e - (?E - 52)" by simp
  have "(2::rat) powi e = 2 powi ((e - (?E - 52)) + (?E - 52))" by simp
  also have "\<dots> = 2 powi (e - (?E - 52)) * ulp r" unfolding ulp_def by (rule power_int_add) simp
  also have "(2::rat) powi (e - (?E - 52)) = of_int (2 ^ nat (e - (?E - 52)))"
    using d by (simp add: power_int_nonneg_exp)
  finally have "r = of_int (m * 2 ^ nat (e - (?E - 52))) * ulp r" using r(2) by simp
  then show ?thesis unfolding on_grid_def by blast
qed

lemma on_grid_powi: "- 1074 \<le> e \<Longrightarrow> on_grid (2 powi e)"
  by (rule on_gridI [of _ 1 e]) simp_all

lemma round64_grid: "0 \<le> r \<Longrightarrow> on_grid r \<Longrightarrow> r < 2 powi 1024 \<Longrightarrow> round64 r = Fin r"
  by (cases "r = 0") (simp_all add: round64_def round_pos_grid)

lemma round64_bounded:
  assumes "0 \<le> r" "r \<le> b" "on_grid b" "b < 2 powi 1024"
  obtains v where "round64 r = Fin v" "0 \<le> v" "v \<le> b"
proof (cases "r = 0")
  case True
  then show thesis using assms(2) that [of 0] by (simp add: round64_def)
next
  case False
  then have r: "0 < r" using assms(1) by simp
  have "round_pos r \<le> b" by (rule round_pos_le [OF r assms(2,3)])
  with r assms(4) round_pos_nonneg [OF r] show thesis by (intro that) (simp_all add: round64_def)
qed

lemma round64_nonneg: "0 \<le> r \<Longrightarrow> round64 r = PInf \<or> (\<exists>v \<ge> 0. round64 r = Fin v)"
  using round_pos_nonneg [of r] by (cases "r = 0") (auto simp: round64_def)

lemma round_pos_ge_powi: "0 < s \<Longrightarrow> - 1022 \<le> ilog2 s \<Longrightarrow> 2 powi (ilog2 s) \<le> round_pos s"
proof -
  assume s: "0 < s" and e: "- 1022 \<le> ilog2 s"
  have u: "ulp s = 2 powi (ilog2 s - 52)" using e by (simp add: ulp_def)
  have p: "(2::rat) powi (ilog2 s) = of_int (2 ^ 52) * ulp s"
    unfolding u by (subst power_int_diff) simp_all
  have "of_int (2 ^ 52) * ulp s \<le> s" using ilog2_lower [OF s] p by simp
  then have "of_int (2 ^ 52) \<le> s / ulp s" by (simp only: pos_le_divide_eq ulp_pos)
  then have "2 ^ 52 \<le> round_rat (s / ulp s)" using round_rat_mono round_rat_int by metis
  then have "of_int (2 ^ 52) * ulp s \<le> of_int (round_rat (s / ulp s)) * ulp s"
    by (intro mult_right_mono) (simp_all only: of_int_le_iff ulp_pos less_imp_le)
  with p show ?thesis by (simp add: round_pos_def)
qed

lemma round_pos_mono:
  assumes r: "0 < r" and le: "r \<le> s"
  shows "round_pos r \<le> round_pos s"
proof (cases "ulp r = ulp s")
  case True
  have "r / ulp r \<le> s / ulp r" using le by (simp add: divide_right_mono less_imp_le)
  then have "(of_int (round_rat (r / ulp r)) :: rat) \<le> of_int (round_rat (s / ulp r))"
    by (simp only: of_int_le_iff round_rat_mono)
  then have "of_int (round_rat (r / ulp r)) * ulp r \<le> of_int (round_rat (s / ulp r)) * ulp r"
    by (rule mult_right_mono) (simp add: less_imp_le)
  with True show ?thesis by (simp add: round_pos_def)
next
  case False
  have s: "0 < s" using r le by simp
  have E: "max (ilog2 r) (- 1022) < ilog2 s"
    using False ilog2_mono [OF r le]
    by (cases "ilog2 r = ilog2 s") (auto simp: ulp_def max_def split: if_splits)
  have "r < 2 powi (ilog2 r + 1)" by (rule ilog2_upper [OF r])
  also have "\<dots> \<le> 2 powi (ilog2 s)" using E by (intro power_int_increasing) auto
  finally have "round_pos r \<le> 2 powi (ilog2 s)"
    using E by (intro round_pos_le [OF r] on_grid_powi) auto
  also have "\<dots> \<le> round_pos s" using E by (intro round_pos_ge_powi [OF s]) auto
  finally show ?thesis .
qed

section \<open>Conversion and arithmetic\<close>

definition float64 :: "int \<Rightarrow> f64" where
  "float64 n = Fin (of_int (f64_of_int n))"

lemma ilog2_int: "0 < n \<Longrightarrow> ilog2 (of_int n) = bitlen n - 1"
  by (simp add: ilog2_def)

text \<open>The conversion is the rounding of the number.\<close>

lemma round_rat_div:
  assumes "0 < u"
  shows "round_rat (of_int n / of_int u) * u = round_half_even n u"
proof -
  have n: "(of_int n :: rat) = of_int (n div u) * of_int u + of_int (n mod u)"
    by (simp flip: of_int_add of_int_mult)
  have fl: "\<lfloor>(of_int n :: rat) / of_int u\<rfloor> = n div u" by (rule floor_divide_of_int_eq)
  have d: "(of_int n :: rat) / of_int u - of_int (n div u) = of_int (n mod u) / of_int u"
    using assms by (subst n) (simp add: add_divide_distrib)
  have "of_int (n mod u) / of_int u < (1 / 2 :: rat) \<longleftrightarrow> of_int (2 * (n mod u)) < (of_int u :: rat)"
    "(1 / 2 :: rat) < of_int (n mod u) / of_int u \<longleftrightarrow> (of_int u :: rat) < of_int (2 * (n mod u))"
    using assms by (simp_all add: field_simps)
  then have lt: "of_int (n mod u) / of_int u < (1 / 2 :: rat) \<longleftrightarrow> 2 * (n mod u) < u"
    "(1 / 2 :: rat) < of_int (n mod u) / of_int u \<longleftrightarrow> u < 2 * (n mod u)"
    by (simp_all only: of_int_less_iff)
  show ?thesis unfolding round_rat_def Let_def fl d lt round_half_even_def by auto
qed

lemma f64_of_int_round: "0 < n \<Longrightarrow> of_int (f64_of_int n) = round_pos (of_int n)"
proof (cases "n \<le> 2 ^ 53")
  case True
  assume n: "0 < n"
  have "on_grid (of_int n)"
  proof (cases "n = 2 ^ 53")
    case True
    then show ?thesis using on_grid_powi [of 53] by simp
  next
    case False
    then show ?thesis using n \<open>n \<le> 2 ^ 53\<close> by (intro on_gridI [of _ n 0]) auto
  qed
  then show ?thesis using n True by (simp add: f64_of_int_exact round_pos_grid)
next
  case False
  assume n: "0 < n"
  define u where "u = (2::int) ^ nat (bitlen n - 53)"
  have k: "53 < bitlen n" using False by (simp add: bitlen_ge_iff_power flip: add1_zle_eq)
  then have "max (bitlen n - 1) (- 1022) - 52 = bitlen n - 53" by simp
  then have u: "ulp (of_int n) = of_int u"
    using n k by (simp add: ulp_def ilog2_int power_int_nonneg_exp u_def)
  have "0 < u" by (simp add: u_def)
  then have "round_rat (of_int n / of_int u) * u = round_half_even n u" by (rule round_rat_div)
  then have "round_pos (of_int n) = of_int (round_half_even n u)"
    unfolding round_pos_def u by (metis of_int_mult)
  then show ?thesis using n False by (simp add: f64_of_int_def u_def)
qed

lemma f64_of_int_mono: "0 < m \<Longrightarrow> m \<le> n \<Longrightarrow> f64_of_int m \<le> f64_of_int n"
proof -
  assume "0 < m" "m \<le> n"
  then have "(of_int (f64_of_int m) :: rat) \<le> of_int (f64_of_int n)"
    by (simp add: f64_of_int_round round_pos_mono)
  then show ?thesis by (simp only: of_int_le_iff)
qed

lemma f64_of_int_pos: "0 < n \<Longrightarrow> 0 < f64_of_int n"
  using f64_of_int_mono [of 1 n] f64_of_int_exact [of 1] by simp

lemma f64_of_int_0 [simp]: "f64_of_int 0 = 0"
  by (simp add: f64_of_int_def)

text \<open>The operators; a zero divisor is the positive zero.\<close>

fun f64_mul :: "f64 \<Rightarrow> f64 \<Rightarrow> f64" where
  "f64_mul (Fin a) (Fin b) = round64 (a * b)"
| "f64_mul NaN y = NaN"
| "f64_mul x NaN = NaN"
| "f64_mul (Fin a) PInf = (if a = 0 then NaN else if 0 < a then PInf else NInf)"
| "f64_mul (Fin a) NInf = (if a = 0 then NaN else if 0 < a then NInf else PInf)"
| "f64_mul PInf (Fin b) = (if b = 0 then NaN else if 0 < b then PInf else NInf)"
| "f64_mul NInf (Fin b) = (if b = 0 then NaN else if 0 < b then NInf else PInf)"
| "f64_mul PInf PInf = PInf"
| "f64_mul PInf NInf = NInf"
| "f64_mul NInf PInf = NInf"
| "f64_mul NInf NInf = PInf"

fun f64_div :: "f64 \<Rightarrow> f64 \<Rightarrow> f64" where
  "f64_div (Fin a) (Fin b) =
     (if b = 0 then (if a = 0 then NaN else if 0 < a then PInf else NInf) else round64 (a / b))"
| "f64_div NaN y = NaN"
| "f64_div x NaN = NaN"
| "f64_div (Fin a) y = Fin 0"
| "f64_div PInf (Fin b) = (if 0 \<le> b then PInf else NInf)"
| "f64_div NInf (Fin b) = (if 0 \<le> b then NInf else PInf)"
| "f64_div x y = NaN"

fun f64_less :: "f64 \<Rightarrow> f64 \<Rightarrow> bool" where
  "f64_less (Fin a) (Fin b) \<longleftrightarrow> a < b"
| "f64_less NaN y \<longleftrightarrow> False"
| "f64_less x NaN \<longleftrightarrow> False"
| "f64_less NInf y \<longleftrightarrow> y \<noteq> NInf"
| "f64_less x PInf \<longleftrightarrow> x \<noteq> PInf"
| "f64_less x y \<longleftrightarrow> False"

text \<open>
  The conversion to an \<open>int64\<close> drops the fraction. Go leaves the result open for a value
  that does not fit: it is the argument \<open>other\<close>.
\<close>

definition int64_of_f64 :: "(f64 \<Rightarrow> int) \<Rightarrow> f64 \<Rightarrow> int" where
  "int64_of_f64 other x =
     (case x of
        Fin r \<Rightarrow> (let n = (if 0 \<le> r then \<lfloor>r\<rfloor> else \<lceil>r\<rceil>) in if int64_ok n then n else other x)
      | _ \<Rightarrow> other x)"

section \<open>math.Pow with a non-negative integral exponent\<close>

definition frexp :: "f64 \<Rightarrow> f64 \<times> int" where
  "frexp x =
     (case x of
        Fin r \<Rightarrow> if r = 0 then (Fin 0, 0) else (Fin (r / 2 powi (ilog2 \<bar>r\<bar> + 1)), ilog2 \<bar>r\<bar> + 1)
      | _ \<Rightarrow> (x, 0))"

definition ldexp :: "f64 \<Rightarrow> int \<Rightarrow> f64" where
  "ldexp x e = (case x of Fin r \<Rightarrow> round64 (r * 2 powi e) | _ \<Rightarrow> x)"

text \<open>The loop over the bits of the exponent \<open>i\<close>: \<open>a1 * 2 ^ ae\<close> is the product so far and
  \<open>x1 * 2 ^ xe\<close> the current square.\<close>

fun pow_loop :: "nat \<Rightarrow> f64 \<Rightarrow> int \<Rightarrow> f64 \<Rightarrow> int \<Rightarrow> f64 \<times> int" where
  "pow_loop i x1 xe a1 ae =
     (if i = 0 then (a1, ae)
      else if xe < - 4096 \<or> 4096 < xe then (a1, ae + xe)
      else
        (let (a, e) = (if odd i then (f64_mul a1 x1, ae + xe) else (a1, ae));
             y = f64_mul x1 x1
         in if f64_less y (Fin (1 / 2))
            then pow_loop (i div 2) (f64_mul (Fin 2) y) (2 * xe - 1) a e
            else pow_loop (i div 2) y (2 * xe) a e))"

declare pow_loop.simps [simp del]

definition math_pow :: "f64 \<Rightarrow> int \<Rightarrow> f64" where
  "math_pow x y =
     (if y = 0 \<or> x = Fin 1 then Fin 1
      else if y = 1 then x
      else case x of
        NaN \<Rightarrow> NaN
      | PInf \<Rightarrow> PInf
      | NInf \<Rightarrow> (if odd y then NInf else PInf)
      | Fin r \<Rightarrow>
          if r = 0 then Fin 0
          else if 2 ^ 63 \<le> y then
            (if r = - 1 then Fin 1 else if \<bar>r\<bar> < 1 then Fin 0 else PInf)
          else
            (case frexp x of (x1, xe) \<Rightarrow>
              (case pow_loop (nat y) x1 xe (Fin 1) 0 of (a1, ae) \<Rightarrow> ldexp a1 ae)))"

section \<open>Powers stay non-negative, and powers of two are exact or large\<close>

definition in_unit :: "f64 \<Rightarrow> bool" where
  "in_unit x \<longleftrightarrow> (\<exists>r. x = Fin r \<and> 0 \<le> r \<and> r \<le> 1)"

lemma round64_unit: "0 \<le> r \<Longrightarrow> r \<le> 1 \<Longrightarrow> in_unit (round64 r)"
  using round64_bounded [of r 1] on_grid_powi [of 0] power_int_strict_increasing [of 0 1024 "2::rat"]
  unfolding in_unit_def by (metis power_int_0_right one_less_numeral_iff semiring_norm(76) zero_less_numeral neg_le_0_iff_le zero_le_numeral)

lemma in_unit_mul: "in_unit x \<Longrightarrow> in_unit y \<Longrightarrow> in_unit (f64_mul x y)"
  by (auto simp: in_unit_def mult_le_one intro!: round64_unit [unfolded in_unit_def])

lemma in_unit_double: "in_unit y \<Longrightarrow> f64_less y (Fin (1 / 2)) \<Longrightarrow> in_unit (f64_mul (Fin 2) y)"
  by (auto simp: in_unit_def intro!: round64_unit [unfolded in_unit_def])

lemma pow_loop_unit: "in_unit x1 \<Longrightarrow> in_unit a1 \<Longrightarrow> in_unit (fst (pow_loop i x1 xe a1 ae))"
proof (induction i x1 xe a1 ae rule: pow_loop.induct)
  case (1 i x1 xe a1 ae)
  show ?case
    by (subst pow_loop.simps) (use 1 in \<open>auto simp: Let_def in_unit_mul in_unit_double\<close>)
qed

lemma ldexp_unit: "in_unit x \<Longrightarrow> ldexp x e = PInf \<or> (\<exists>v \<ge> 0. ldexp x e = Fin v)"
proof -
  assume "in_unit x"
  then obtain r where x: "x = Fin r" "0 \<le> r" unfolding in_unit_def by blast
  then have "0 \<le> r * 2 powi e" by simp
  from round64_nonneg [OF this] x(1) show ?thesis by (simp add: ldexp_def)
qed

lemma frexp_unit: "0 < r \<Longrightarrow> in_unit (fst (frexp (Fin r)))"
  using ilog2_upper [of r] by (simp add: frexp_def in_unit_def divide_le_eq less_imp_le)

lemma math_pow_nonneg:
  assumes "0 < r"
  shows "math_pow (Fin r) y = PInf \<or> (\<exists>v \<ge> 0. math_pow (Fin r) y = Fin v)"
proof -
  have "ldexp (fst (pow_loop n x1 xe (Fin 1) 0)) e = PInf \<or>
      (\<exists>v \<ge> 0. ldexp (fst (pow_loop n x1 xe (Fin 1) 0)) e = Fin v)"
    if "in_unit x1" for n x1 xe e
    by (rule ldexp_unit, rule pow_loop_unit [OF that]) (simp add: in_unit_def)
  with frexp_unit [OF assms] assms show ?thesis
    unfolding math_pow_def by (auto split: prod.split) (metis fst_conv)+
qed

lemma round64_powi: "- 1074 \<le> k \<Longrightarrow> round64 (2 powi k) = (if k < 1024 then Fin (2 powi k) else PInf)"
proof -
  assume k: "- 1074 \<le> k"
  have r: "round_pos (2 powi k) = 2 powi k" by (rule round_pos_grid) (simp_all add: on_grid_powi k)
  have "(2::rat) powi k < 2 powi 1024 \<longleftrightarrow> k < 1024"
    using powi_less_cancel [of k 1024] power_int_strict_increasing [of k 1024 "2::rat"] by auto
  with r show ?thesis by (simp add: round64_def)
qed

lemma powi_half: "(1 / 2 ^ m :: rat) = 2 powi (- int m)"
  by (simp add: power_int_minus_divide)

lemma pow_loop_two:
  assumes "i < 2 ^ L" "m + L \<le> 1000" "2 \<le> xe"
  shows "\<exists>m' ae'. pow_loop i (Fin (1 / 2)) xe (Fin (1 / 2 ^ m)) ae = (Fin (1 / 2 ^ m'), ae') \<and>
    ae - int m + min ((xe - 1) * int i) 4096 \<le> ae' - int m' \<and>
    ((xe - 1) * int i < 4096 \<longrightarrow> ae' - int m' = ae - int m + (xe - 1) * int i)"
  using assms
proof (induction L arbitrary: i m xe ae)
  case 0
  then show ?case by (intro exI [of _ m] exI [of _ ae]) (simp add: pow_loop.simps)
next
  case (Suc L)
  show ?case
  proof (cases "i = 0 \<or> 4096 < xe")
    case True
    have "4096 \<le> (xe - 1) * int i" if "4096 < xe" "0 < i"
      using mult_mono [of 4096 "xe - 1" 1 "int i"] that by simp
    with True show ?thesis
      using Suc.prems(3) by (intro exI [of _ m]) (auto simp: pow_loop.simps)
  next
    case False
    define d where "d = (if odd i then 1 else 0 :: nat)"
    have half: "f64_mul (Fin (1 / 2 ^ m)) (Fin (1 / 2)) = Fin (1 / 2 ^ (m + 1))"
      using round64_powi [of "- int (m + 1)"] Suc.prems(2) powi_half [of "m + 1"] by (simp add: mult.commute)
    have y: "f64_mul (Fin (1 / 2)) (Fin (1 / 2)) = Fin (1 / 4)"
      using round64_powi [of "- 2"] by (simp add: power_int_minus_divide)
    have y2: "f64_mul (Fin 2) (Fin (1 / 4)) = Fin (1 / 2)"
      using round64_powi [of "- 1"] by (simp add: power_int_minus_divide)
    have step: "pow_loop i (Fin (1 / 2)) xe (Fin (1 / 2 ^ m)) ae =
        pow_loop (i div 2) (Fin (1 / 2)) (2 * xe - 1) (Fin (1 / 2 ^ (m + d))) (ae + int d * xe)"
      by (subst pow_loop.simps) (use False Suc.prems(3) half y y2 in \<open>simp add: d_def del: f64_mul.simps\<close>)
    have "i div 2 < 2 ^ L" "m + d + L \<le> 1000" "2 \<le> 2 * xe - 1"
      using Suc.prems by (auto simp: d_def)
    from Suc.IH [OF this] obtain m' ae' where
      r: "pow_loop i (Fin (1 / 2)) xe (Fin (1 / 2 ^ m)) ae = (Fin (1 / 2 ^ m'), ae')" and
      ge: "(ae + int d * xe) - int (m + d) + min ((2 * xe - 1 - 1) * int (i div 2)) 4096 \<le> ae' - int m'" and
      ex: "(2 * xe - 1 - 1) * int (i div 2) < 4096 \<longrightarrow>
        ae' - int m' = (ae + int d * xe) - int (m + d) + (2 * xe - 1 - 1) * int (i div 2)"
      unfolding step by blast
    have "int i = 2 * int (i div 2) + int d" unfolding d_def by (cases "odd i") (auto elim!: oddE)
    then have split: "(xe - 1) * int i = (2 * xe - 1 - 1) * int (i div 2) + int d * (xe - 1)"
      by (simp add: algebra_simps)
    moreover have pos: "0 \<le> int d * (xe - 1)" using Suc.prems(3) by simp
    ultimately have "ae - int m + min ((xe - 1) * int i) 4096 \<le>
        (ae + int d * xe) - int (m + d) + min ((2 * xe - 1 - 1) * int (i div 2)) 4096"
      by (simp add: algebra_simps min_def)
    with ge have "ae - int m + min ((xe - 1) * int i) 4096 \<le> ae' - int m'" by (rule order_trans [rotated])
    moreover have "ae' - int m' = ae - int m + (xe - 1) * int i" if "(xe - 1) * int i < 4096"
      using ex that split pos by (simp add: algebra_simps)
    ultimately show ?thesis using r by blast
  qed
qed

lemma math_pow_two_loop:
  assumes "2 \<le> n" "n < 2 ^ 63"
  obtains k where "math_pow (Fin 2) n = round64 (2 powi k)" "min n 4096 \<le> k" "n < 4096 \<longrightarrow> k = n"
proof -
  have fr: "frexp (Fin 2) = (Fin (1 / 2), 2)"
    using ilog2_unique [of 2 1] by (simp add: frexp_def)
  have "nat n < 2 ^ 63" using assms(2) by (simp add: nat_less_iff)
  then obtain m' ae' where r: "pow_loop (nat n) (Fin (1 / 2)) 2 (Fin (1 / 2 ^ 0)) 0 = (Fin (1 / 2 ^ m'), ae')"
    and ge: "0 - int 0 + min ((2 - 1) * int (nat n)) 4096 \<le> ae' - int m'"
    and ex: "(2 - 1) * int (nat n) < 4096 \<longrightarrow> ae' - int m' = 0 - int 0 + (2 - 1) * int (nat n)"
    using pow_loop_two [of "nat n" 63 0 2 0] by auto
  have "(1 / 2 ^ m' :: rat) * 2 powi ae' = 2 powi (ae' - int m')"
    unfolding powi_half by (subst power_int_add [symmetric]) simp_all
  then have "math_pow (Fin 2) n = round64 (2 powi (ae' - int m'))"
    using r fr assms by (simp add: math_pow_def ldexp_def)
  then show thesis by (rule that) (use ge ex assms(1) in auto)
qed

lemma math_pow_two_exact:
  assumes "0 \<le> n" "n \<le> 1000"
  shows "math_pow (Fin 2) n = Fin (2 powi n)"
proof (cases "2 \<le> n")
  case True
  obtain k where "math_pow (Fin 2) n = round64 (2 powi k)" "n < 4096 \<longrightarrow> k = n"
    by (rule math_pow_two_loop [OF True]) (use assms in auto)
  then show ?thesis using assms round64_powi [of n] by simp
next
  case False
  then have "n = 0 \<or> n = 1" using assms by auto
  then show ?thesis by (auto simp: math_pow_def)
qed

lemma math_pow_two:
  assumes "10 \<le> n"
  shows "math_pow (Fin 2) n = PInf \<or> (\<exists>v \<ge> 1024. math_pow (Fin 2) n = Fin v)"
proof (cases "2 ^ 63 \<le> n")
  case True
  then show ?thesis using assms by (simp add: math_pow_def)
next
  case False
  obtain k where k: "math_pow (Fin 2) n = round64 (2 powi k)" "min n 4096 \<le> k"
    by (rule math_pow_two_loop [of n]) (use False assms in auto)
  then have "(2::rat) powi 10 \<le> 2 powi k" using assms by (intro power_int_increasing) auto
  then show ?thesis using k assms round64_powi [of k] by simp
qed

lemma round64_ge:
  assumes "0 < b" "b \<le> r" "on_grid b"
  shows "round64 r = PInf \<or> (\<exists>v \<ge> b. round64 r = Fin v)"
  using round_pos_mono [OF assms(1,2)] round_pos_grid [OF assms(1,3)] assms(1,2)
  by (auto simp: round64_def)

end
