(* ===== verification/Backoff.thy ===== *)
theory Backoff
  imports Float64
begin

text \<open>
  internal/worker/backoff.go: the strategies that say how long a failed job waits. The
  interface \<open>BackoffStrategy\<close> is a function from the attempts to a delay in nanoseconds;
  its two implementations are records. The argument \<open>other\<close> is the result of converting a
  \<open>float64\<close> that does not fit an \<open>int64\<close>, which Go leaves to the implementation.
\<close>

section \<open>The strategies\<close>

record FixedBackoff =
  fbDelay :: int

definition FixedNextDelay :: "FixedBackoff \<Rightarrow> int \<Rightarrow> int" where
  "FixedNextDelay f attempts = fbDelay f"

record ExponentialBackoff =
  ebInitialDelay :: int
  ebMaxDelay :: int
  ebFactor :: f64

definition ExponentialNextDelay :: "(f64 \<Rightarrow> int) \<Rightarrow> ExponentialBackoff \<Rightarrow> int \<Rightarrow> int" where
  "ExponentialNextDelay other e attempts =
     (let factor = (if f64_less (ebFactor e) (Fin 0) \<or> ebFactor e = Fin 0 then Fin 2 else ebFactor e)
      in if attempts \<le> 0 then ebInitialDelay e
         else
           (let delay = f64_mul (float64 (ebInitialDelay e))
                          (math_pow factor (f64_of_int (wrap64 (attempts - 1))))
            in if f64_less (float64 (ebMaxDelay e)) delay then ebMaxDelay e
               else int64_of_f64 other delay))"

definition DefaultExponentialBackoff :: ExponentialBackoff where
  "DefaultExponentialBackoff =
     \<lparr>ebInitialDelay = 5 * second, ebMaxDelay = 3600 * second, ebFactor = Fin 2\<rparr>"

definition NoBackoff :: FixedBackoff where
  "NoBackoff = \<lparr>fbDelay = 0\<rparr>"

section \<open>Bounds\<close>




lemma default_small:
  assumes "1 \<le> attempts" "attempts \<le> 10"
  shows "ExponentialNextDelay other DefaultExponentialBackoff attempts =
    min (5 * second * 2 ^ nat (attempts - 1)) (3600 * second)"
proof -
  define k where "k = nat (attempts - 1)"
  have k: "attempts - 1 = int k" "k \<le> 9" using assms by (simp_all add: k_def)
  have w: "f64_of_int (wrap64 (attempts - 1)) = int k"
    using k by (simp add: wrap64_id int64_ok_def f64_of_int_exact)
  have p: "(2::int) ^ k \<le> 2 ^ 9" using k(2) by (intro power_increasing) auto
  have pow: "math_pow (Fin 2) (int k) = Fin (2 ^ k)"
    using k(2) by (subst math_pow_two_exact) simp_all
  define N where "N = 5000000000 * (2::int) ^ k"
  have N: "0 < N" "N < 2 ^ 53" using p by (simp_all add: N_def)
  have "on_grid (of_int N)" using N by (intro on_gridI [of _ N 0]) simp_all
  moreover have "(of_int N :: rat) < of_int (2 ^ 53)" using N by (simp only: of_int_less_iff)
  ultimately have "round64 (of_int N) = Fin (of_int N)"
    using N power_int_strict_increasing [of 53 1024 "2::rat"] by (intro round64_grid) simp_all
  then have prod: "f64_mul (Fin 5000000000) (Fin (2 ^ k)) = Fin (of_int N)"
    by (simp add: N_def)
  have "f64_less (Fin 3600000000000) (Fin (of_int N)) \<longleftrightarrow> (of_int 3600000000000 :: rat) < of_int N"
    by simp
  then have less: "f64_less (Fin 3600000000000) (Fin (of_int N)) \<longleftrightarrow> 3600000000000 < N"
    by (simp only: of_int_less_iff)
  have trunc: "int64_of_f64 other (Fin (of_int N)) = N"
    using N by (simp add: int64_of_f64_def int64_ok_def)
  have "ExponentialNextDelay other DefaultExponentialBackoff attempts =
      (if 3600000000000 < N then 3600000000000 else N)"
    using assms(1) unfolding ExponentialNextDelay_def Let_def w
    by (simp add: DefaultExponentialBackoff_def second_def float64_def f64_of_int_exact pow prod
        less trunc del: f64_mul.simps f64_less.simps)
  then show ?thesis by (simp add: second_def k_def [symmetric] N_def min_def)
qed

lemma default_large:
  assumes "11 \<le> attempts" "int64_ok attempts"
  shows "ExponentialNextDelay other DefaultExponentialBackoff attempts = 3600 * second"
proof -
  define y where "y = f64_of_int (wrap64 (attempts - 1))"
  have "wrap64 (attempts - 1) = attempts - 1" using assms by (intro wrap64_id) (simp add: int64_ok_def)
  then have y: "10 \<le> y"
    using f64_of_int_mono [of 10 "attempts - 1"] assms(1) by (simp add: y_def f64_of_int_exact)
  let ?d = "f64_mul (Fin 5000000000) (math_pow (Fin 2) y)"
  have eq: "ExponentialNextDelay other DefaultExponentialBackoff attempts =
      (if f64_less (Fin 3600000000000) ?d then 3600 * second else int64_of_f64 other ?d)"
    using assms(1) unfolding ExponentialNextDelay_def Let_def y_def
    by (simp add: DefaultExponentialBackoff_def second_def float64_def f64_of_int_exact)
  have "f64_less (Fin 3600000000000) ?d"
    using math_pow_two [OF y]
  proof (elim disjE exE conjE)
    assume "math_pow (Fin 2) y = PInf"
    then show ?thesis by simp
  next
    fix v assume v: "1024 \<le> v" "math_pow (Fin 2) y = Fin v"
    have "on_grid 5120000000000" by (rule on_gridI [of _ 5120000000000 0]) simp_all
    then have "round64 (5000000000 * v) = PInf \<or> (\<exists>w \<ge> 5120000000000. round64 (5000000000 * v) = Fin w)"
      using v(1) by (intro round64_ge) simp_all
    with v(2) show ?thesis by auto
  qed
  with eq show ?thesis by simp
qed

text \<open>C19. The default strategy waits \<open>5 * 2 ^ (attempts - 1)\<close> seconds, at most an hour, for
  every positive number of attempts, although it computes with \<open>float64\<close> and \<open>math.Pow\<close>.\<close>

theorem backoff_default_table:
  assumes "0 < attempts" "int64_ok attempts"
  shows "ExponentialNextDelay other DefaultExponentialBackoff attempts =
    min (5 * second * 2 ^ nat (attempts - 1)) (3600 * second)"
proof (cases "attempts \<le> 10")
  case True
  with assms(1) default_small [of attempts other] show ?thesis by simp
next
  case False
  then have "(2::int) ^ 10 \<le> 2 ^ nat (attempts - 1)" by (intro power_increasing) auto
  then have "3600 * second \<le> 5 * second * 2 ^ nat (attempts - 1)" by (simp add: second_def)
  with False default_large [of attempts other] assms(2) show ?thesis by simp
qed

theorem backoff_default_table_witness:
  "ExponentialNextDelay (\<lambda>_. 0) DefaultExponentialBackoff 4 = 40 * second"
  using backoff_default_table [of 4 "\<lambda>_. 0"] by (simp add: int64_ok_def second_def)

text \<open>Without an attempt the cap does not apply: the initial delay is returned as it is.\<close>

lemma backoff_zero_attempts:
  "attempts \<le> 0 \<Longrightarrow> ExponentialNextDelay other e attempts = ebInitialDelay e"
  by (simp add: ExponentialNextDelay_def)

end
