(* ===== verification/Worker.thy ===== *)
theory Worker
  imports Backend Backoff
begin

text \<open>
  internal/worker/handler.go and internal/worker/worker.go: the registry of handlers, the
  state of a worker and its polling loop. The backend and the registry are shared by all
  workers, so they are arguments. What the environment does during one tick of the loop is a
  record: the environments of the reservation, of the handler and of the final Ack or Nack,
  and the readings of the clock for the state changes.
\<close>

section \<open>Handlers and the registry\<close>

text \<open>A handler sees the job through a pointer and may reach the store, so it returns the job
  and the store it leaves; \<open>Ret ()\<close> is the nil error.\<close>

type_synonym 's handler = "env \<Rightarrow> job \<Rightarrow> 's \<Rightarrow> unit res \<times> job \<times> 's"

record 's registry =
  handlers :: "(string \<times> 's handler) list"

definition NewRegistry :: "'s registry" where
  "NewRegistry = \<lparr>handlers = []\<rparr>"

definition Register :: "string \<Rightarrow> 's handler \<Rightarrow> 's registry \<Rightarrow> 's registry" where
  "Register jobType h r = r\<lparr>handlers := (jobType, h) # handlers r\<rparr>"

definition Get :: "string \<Rightarrow> 's registry \<Rightarrow> 's handler option" where
  "Get jobType r = map_of (handlers r) jobType"

lemma Get_Register: "Get t (Register t' h r) = (if t = t' then Some h else Get t r)"
  by (simp add: Get_def Register_def)

lemma Get_New [simp]: "Get t NewRegistry = None"
  by (simp add: Get_def NewRegistry_def)

section \<open>The worker\<close>

definition WStatusIdle :: string where "WStatusIdle = ''idle''"
definition WStatusRunning :: string where "WStatusRunning = ''running''"
definition WStatusStopped :: string where "WStatusStopped = ''stopped''"

lemmas wstatus_defs = WStatusIdle_def WStatusRunning_def WStatusStopped_def

record WorkerState =
  wsID :: string
  wsQueue :: string
  wsStatus :: string
  wsLastJobID :: string
  wsUpdatedAt :: time

record worker =
  wID :: string
  wQueueName :: string
  wBackoff :: "int \<Rightarrow> int"
  wPollInterval :: int
  wStatus :: string
  wLastJobID :: string
  wUpdatedAt :: time

type_synonym option_fn = "worker \<Rightarrow> worker"

definition WithBackoff :: "(int \<Rightarrow> int) \<Rightarrow> option_fn" where
  "WithBackoff b w = w\<lparr>wBackoff := b\<rparr>"

definition WithPollInterval :: "int \<Rightarrow> option_fn" where
  "WithPollInterval d w = w\<lparr>wPollInterval := d\<rparr>"

definition NewWorker :: "(f64 \<Rightarrow> int) \<Rightarrow> time \<Rightarrow> string \<Rightarrow> string \<Rightarrow> option_fn list \<Rightarrow> worker" where
  "NewWorker other now i queueName opts =
     fold (\<lambda>opt w. opt w) opts
       \<lparr>wID = i, wQueueName = queueName,
        wBackoff = ExponentialNextDelay other DefaultExponentialBackoff,
        wPollInterval = second, wStatus = WStatusIdle, wLastJobID = '''', wUpdatedAt = now\<rparr>"

definition State :: "worker \<Rightarrow> WorkerState" where
  "State w =
     \<lparr>wsID = wID w, wsQueue = wQueueName w, wsStatus = wStatus w, wsLastJobID = wLastJobID w,
      wsUpdatedAt = wUpdatedAt w\<rparr>"

definition setState :: "string \<Rightarrow> string \<Rightarrow> time \<Rightarrow> worker \<Rightarrow> worker" where
  "setState st jobID now w = w\<lparr>wStatus := st, wLastJobID := jobID, wUpdatedAt := now\<rparr>"

record wenv =
  weReserve :: env
  weHandle :: env
  weSettle :: env
  weNow :: "nat \<Rightarrow> time"

section \<open>One job\<close>

text \<open>The part of \<open>execute\<close> between the two state changes. After the handler the code reads
  the id and the attempts through the pointer it gave away.\<close>

definition run_handler ::
    "'s backend \<Rightarrow> 's registry \<Rightarrow> (int \<Rightarrow> int) \<Rightarrow> wenv \<Rightarrow> job \<Rightarrow> 's \<Rightarrow> unit res \<times> 's" where
  "run_handler B reg backoff we j s =
     (case Get (jType j) reg of
        None \<Rightarrow>
          wrap_err ''nack (no handler)''
            (beNack B (weSettle we) (jID j) (Some (ErrNoHandler (jType j))) 0 s)
      | Some h \<Rightarrow>
          (case h (weHandle we) j s of
             (Ret u, j1, s1) \<Rightarrow> wrap_err ''ack'' (beAck B (weSettle we) (jID j1) s1)
           | (Err execErr, j1, s1) \<Rightarrow>
               (let delay = backoff (wrap64 (jAttempts j1 + 1))
                in wrap_err ''nack'' (beNack B (weSettle we) (jID j1) (Some execErr) delay s1))
           | (Panic p, j1, s1) \<Rightarrow> (Panic p, s1)))"

definition execute ::
    "'s backend \<Rightarrow> 's registry \<Rightarrow> wenv \<Rightarrow> job \<Rightarrow> worker \<Rightarrow> 's \<Rightarrow> unit res \<times> worker \<times> 's" where
  "execute B reg we j w s =
     (let w1 = setState WStatusRunning (jID j) (weNow we 0) w
      in case run_handler B reg (wBackoff w1) we j s of
           (r, s') \<Rightarrow> (r, setState WStatusIdle '''' (weNow we 1) w1, s'))"

definition processNext ::
    "'s backend \<Rightarrow> 's registry \<Rightarrow> wenv \<Rightarrow> worker \<Rightarrow> 's \<Rightarrow> unit res \<times> worker \<times> 's" where
  "processNext B reg we w s =
     (case beReserve B (weReserve we) (wQueueName w) s of
        (Panic p, s1) \<Rightarrow> (Panic p, w, s1)
      | (Err x, s1) \<Rightarrow>
          (if err_is x ErrCanceled then (Err x, w, s1) else (Err (ErrWrap ''reserve'' x), w, s1))
      | (Ret None, s1) \<Rightarrow> (Ret (), w, s1)
      | (Ret (Some j), s1) \<Rightarrow> execute B reg we j w s1)"

section \<open>The loop\<close>

text \<open>
  What the loop's \<open>select\<close> sees, in the order it sees it: a tick or the end of the context.
  A list that ends without \<open>Done\<close> leaves the worker running. The result holds the errors
  that were logged; an error that stems from the cancellation of the context is not.
\<close>

datatype event = Tick wenv | Done time

datatype run_outcome = Polling | Returned | Crashed string

fun run_loop ::
    "'s backend \<Rightarrow> 's registry \<Rightarrow> event list \<Rightarrow> worker \<Rightarrow> 's \<Rightarrow> run_outcome \<times> goerr list \<times> worker \<times> 's" where
  "run_loop B reg [] w s = (Polling, [], w, s)"
| "run_loop B reg (Done now # es) w s = (Returned, [], setState WStatusStopped '''' now w, s)"
| "run_loop B reg (Tick we # es) w s =
     (case processNext B reg we w s of
        (Panic p, w1, s1) \<Rightarrow> (Crashed p, [], setState WStatusStopped '''' (weNow we 2) w1, s1)
      | (Err x, w1, s1) \<Rightarrow>
          (case run_loop B reg es w1 s1 of
             (out, logged, w2, s2) \<Rightarrow>
               (out, (if err_is x ErrCanceled then logged else x # logged), w2, s2))
      | (Ret u, w1, s1) \<Rightarrow> run_loop B reg es w1 s1)"

text \<open>\<open>time.NewTicker\<close> panics on an interval that is not positive.\<close>

definition Run ::
    "'s backend \<Rightarrow> 's registry \<Rightarrow> time \<Rightarrow> event list \<Rightarrow> worker \<Rightarrow> 's \<Rightarrow> run_outcome \<times> goerr list \<times> worker \<times> 's" where
  "Run B reg now es w s =
     (let w1 = setState WStatusIdle '''' now w in
      if wPollInterval w1 \<le> 0
      then (Crashed ''non-positive interval for NewTicker'', [], setState WStatusStopped '''' now w1, s)
      else run_loop B reg es w1 s)"

section \<open>The state a worker shows\<close>

lemma setState_fields [simp]:
  "wStatus (setState st i t w) = st" "wLastJobID (setState st i t w) = i" "wUpdatedAt (setState st i t w) = t"
  "wID (setState st i t w) = wID w" "wQueueName (setState st i t w) = wQueueName w"
  "wBackoff (setState st i t w) = wBackoff w" "wPollInterval (setState st i t w) = wPollInterval w"
  by (simp_all add: setState_def)

definition at_rest :: "worker \<Rightarrow> bool" where
  "at_rest w \<longleftrightarrow> wStatus w = WStatusIdle \<and> wLastJobID w = ''''"

lemma processNext_fixed:
  assumes "processNext B reg we w s = (r, w', s')"
  shows "wID w' = wID w" "wQueueName w' = wQueueName w" "wBackoff w' = wBackoff w"
    "at_rest w \<Longrightarrow> at_rest w'"
  using assms
  by (auto simp: processNext_def execute_def at_rest_def Let_def
      split: prod.splits res.splits option.splits if_splits)

lemma run_loop_state:
  assumes "at_rest w" "run_loop B reg es w s = (out, logged, w', s')"
  shows "wLastJobID w' = '''' \<and> wStatus w' = (if out = Polling then WStatusIdle else WStatusStopped)"
  using assms
proof (induction B reg es w s arbitrary: logged rule: run_loop.induct)
  case (3 B reg we es w s)
  obtain r w1 s1 where p: "processNext B reg we w s = (r, w1, s1)" by (cases rule: prod_cases3)
  have rest: "at_rest w1" by (rule processNext_fixed(4) [OF p "3.prems"(1)])
  show ?case
  proof (cases r)
    case (Ret u)
    with "3.IH"(1) [OF p [symmetric] Ret refl rest] "3.prems"(2) p show ?thesis by auto
  next
    case (Err x)
    with "3.IH"(2) [OF p [symmetric] Err refl rest] "3.prems"(2) p show ?thesis
      by (auto split: prod.splits)
  next
    case (Panic m)
    with "3.prems"(2) p show ?thesis by auto
  qed
qed (auto simp: at_rest_def)

text \<open>Between two ticks a worker is idle and names no job, and once its loop has returned
  or crashed it is stopped and names no job: the id of the last job it ran is never kept.\<close>

lemma worker_visible_state:
  "(case Run B reg now es w s of (out, logged, w', s') \<Rightarrow>
    wsLastJobID (State w') = '''' \<and>
    wsStatus (State w') = (if out = Polling then WStatusIdle else WStatusStopped))"
proof (cases "wPollInterval w \<le> 0")
  case True
  then show ?thesis by (simp add: Run_def Let_def State_def)
next
  case False
  obtain out logged w' s' where r: "run_loop B reg es (setState WStatusIdle '''' now w) s = (out, logged, w', s')"
    by (cases rule: prod_cases4)
  have "at_rest (setState WStatusIdle '''' now w)" by (simp add: at_rest_def)
  from run_loop_state [OF this r] r False show ?thesis by (simp add: Run_def State_def)
qed

text \<open>Nothing that comes after the end of the context matters: no job is reserved and no
  state is changed once the loop has seen it.\<close>

lemma worker_stops_at_done:
  "run_loop B reg (es1 @ Done now # es2) w s = run_loop B reg (es1 @ [Done now]) w s"
proof (induction es1 arbitrary: w s)
  case (Cons e es1)
  then show ?case by (cases e) (simp_all split: prod.split res.split)
qed simp

end
