(* ===== verification/Pool.thy ===== *)
theory Pool
  imports Worker
begin

text \<open>
  internal/worker/pool.go: a pool of workers over several queues. The goroutines are not part
  of the record: each worker of the list runs the loop of theory Worker. \<open>Stop\<close> returns
  once they all have.
\<close>

record QueueConfig =
  qcName :: string
  qcConcurrency :: int

record pool =
  pQueues :: "QueueConfig list"
  pWorkerOpts :: "option_fn list"
  pWorkers :: "worker list"
  pCancel :: bool
  pStarted :: bool

type_synonym pool_option = "pool \<Rightarrow> pool"

definition WithPoolWorkerOptions :: "option_fn list \<Rightarrow> pool_option" where
  "WithPoolWorkerOptions opts p = p\<lparr>pWorkerOpts := pWorkerOpts p @ opts\<rparr>"

text \<open>The logger is not part of the records: the option that sets it changes nothing else.\<close>

definition WithWorkerLogger :: option_fn where
  "WithWorkerLogger w = w"

definition WithPoolLogger :: pool_option where
  "WithPoolLogger p = p\<lparr>pWorkerOpts := pWorkerOpts p @ [WithWorkerLogger]\<rparr>"

definition NewPool :: "QueueConfig list \<Rightarrow> pool_option list \<Rightarrow> pool" where
  "NewPool queues opts =
     fold (\<lambda>opt p. opt p) opts
       \<lparr>pQueues = queues, pWorkerOpts = [], pWorkers = [], pCancel = False, pStarted = False\<rparr>"

definition concurrency_of :: "QueueConfig \<Rightarrow> nat" where
  "concurrency_of q = (if qcConcurrency q \<le> 0 then 1 else nat (qcConcurrency q))"

text \<open>The two nested loops of \<open>Start\<close>: \<open>idx\<close> is the number of the next worker.\<close>

fun spawn :: "(f64 \<Rightarrow> int) \<Rightarrow> (nat \<Rightarrow> time) \<Rightarrow> option_fn list \<Rightarrow> nat \<Rightarrow> QueueConfig list \<Rightarrow> worker list" where
  "spawn other now opts idx [] = []"
| "spawn other now opts idx (q # qs) =
     map (\<lambda>i. NewWorker other (now i) (''worker-'' @ itoa (int i)) (qcName q) opts)
       [idx ..< idx + concurrency_of q]
     @ spawn other now opts (idx + concurrency_of q) qs"

definition Start :: "(f64 \<Rightarrow> int) \<Rightarrow> (nat \<Rightarrow> time) \<Rightarrow> pool \<Rightarrow> unit res \<times> pool" where
  "Start other now p =
     (if pStarted p then (Err (ErrNew ''pool is already running''), p)
      else (Ret (), p\<lparr>pCancel := True, pStarted := True,
              pWorkers := pWorkers p @ spawn other now (pWorkerOpts p) 0 (pQueues p)\<rparr>))"

definition Stop :: "pool \<Rightarrow> pool" where
  "Stop p = p\<lparr>pStarted := False, pWorkers := [], pCancel := False\<rparr>"

definition States :: "pool \<Rightarrow> WorkerState list" where
  "States p = map State (pWorkers p)"

section \<open>The workers of a pool\<close>

text \<open>An option that leaves the identity of a worker alone, as those of the package do.\<close>

definition keeps_identity :: "option_fn \<Rightarrow> bool" where
  "keeps_identity opt \<longleftrightarrow> (\<forall>w. wID (opt w) = wID w \<and> wQueueName (opt w) = wQueueName w)"

lemma package_options: "keeps_identity (WithBackoff b)" "keeps_identity (WithPollInterval d)"
    "keeps_identity WithWorkerLogger"
  by (simp_all add: keeps_identity_def WithBackoff_def WithPollInterval_def WithWorkerLogger_def)

lemma fold_options:
  assumes "\<forall>opt \<in> set opts. keeps_identity opt"
  shows "wID (fold (\<lambda>opt w. opt w) opts w) = wID w \<and>
    wQueueName (fold (\<lambda>opt w. opt w) opts w) = wQueueName w"
  using assms by (induction opts arbitrary: w) (auto simp: keeps_identity_def)

lemma NewWorker_identity:
  assumes "\<forall>opt \<in> set opts. keeps_identity opt"
  shows "wID (NewWorker other now i q opts) = i" "wQueueName (NewWorker other now i q opts) = q"
  using fold_options [OF assms] by (simp_all add: NewWorker_def)

lemma spawn_ids:
  assumes "\<forall>opt \<in> set opts. keeps_identity opt"
  shows "map wID (spawn other now opts idx qs) =
    map (\<lambda>i. ''worker-'' @ itoa (int i)) [idx ..< idx + sum_list (map concurrency_of qs)]"
proof (induction qs arbitrary: idx)
  case (Cons q qs)
  have "[idx ..< idx + (concurrency_of q + sum_list (map concurrency_of qs))] =
      [idx ..< idx + concurrency_of q] @
      [idx + concurrency_of q ..< idx + concurrency_of q + sum_list (map concurrency_of qs)]"
    by (metis add.assoc upt_add_eq_append le_add1)
  then show ?case by (simp add: Cons.IH NewWorker_identity [OF assms] comp_def)
qed simp

lemma spawn_queue:
  assumes "\<forall>opt \<in> set opts. keeps_identity opt"
  shows "length (filter (\<lambda>w. wQueueName w = n) (spawn other now opts idx qs)) =
    sum_list (map concurrency_of (filter (\<lambda>q. qcName q = n) qs))"
  by (induction qs arbitrary: idx)
    (auto simp: filter_map comp_def NewWorker_identity [OF assms])

text \<open>C33. \<open>Start\<close> on a pool that has no workers gives every queue the workers it asks for, at
  least one, under the ids \<open>worker-0\<close>, \<open>worker-1\<close> and so on, all different. A second
  \<open>Start\<close> is refused and changes nothing, and after \<open>Stop\<close> the pool starts again with the
  same workers.\<close>

theorem pool_start_workers:
  assumes "\<not> pStarted p" "pWorkers p = []" "\<forall>opt \<in> set (pWorkerOpts p). keeps_identity opt"
    and "int (sum_list (map concurrency_of (pQueues p))) < 2 ^ 63"
  shows "\<exists>p'. Start other now p = (Ret (), p') \<and>
    map wsID (States p') = map (\<lambda>i. ''worker-'' @ itoa (int i))
      [0 ..< sum_list (map concurrency_of (pQueues p))] \<and>
    distinct (map wsID (States p')) \<and>
    (\<forall>n. length (filter (\<lambda>w. wsQueue w = n) (States p')) =
       sum_list (map concurrency_of (filter (\<lambda>q. qcName q = n) (pQueues p)))) \<and>
    Start other now p' = (Err (ErrNew ''pool is already running''), p') \<and>
    Start other now (Stop p') = (Ret (), p')"
proof -
  let ?ws = "spawn other now (pWorkerOpts p) 0 (pQueues p)"
  let ?p' = "p\<lparr>pCancel := True, pStarted := True, pWorkers := ?ws\<rparr>"
  let ?n = "sum_list (map concurrency_of (pQueues p))"
  have start: "Start other now p = (Ret (), ?p')" using assms(1,2) by (simp add: Start_def)
  have ids: "map wsID (States ?p') = map (\<lambda>i. ''worker-'' @ itoa (int i)) [0 ..< ?n]"
    using spawn_ids [OF assms(3), of other now 0 "pQueues p"]
    by (simp add: States_def State_def comp_def)
  have "inj_on (\<lambda>i. ''worker-'' @ itoa (int i)) (set [0 ..< ?n])"
  proof (rule inj_onI)
    fix i k assume i: "i \<in> set [0 ..< ?n]" and k: "k \<in> set [0 ..< ?n]"
      and eq: "''worker-'' @ itoa (int i) = ''worker-'' @ itoa (int k)"
    have "int64_ok (int i)" "int64_ok (int k)" using i k assms(4) by (auto simp: int64_ok_def)
    moreover have "itoa (int i) = itoa (int k)" using eq by (simp only: same_append_eq)
    ultimately have "Some (int i) = Some (int k)" by (metis parse_itoa)
    then show "i = k" by simp
  qed
  then have "distinct (map wsID (States ?p'))" unfolding ids by (simp add: distinct_map)
  moreover have "length (filter (\<lambda>w. wsQueue w = n) (States ?p')) =
      sum_list (map concurrency_of (filter (\<lambda>q. qcName q = n) (pQueues p)))" for n
    using spawn_queue [OF assms(3), where idx = 0 and qs = "pQueues p" and n = n]
    by (simp add: States_def State_def filter_map comp_def)
  moreover have "Start other now ?p' = (Err (ErrNew ''pool is already running''), ?p')"
    by (simp add: Start_def)
  moreover have "Start other now (Stop ?p') = (Ret (), ?p')"
    using assms(1,2) by (simp add: Start_def Stop_def)
  ultimately show ?thesis using start ids by blast
qed

theorem pool_start_workers_witness:
  "\<exists>p'. Start (\<lambda>_. 0) (\<lambda>_. 0)
      (NewPool [\<lparr>qcName = ''mail'', qcConcurrency = 2\<rparr>, \<lparr>qcName = ''sms'', qcConcurrency = - 1\<rparr>]
        [WithPoolWorkerOptions [WithPollInterval 5]]) = (Ret (), p') \<and>
    map wsID (States p') = [''worker-0'', ''worker-1'', ''worker-2'']"
proof -
  let ?p = "NewPool [\<lparr>qcName = ''mail'', qcConcurrency = 2\<rparr>, \<lparr>qcName = ''sms'', qcConcurrency = - 1\<rparr>]
        [WithPoolWorkerOptions [WithPollInterval 5]]"
  have p: "\<not> pStarted ?p" "pWorkers ?p = []" "\<forall>opt \<in> set (pWorkerOpts ?p). keeps_identity opt"
    "int (sum_list (map concurrency_of (pQueues ?p))) < 2 ^ 63"
    by (simp_all add: NewPool_def WithPoolWorkerOptions_def package_options concurrency_of_def)
  have "map (\<lambda>i. ''worker-'' @ itoa (int i)) [0 ..< sum_list (map concurrency_of (pQueues ?p))] =
      [''worker-0'', ''worker-1'', ''worker-2'']" by code_simp
  with pool_start_workers [OF p, of "\<lambda>_. 0" "\<lambda>_. 0"] show ?thesis by auto
qed

end
