(* ===== verification/WorkerContract.thy ===== *)
theory WorkerContract
  imports Pool
begin

text \<open>
  What a worker does to a store that keeps the contract of the \<open>Backend\<close> interface, for
  handlers that leave the store and the job alone: each tick settles at most one job, and
  the number of attempts never passes the limit.
\<close>

section \<open>Handlers without side effects\<close>

type_synonym outcomes = "string \<Rightarrow> (job \<Rightarrow> goerr option) option"

definition pure_handler :: "'s handler \<Rightarrow> (job \<Rightarrow> goerr option) \<Rightarrow> bool" where
  "pure_handler h f \<longleftrightarrow>
     (\<forall>e j s. h e j s = ((case f j of None \<Rightarrow> Ret () | Some x \<Rightarrow> Err x), j, s))"

definition pure_registry :: "'s registry \<Rightarrow> outcomes \<Rightarrow> bool" where
  "pure_registry reg oc \<longleftrightarrow>
     (\<forall>t. case Get t reg of None \<Rightarrow> oc t = None
          | Some h \<Rightarrow> (\<exists>f. oc t = Some f \<and> pure_handler h f))"

lemma pure_registry_None: "pure_registry reg oc \<Longrightarrow> Get t reg = None \<Longrightarrow> oc t = None"
  unfolding pure_registry_def by (drule spec [of _ t]) simp

lemma pure_registry_Some:
  "pure_registry reg oc \<Longrightarrow> Get t reg = Some h \<Longrightarrow> \<exists>f. oc t = Some f \<and> pure_handler h f"
  unfolding pure_registry_def by (drule spec [of _ t]) simp

text \<open>What becomes of the stored job \<open>j\<close> when the worker has run it as \<open>j'\<close>.\<close>

definition settled ::
    "(time \<Rightarrow> time) \<Rightarrow> time \<Rightarrow> outcomes \<Rightarrow> (int \<Rightarrow> int) \<Rightarrow> job \<Rightarrow> job \<Rightarrow> job" where
  "settled stamp now oc backoff j' j =
     (case oc (jType j') of
        None \<Rightarrow> nacked stamp now (Some (ErrNoHandler (jType j'))) 0 j
      | Some f \<Rightarrow>
          (case f j' of
             None \<Rightarrow> acked stamp now j
           | Some x \<Rightarrow> nacked stamp now (Some x) (backoff (wrap64 (jAttempts j' + 1))) j))"

lemma nacked_running [simp]:
  "nacked stamp now err d (j\<lparr>jStatus := st, jUpdatedAt := t\<rparr>) = nacked stamp now err d j"
  by (simp add: nacked_def Let_def)

lemma acked_running [simp]: "acked stamp now (j\<lparr>jStatus := st, jUpdatedAt := t\<rparr>) = acked stamp now j"
  by (simp add: acked_def)

lemma settled_running [simp]:
  "settled stamp now oc b j' (j\<lparr>jStatus := st, jUpdatedAt := t\<rparr>) = settled stamp now oc b j' j"
  by (simp add: settled_def split: option.split)

section \<open>The attempts of a job\<close>

text \<open>A job that waits or runs has an attempt left; a dead one has used them all.\<close>

definition attempts_sane :: "job \<Rightarrow> bool" where
  "attempts_sane j \<longleftrightarrow>
     1 \<le> jMaxAttempts j \<and> jMaxAttempts j < 2 ^ 31 \<and> 0 \<le> jAttempts j \<and> jAttempts j \<le> jMaxAttempts j \<and>
     (jStatus j = StatusPending \<or> jStatus j = StatusRunning \<longrightarrow> jAttempts j < jMaxAttempts j) \<and>
     (jStatus j = StatusDead \<longrightarrow> jAttempts j = jMaxAttempts j)"

lemma sane_counters: "attempts_sane j \<Longrightarrow> jStatus j = StatusPending \<Longrightarrow> counters_ok j"
  by (auto simp: attempts_sane_def counters_ok_def)

lemma nacked_sane: "attempts_sane j \<Longrightarrow> jStatus j = StatusPending \<Longrightarrow> attempts_sane (nacked stamp now err d j)"
  by (auto simp: attempts_sane_def nacked_status status_defs)

lemma acked_sane: "attempts_sane j \<Longrightarrow> attempts_sane (acked stamp now j)"
  by (auto simp: attempts_sane_def status_defs)

lemma settled_sane:
  "attempts_sane j \<Longrightarrow> jStatus j = StatusPending \<Longrightarrow> attempts_sane (settled stamp now oc b j' j)"
  by (simp add: settled_def nacked_sane acked_sane split: option.split)

lemma running_counters [simp]: "counters_ok (j\<lparr>jStatus := st, jUpdatedAt := t\<rparr>) = counters_ok j"
  by (simp add: counters_ok_def)

definition calm_tick :: "wenv \<Rightarrow> bool" where
  "calm_tick we \<longleftrightarrow> calm (weReserve we) \<and> calm (weSettle we)"

definition backoff_ok :: "(int \<Rightarrow> int) \<Rightarrow> bool" where
  "backoff_ok b \<longleftrightarrow> (\<forall>n. int64_ok (b n))"

section \<open>A tick on a store that keeps the contract\<close>

context job_store
begin

lemma run_handler_settles:
  assumes "inv s" "calm_tick we" "pure_registry reg oc" "backoff_ok b"
    and j: "view s (jID j') = Some j" "counters_ok j"
  obtains s' where "run_handler B reg b we j' s = (Ret (), s')" "inv s'"
    "view s' = (view s)(jID j' \<mapsto> settled stamp (clk (weSettle we) 0) oc b j' j)"
proof -
  let ?e = "weSettle we"
  have e: "calm ?e" using assms(2) by (simp add: calm_tick_def)
  note nack = nack_law [OF assms(1) e j]
  show thesis
  proof (cases "Get (jType j') reg")
    case None
    then have oc: "oc (jType j') = None" by (rule pure_registry_None [OF assms(3)])
    have "int64_ok 0" by (simp add: int64_ok_def)
    then obtain s' where "beNack B ?e (jID j') (Some (ErrNoHandler (jType j'))) 0 s = (Ret (), s')" "inv s'"
      "view s' = (view s)(jID j' \<mapsto> nacked stamp (clk ?e 0) (Some (ErrNoHandler (jType j'))) 0 j)"
      using nack by blast
    then show thesis using None oc by (intro that [of s']) (simp_all add: run_handler_def settled_def)
  next
    case (Some h)
    then obtain f where oc: "oc (jType j') = Some f" and h: "pure_handler h f"
      using pure_registry_Some [OF assms(3)] by blast
    show thesis
    proof (cases "f j'")
      case None
      obtain s' where "beAck B ?e (jID j') s = (Ret (), s')" "inv s'"
        "view s' = (view s)(jID j' \<mapsto> acked stamp (clk ?e 0) j)"
        using ack_law [OF assms(1) e j(1)] by blast
      then show thesis using Some None oc h
        by (intro that [of s']) (simp_all add: run_handler_def settled_def pure_handler_def)
    next
      case x: (Some x)
      let ?d = "b (wrap64 (jAttempts j' + 1))"
      have "int64_ok ?d" using assms(4) by (simp add: backoff_ok_def)
      then obtain s' where "beNack B ?e (jID j') (Some x) ?d s = (Ret (), s')" "inv s'"
        "view s' = (view s)(jID j' \<mapsto> nacked stamp (clk ?e 0) (Some x) ?d j)"
        using nack by blast
      then show thesis using Some x oc h
        by (intro that [of s']) (simp_all add: run_handler_def settled_def pure_handler_def)
    qed
  qed
qed

text \<open>The two outcomes of a tick: nothing changes, or one due job of the queue is settled.\<close>

lemma tick_outcome:
  assumes "inv s" "calm_tick we" "pure_registry reg oc" "backoff_ok (wBackoff w)"
    and counters: "\<And>i j. view s i = Some j \<Longrightarrow> jStatus j = StatusPending \<Longrightarrow> counters_ok j"
  shows "\<exists>r w' s'. processNext B reg we w s = (r, w', s') \<and> inv s' \<and> (\<forall>p. r \<noteq> Panic p) \<and>
    (view s' = view s \<or>
     (\<exists>i j t. r = Ret () \<and> view s i = Some j \<and> jStatus j = StatusPending \<and> jQueue j = wQueueName w \<and>
        jScheduledAt j \<le> clk (weReserve we) 0 \<and>
        view s' = (view s)(i \<mapsto> settled stamp (clk (weSettle we) 0) oc (wBackoff w)
          (j\<lparr>jStatus := StatusRunning, jUpdatedAt := t\<rparr>) j)))"
proof -
  have e: "calm (weReserve we)" using assms(2) by (simp add: calm_tick_def)
  obtain r s1 where r: "beReserve B (weReserve we) (wQueueName w) s = (r, s1)" and inv1: "inv s1"
    and out: "reserve_outcome (clk (weReserve we) 0) (wQueueName w) (view s) r (view s1)"
    using reserve_law [OF assms(1) e] by blast
  show ?thesis
  proof (cases "\<exists>j'. r = Ret (Some j')")
    case False
    have "(\<exists>x. r = Err x) \<or> r = Ret None" using False out
      by (cases r) (auto simp: reserve_outcome_def split: option.splits)
    then show ?thesis using r inv1 out
      by (auto simp: processNext_def reserve_outcome_def)
  next
    case True
    then obtain j' where r': "r = Ret (Some j')" by blast
    with out obtain j t t' where j: "view s (jID j') = Some j" "jQueue j = wQueueName w"
      "jStatus j = StatusPending" "jScheduledAt j \<le> clk (weReserve we) 0"
      "j' = j\<lparr>jStatus := StatusRunning, jUpdatedAt := t\<rparr>"
      and v1: "view s1 = (view s)(jID j' \<mapsto> j\<lparr>jStatus := StatusRunning, jUpdatedAt := t'\<rparr>)"
      by (auto simp: reserve_outcome_def)
    have c: "counters_ok (j\<lparr>jStatus := StatusRunning, jUpdatedAt := t'\<rparr>)"
      using counters [OF j(1,3)] by simp
    obtain s2 where s2: "run_handler B reg (wBackoff w) we j' s1 = (Ret (), s2)" "inv s2"
      "view s2 = (view s1)(jID j' \<mapsto> settled stamp (clk (weSettle we) 0) oc (wBackoff w) j'
         (j\<lparr>jStatus := StatusRunning, jUpdatedAt := t'\<rparr>))"
      by (rule run_handler_settles [OF inv1 assms(2-4) _ c]) (use v1 in auto)
    have "view s2 = (view s)(jID j' \<mapsto> settled stamp (clk (weSettle we) 0) oc (wBackoff w) j' j)"
      using s2(3) v1 by simp
    then have ex: "\<exists>i j t. Ret () = Ret () \<and> view s i = Some j \<and> jStatus j = StatusPending \<and> jQueue j = wQueueName w \<and>
        jScheduledAt j \<le> clk (weReserve we) 0 \<and>
        view s2 = (view s)(i \<mapsto> settled stamp (clk (weSettle we) 0) oc (wBackoff w)
          (j\<lparr>jStatus := StatusRunning, jUpdatedAt := t\<rparr>) j)"
      using j by (intro exI [of _ "jID j'"] exI [of _ j] exI [of _ t]) simp
    obtain w2 where "processNext B reg we w s = (Ret (), w2, s2)"
      using r r' s2(1) by (simp add: processNext_def execute_def Let_def)
    with s2(2) ex show ?thesis by blast
  qed
qed

lemma tick_sane:
  assumes "inv s" "calm_tick we" "pure_registry reg oc" "backoff_ok (wBackoff w)"
    and "\<forall>i j. view s i = Some j \<longrightarrow> attempts_sane j"
    and "processNext B reg we w s = (r, w', s')"
  shows "inv s' \<and> (\<forall>i j. view s' i = Some j \<longrightarrow> attempts_sane j) \<and> dom (view s') = dom (view s)"
proof -
  have "view s' = view s \<or> (\<exists>i j j'. view s i = Some j \<and> jStatus j = StatusPending \<and>
      view s' = (view s)(i \<mapsto> settled stamp (clk (weSettle we) 0) oc (wBackoff w) j' j))" and inv': "inv s'"
    using tick_outcome [OF assms(1-4)] assms(5,6) sane_counters by fastforce+
  then show ?thesis using assms(5) settled_sane by (auto split: if_splits)
qed

lemma run_sane:
  assumes "inv s" "pure_registry reg oc" "backoff_ok (wBackoff w)"
    and "\<forall>we. Tick we \<in> set es \<longrightarrow> calm_tick we"
    and "\<forall>i j. view s i = Some j \<longrightarrow> attempts_sane j"
    and "run_loop B reg es w s = (out, logged, w', s')"
  shows "inv s' \<and> (\<forall>i j. view s' i = Some j \<longrightarrow> attempts_sane j) \<and> dom (view s') = dom (view s)"
  using assms
proof (induction es arbitrary: w s logged)
  case (Cons ev es)
  show ?case
  proof (cases ev)
    case (Tick we)
    obtain r w1 s1 where p: "processNext B reg we w s = (r, w1, s1)" by (cases rule: prod_cases3)
    have c: "calm_tick we" using Cons.prems(4) Tick by simp
    have 1: "inv s1 \<and> (\<forall>i j. view s1 i = Some j \<longrightarrow> attempts_sane j) \<and> dom (view s1) = dom (view s)"
      by (rule tick_sane [OF Cons.prems(1) c Cons.prems(2,3,5) p])
    have b: "backoff_ok (wBackoff w1)" using processNext_fixed(3) [OF p] Cons.prems(3) by simp
    obtain out2 l2 w2 s2 where l: "run_loop B reg es w1 s1 = (out2, l2, w2, s2)"
      by (cases rule: prod_cases4)
    show ?thesis
    proof (cases r)
      case (Panic m)
      then show ?thesis using Cons.prems(6) Tick p 1 by simp
    qed (use Cons.IH [of s1 w1 l2] Cons.prems Tick p l 1 b in auto)
  qed (use Cons.prems in simp)
qed simp

end

end
