(* ===== verification/HttpApi.thy ===== *)
theory HttpApi
  imports Backend
begin

text \<open>
  internal/httpapi: the authentication middleware, the routes and the handlers of the REST
  API. The router and its panic recovery are a library: a request comes with its route
  already resolved, and a handler that panics ends in \<open>Aborted\<close>. The JSON codec is not
  modelled: a request carries the decoded body, \<open>None\<close> when the decoder fails, and a
  response the value that is encoded. A handler is a client of the \<open>Backend\<close> interface; its
  successive calls meet the environments \<open>be 0\<close>, \<open>be 1\<close> and so on.
\<close>

section \<open>Requests and responses\<close>

record enqueueRequest =
  rqType :: string
  rqQueue :: string
  rqPayload :: string
  rqPriority :: "int option"
  rqMaxAttempts :: "int option"
  rqScheduledAt :: "time option"

datatype body =
    JError string
  | JJob job
  | JJobs "job list"
  | JQueues "queue_stats list option"
  | JStatus string
  | NoBody

datatype response = Resp int body | Aborted string

text \<open>What a handler takes from outside: the environments of its calls, the clock and a
  fresh UUID for a new job.\<close>

record henv =
  heBackend :: "nat \<Rightarrow> env"
  heNow :: time
  heUUID :: string

definition writeError :: "int \<Rightarrow> string \<Rightarrow> response" where
  "writeError status msg = Resp status (JError msg)"

section \<open>The handlers\<close>

definition handleEnqueue ::
    "'s backend \<Rightarrow> henv \<Rightarrow> enqueueRequest option \<Rightarrow> 's \<Rightarrow> response \<times> 's" where
  "handleEnqueue B he rq s =
     (case rq of
        None \<Rightarrow> (writeError 400 ''invalid JSON body'', s)
      | Some req \<Rightarrow>
          (let job = NewJob (heUUID he) (heNow he) (rqType req) (rqQueue req) (rqPayload req);
               job = (case rqPriority req of None \<Rightarrow> job | Some p \<Rightarrow> job\<lparr>jPriority := p\<rparr>);
               job = (case rqMaxAttempts req of None \<Rightarrow> job | Some m \<Rightarrow> job\<lparr>jMaxAttempts := m\<rparr>);
               job = (case rqScheduledAt req of None \<Rightarrow> job | Some t \<Rightarrow> job\<lparr>jScheduledAt := t\<rparr>)
           in case Validate job of
                Some x \<Rightarrow> (writeError 422 (err_msg x), s)
              | None \<Rightarrow>
                  (case beEnqueue B (heBackend he 0) job s of
                     (Panic p, s1) \<Rightarrow> (Aborted p, s1)
                   | (Err x, s1) \<Rightarrow> (writeError 500 ''failed to enqueue job'', s1)
                   | (Ret u, s1) \<Rightarrow> (Resp 201 (JJob job), s1))))"

text \<open>The job a request asks for.\<close>

definition requested_job :: "henv \<Rightarrow> enqueueRequest \<Rightarrow> job" where
  "requested_job he req =
     (NewJob (heUUID he) (heNow he) (rqType req) (rqQueue req) (rqPayload req))
       \<lparr>jPriority := (case rqPriority req of None \<Rightarrow> PriorityNormal | Some p \<Rightarrow> p),
        jMaxAttempts := (case rqMaxAttempts req of None \<Rightarrow> 3 | Some m \<Rightarrow> m),
        jScheduledAt := (case rqScheduledAt req of None \<Rightarrow> heNow he | Some t \<Rightarrow> t)\<rparr>"

lemma requested_fields [simp]:
  "jID (requested_job he req) = heUUID he" "jStatus (requested_job he req) = StatusPending"
  "jAttempts (requested_job he req) = 0" "jType (requested_job he req) = rqType req"
  "jQueue (requested_job he req) = rqQueue req" "jPayload (requested_job he req) = rqPayload req"
  by (simp_all add: requested_job_def NewJob_def)

lemma handleEnqueue_requested:
  "handleEnqueue B he (Some req) s =
     (case Validate (requested_job he req) of
        Some x \<Rightarrow> (writeError 422 (err_msg x), s)
      | None \<Rightarrow>
          (case beEnqueue B (heBackend he 0) (requested_job he req) s of
             (Panic p, s1) \<Rightarrow> (Aborted p, s1)
           | (Err x, s1) \<Rightarrow> (writeError 500 ''failed to enqueue job'', s1)
           | (Ret u, s1) \<Rightarrow> (Resp 201 (JJob (requested_job he req)), s1)))"
proof -
  have "(let job = NewJob (heUUID he) (heNow he) (rqType req) (rqQueue req) (rqPayload req);
             job = (case rqPriority req of None \<Rightarrow> job | Some p \<Rightarrow> job\<lparr>jPriority := p\<rparr>);
             job = (case rqMaxAttempts req of None \<Rightarrow> job | Some m \<Rightarrow> job\<lparr>jMaxAttempts := m\<rparr>)
         in case rqScheduledAt req of None \<Rightarrow> job | Some t \<Rightarrow> job\<lparr>jScheduledAt := t\<rparr>)
      = requested_job he req"
    by (cases "rqPriority req"; cases "rqMaxAttempts req"; cases "rqScheduledAt req")
      (simp_all add: requested_job_def NewJob_def)
  from this [unfolded Let_def] show ?thesis
    unfolding handleEnqueue_def option.case Let_def by (simp only:)
qed

definition handleGetJob :: "'s backend \<Rightarrow> henv \<Rightarrow> string \<Rightarrow> 's \<Rightarrow> response \<times> 's" where
  "handleGetJob B he i s =
     (case beGetJob B (heBackend he 0) i s of
        (Panic p, s1) \<Rightarrow> (Aborted p, s1)
      | (Err x, s1) \<Rightarrow>
          (if contains_str (err_msg x) ''not found'' then (writeError 404 ''job not found'', s1)
           else (writeError 500 ''failed to get job'', s1))
      | (Ret job, s1) \<Rightarrow> (Resp 200 (JJob job), s1))"

definition handleRetryJob :: "'s backend \<Rightarrow> henv \<Rightarrow> string \<Rightarrow> 's \<Rightarrow> response \<times> 's" where
  "handleRetryJob B he i s =
     (case beGetJob B (heBackend he 0) i s of
        (Panic p, s1) \<Rightarrow> (Aborted p, s1)
      | (Err x, s1) \<Rightarrow>
          (if contains_str (err_msg x) ''not found'' then (writeError 404 ''job not found'', s1)
           else (writeError 500 ''failed to get job'', s1))
      | (Ret job, s1) \<Rightarrow>
          (case beDeleteJob B (heBackend he 1) (jID job) s1 of
             (Panic p, s2) \<Rightarrow> (Aborted p, s2)
           | (Err x, s2) \<Rightarrow> (writeError 500 ''failed to retry job'', s2)
           | (Ret u, s2) \<Rightarrow>
               (let retried = (NewJob (heUUID he) (heNow he) (jType job) (jQueue job) (jPayload job))
                      \<lparr>jPriority := jPriority job, jMaxAttempts := jMaxAttempts job\<rparr>
                in case beEnqueue B (heBackend he 2) retried s2 of
                     (Panic p, s3) \<Rightarrow> (Aborted p, s3)
                   | (Err x, s3) \<Rightarrow> (writeError 500 ''failed to retry job'', s3)
                   | (Ret u', s3) \<Rightarrow> (Resp 200 (JJob retried), s3))))"

definition handleCancelJob :: "'s backend \<Rightarrow> henv \<Rightarrow> string \<Rightarrow> 's \<Rightarrow> response \<times> 's" where
  "handleCancelJob B he i s =
     (case beGetJob B (heBackend he 0) i s of
        (Panic p, s1) \<Rightarrow> (Aborted p, s1)
      | (Err x, s1) \<Rightarrow>
          (if contains_str (err_msg x) ''not found'' then (writeError 404 ''job not found'', s1)
           else (writeError 500 ''failed to get job'', s1))
      | (Ret job, s1) \<Rightarrow>
          (if jStatus job \<noteq> StatusPending
           then (writeError 409 ''only pending jobs can be canceled'', s1)
           else
             (case beDeleteJob B (heBackend he 1) i s1 of
                (Panic p, s2) \<Rightarrow> (Aborted p, s2)
              | (Err x, s2) \<Rightarrow> (writeError 500 ''failed to cancel job'', s2)
              | (Ret u, s2) \<Rightarrow> (Resp 200 (JStatus ''canceled''), s2))))"

definition handleDeleteJob :: "'s backend \<Rightarrow> henv \<Rightarrow> string \<Rightarrow> 's \<Rightarrow> response \<times> 's" where
  "handleDeleteJob B he i s =
     (case beDeleteJob B (heBackend he 0) i s of
        (Panic p, s1) \<Rightarrow> (Aborted p, s1)
      | (Err x, s1) \<Rightarrow>
          (if contains_str (err_msg x) ''not found'' then (writeError 404 ''job not found'', s1)
           else (writeError 500 ''failed to delete job'', s1))
      | (Ret u, s1) \<Rightarrow> (Resp 204 NoBody, s1))"

definition handleListQueues :: "'s backend \<Rightarrow> henv \<Rightarrow> 's \<Rightarrow> response \<times> 's" where
  "handleListQueues B he s =
     (case beListQueues B (heBackend he 0) s of
        (Panic p, s1) \<Rightarrow> (Aborted p, s1)
      | (Err x, s1) \<Rightarrow> (writeError 500 ''failed to list queues'', s1)
      | (Ret queues, s1) \<Rightarrow> (Resp 200 (JQueues queues), s1))"

text \<open>The query of a listing: a parameter that is absent is the empty string.\<close>

definition query_limit :: "string \<Rightarrow> int" where
  "query_limit v =
     (if v = '''' then 50
      else case parse_int v of None \<Rightarrow> 50 | Some parsed \<Rightarrow> if 0 < parsed then parsed else 50)"

definition query_offset :: "string \<Rightarrow> int" where
  "query_offset v =
     (if v = '''' then 0
      else case parse_int v of None \<Rightarrow> 0 | Some parsed \<Rightarrow> if 0 \<le> parsed then parsed else 0)"

definition handleListJobs ::
    "'s backend \<Rightarrow> henv \<Rightarrow> string \<Rightarrow> (string \<Rightarrow> string) \<Rightarrow> 's \<Rightarrow> response \<times> 's" where
  "handleListJobs B he name query s =
     (let status = query ''status'';
          limit = query_limit (query ''limit'');
          offset = query_offset (query ''offset'')
      in case beListJobs B (heBackend he 0) name status limit offset s of
           (Panic p, s1) \<Rightarrow> (Aborted p, s1)
         | (Err x, s1) \<Rightarrow> (writeError 500 ''failed to list jobs'', s1)
         | (Ret jobs, s1) \<Rightarrow> (Resp 200 (JJobs (case jobs of None \<Rightarrow> [] | Some js \<Rightarrow> js)), s1))"

section \<open>Routes and authentication\<close>

datatype route =
    PostJobs "enqueueRequest option"
  | GetJobs string
  | PostRetry string
  | PostCancel string
  | DeleteJobs string
  | GetQueues
  | GetQueueJobs string "string \<Rightarrow> string"

fun dispatch :: "'s backend \<Rightarrow> henv \<Rightarrow> route \<Rightarrow> 's \<Rightarrow> response \<times> 's" where
  "dispatch B he (PostJobs rq) s = handleEnqueue B he rq s"
| "dispatch B he (GetJobs i) s = handleGetJob B he i s"
| "dispatch B he (PostRetry i) s = handleRetryJob B he i s"
| "dispatch B he (PostCancel i) s = handleCancelJob B he i s"
| "dispatch B he (DeleteJobs i) s = handleDeleteJob B he i s"
| "dispatch B he GetQueues s = handleListQueues B he s"
| "dispatch B he (GetQueueJobs name query) s = handleListJobs B he name query s"

text \<open>\<open>auth\<close> is the Authorization header, empty when it is absent.\<close>

definition apiKeyAuth ::
    "string \<Rightarrow> string \<Rightarrow> ('s \<Rightarrow> response \<times> 's) \<Rightarrow> 's \<Rightarrow> response \<times> 's" where
  "apiKeyAuth apiKey auth next s =
     (if apiKey = '''' then next s
      else if auth = '''' then (writeError 401 ''missing Authorization header'', s)
      else
        (let token = trim_prefix auth ''Bearer ''
         in if token = auth \<or> token \<noteq> apiKey then (writeError 401 ''invalid API key'', s)
            else next s))"

record 's server =
  srvBackend :: "'s backend"
  srvApiKey :: string

definition NewServer :: "'s backend \<Rightarrow> string \<Rightarrow> 's server" where
  "NewServer b apiKey = \<lparr>srvBackend = b, srvApiKey = apiKey\<rparr>"

definition serve :: "'s server \<Rightarrow> henv \<Rightarrow> string \<Rightarrow> route \<Rightarrow> 's \<Rightarrow> response \<times> 's" where
  "serve srv he auth r = apiKeyAuth (srvApiKey srv) auth (dispatch (srvBackend srv) he r)"

section \<open>Authentication\<close>

lemma serve_auth:
  "serve srv he auth r s =
     (if srvApiKey srv = '''' \<or> auth = ''Bearer '' @ srvApiKey srv then dispatch (srvBackend srv) he r s
      else (writeError 401 (if auth = '''' then ''missing Authorization header'' else ''invalid API key''), s))"
proof (cases "has_prefix auth ''Bearer ''")
  case True
  then obtain t where "auth = ''Bearer '' @ t" by (auto simp: has_prefix_iff)
  moreover have "trim_prefix (''Bearer '' @ t) ''Bearer '' = t" by (simp add: trim_prefix_def)
  moreover have "t \<noteq> ''Bearer '' @ t" by simp
  ultimately show ?thesis by (auto simp: serve_def apiKeyAuth_def Let_def)
next
  case False
  then have "trim_prefix auth ''Bearer '' = auth" by (simp add: trim_prefix_def)
  moreover have "auth \<noteq> ''Bearer '' @ srvApiKey srv" using False has_prefix_append by metis
  ultimately show ?thesis by (simp add: serve_def apiKeyAuth_def)
qed

text \<open>C32. A request to the API reaches its handler exactly when no key is configured or its
  Authorization header is the word Bearer, one space and the configured key; any other
  request is answered with 401 and touches nothing.\<close>

theorem api_auth_exact:
  "serve srv he auth r s =
     (if srvApiKey srv = '''' \<or> auth = ''Bearer '' @ srvApiKey srv then dispatch (srvBackend srv) he r s
      else (writeError 401 (if auth = '''' then ''missing Authorization header'' else ''invalid API key''), s))"
  by (rule serve_auth)

section \<open>The handlers over a store that keeps the contract\<close>

lemma not_found_text: "contains_str (err_msg (notFoundError i)) ''not found''"
proof -
  have "err_msg (notFoundError i) = ''job '' @ ''not found'' @ '': '' @ i" by (simp add: notFoundError_def)
  then show ?thesis unfolding contains_str_iff by blast
qed

text \<open>The job a retry puts in place of an old one.\<close>

definition retried_job :: "henv \<Rightarrow> job \<Rightarrow> job" where
  "retried_job he job =
     (NewJob (heUUID he) (heNow he) (jType job) (jQueue job) (jPayload job))
       \<lparr>jPriority := jPriority job, jMaxAttempts := jMaxAttempts job\<rparr>"

lemma retried_fields [simp]: "jID (retried_job he job) = heUUID he" "jStatus (retried_job he job) = StatusPending"
  "jAttempts (retried_job he job) = 0"
  by (simp_all add: retried_job_def NewJob_def)

lemma retried_valid:
  "jType j \<noteq> '''' \<Longrightarrow> jQueue j \<noteq> '''' \<Longrightarrow> jPayload j \<noteq> '''' \<Longrightarrow> 1 \<le> jMaxAttempts j \<Longrightarrow>
   Validate (retried_job he j) = None"
  by (simp add: Validate_None_iff retried_job_def NewJob_def)

context job_store
begin

lemma missing_not_found:
  assumes "inv s" and "\<And>n. calm (heBackend he n)" and "view s i = None"
  shows "handleGetJob B he i s = (writeError 404 ''job not found'', s)"
    and "handleRetryJob B he i s = (writeError 404 ''job not found'', s)"
    and "handleCancelJob B he i s = (writeError 404 ''job not found'', s)"
    and "handleDeleteJob B he i s = (writeError 404 ''job not found'', s)"
  using get_missing [OF assms(1) assms(2) [of 0] assms(3)]
    delete_missing [OF assms(1) assms(2) [of 0] assms(3)] not_found_text [of i]
  by (simp_all add: handleGetJob_def handleRetryJob_def handleCancelJob_def handleDeleteJob_def)

lemma cancel_outcome:
  assumes "inv s" and "\<And>n. calm (heBackend he n)" and "view s i = Some j" and "readable s i"
  shows "\<exists>s'. handleCancelJob B he i s =
      (if jStatus j = StatusPending then Resp 200 (JStatus ''canceled'')
       else writeError 409 ''only pending jobs can be canceled'', s') \<and> inv s' \<and>
    view s' = (if jStatus j = StatusPending then (view s)(i := None) else view s)"
proof (cases "jStatus j = StatusPending")
  case True
  obtain s' where "beDeleteJob B (heBackend he 1) i s = (Ret (), s')" "inv s'" "view s' = (view s)(i := None)"
    using delete_law [OF assms(1) assms(2) assms(3)] by blast
  with True get_law [OF assms(1) assms(2) [of 0] assms(3,4)] show ?thesis
    by (simp add: handleCancelJob_def)
next
  case False
  with get_law [OF assms(1) assms(2) [of 0] assms(3,4)] assms(1) show ?thesis
    by (simp add: handleCancelJob_def)
qed

lemma retry_outcome:
  assumes "inv s" and "\<And>n. calm (heBackend he n)" and "view s i = Some j" and "readable s i"
    and "Validate (retried_job he j) = None" and "view s (heUUID he) = None"
    and "\<And>s. storable s (retried_job he j)"
  shows "\<exists>s'. handleRetryJob B he i s = (Resp 200 (JJob (retried_job he j)), s') \<and> inv s' \<and>
    view s' = (view s)(i := None, heUUID he \<mapsto> norm (retried_job he j))"
proof -
  have id: "jID j = i" by (rule view_id [OF assms(1,3)])
  obtain s1 where 1: "beDeleteJob B (heBackend he 1) i s = (Ret (), s1)" "inv s1" "view s1 = (view s)(i := None)"
    using delete_law [OF assms(1) assms(2) assms(3)] by blast
  have none: "view s1 (jID (retried_job he j)) = None" using assms(6) 1(3) by simp
  obtain s2 where 2: "beEnqueue B (heBackend he 2) (retried_job he j) s1 = (Ret (), s2)" "inv s2"
    "view s2 = (view s1)(heUUID he \<mapsto> norm (retried_job he j))"
    using enqueue_law [OF 1(2) assms(2) assms(5) none assms(7)] by auto
  with id 1 get_law [OF assms(1) assms(2) [of 0] assms(3,4)] show ?thesis
    by (simp add: handleRetryJob_def retried_job_def)
qed

end

end
