(* ===== verification/System.thy ===== *)
theory System
  imports WorkerContract HttpApi
begin

text \<open>
  Several workers and API clients over one store, as a step relation. A step is one call of
  the backend, by one of them, in any order; a cancellation is the one step of two calls
  (the handler's GetJob and its DeleteJob), taken here with no other call in between. From its
  reservation to its Ack or Nack a worker holds a job. A worker may also lose the job it
  holds, when its process dies or its last call fails.
\<close>

record 's system =
  sysStore :: 's
  sysHeld :: "nat \<Rightarrow> job option"

inductive sys_step ::
    "'s backend \<Rightarrow> ('s \<Rightarrow> string \<Rightarrow> job option) \<Rightarrow> ('s \<Rightarrow> job \<Rightarrow> bool) \<Rightarrow> 's system \<Rightarrow> 's system \<Rightarrow> bool"
  for B V ok where
  reserve: "sysHeld x w = None \<Longrightarrow> calm e \<Longrightarrow> beReserve B e q (sysStore x) = (Ret (Some j), s') \<Longrightarrow>
    sys_step B V ok x \<lparr>sysStore = s', sysHeld = (sysHeld x)(w := Some j)\<rparr>"
| reserve_none: "sysHeld x w = None \<Longrightarrow> calm e \<Longrightarrow> beReserve B e q (sysStore x) = (r, s') \<Longrightarrow>
    r = Ret None \<or> r = Err err \<Longrightarrow> sys_step B V ok x (x\<lparr>sysStore := s'\<rparr>)"
| ack: "sysHeld x w = Some j \<Longrightarrow> calm e \<Longrightarrow> beAck B e (jID j) (sysStore x) = (r, s') \<Longrightarrow>
    sys_step B V ok x \<lparr>sysStore = s', sysHeld = (sysHeld x)(w := None)\<rparr>"
| nack: "sysHeld x w = Some j \<Longrightarrow> calm e \<Longrightarrow> int64_ok d \<Longrightarrow>
    beNack B e (jID j) err d (sysStore x) = (r, s') \<Longrightarrow>
    sys_step B V ok x \<lparr>sysStore = s', sysHeld = (sysHeld x)(w := None)\<rparr>"
| lose: "sysHeld x w = Some j \<Longrightarrow> sys_step B V ok x (x\<lparr>sysHeld := (sysHeld x)(w := None)\<rparr>)"
| enqueue: "calm e \<Longrightarrow> Validate j = None \<Longrightarrow> jStatus j = StatusPending \<Longrightarrow> jAttempts j = 0 \<Longrightarrow>
    jMaxAttempts j < 2 ^ 31 \<Longrightarrow> V (sysStore x) (jID j) = None \<Longrightarrow> ok (sysStore x) j \<Longrightarrow>
    beEnqueue B e j (sysStore x) = (r, s') \<Longrightarrow> sys_step B V ok x (x\<lparr>sysStore := s'\<rparr>)"
| cancel: "\<forall>n. calm (heBackend he n) \<Longrightarrow> V (sysStore x) i = Some j \<Longrightarrow>
    beGetJob B (heBackend he 0) i (sysStore x) = (Ret j, sysStore x) \<Longrightarrow>
    handleCancelJob B he i (sysStore x) = (rsp, s') \<Longrightarrow> sys_step B V ok x (x\<lparr>sysStore := s'\<rparr>)"

text \<open>What every reachable state satisfies: a held job runs in the store, no two workers hold
  the same one, and no job is tried more often than it may.\<close>

definition sys_ok :: "('s \<Rightarrow> bool) \<Rightarrow> ('s \<Rightarrow> string \<Rightarrow> job option) \<Rightarrow> 's system \<Rightarrow> bool" where
  "sys_ok Inv V x \<longleftrightarrow> Inv (sysStore x) \<and>
     (\<forall>w j. sysHeld x w = Some j \<longrightarrow>
        (\<exists>j0. V (sysStore x) (jID j) = Some j0 \<and> jStatus j0 = StatusRunning)) \<and>
     (\<forall>w w' j j'. w \<noteq> w' \<longrightarrow> sysHeld x w = Some j \<longrightarrow> sysHeld x w' = Some j' \<longrightarrow> jID j \<noteq> jID j') \<and>
     (\<forall>i j. V (sysStore x) i = Some j \<longrightarrow> attempts_sane j)"

lemma sys_okD:
  assumes "sys_ok Inv V x"
  shows "Inv (sysStore x)"
    and "sysHeld x w = Some j \<Longrightarrow> \<exists>j0. V (sysStore x) (jID j) = Some j0 \<and> jStatus j0 = StatusRunning"
    and "w \<noteq> w' \<Longrightarrow> sysHeld x w = Some j \<Longrightarrow> sysHeld x w' = Some j' \<Longrightarrow> jID j \<noteq> jID j'"
    and "V (sysStore x) i = Some j0 \<Longrightarrow> attempts_sane j0"
  using assms unfolding sys_ok_def by blast+

text \<open>The three ways in which a step changes the store and the held jobs.\<close>

lemma sys_ok_same:
  assumes "sys_ok Inv V x" "Inv s'" "V s' = V (sysStore x)"
  shows "sys_ok Inv V (x\<lparr>sysStore := s'\<rparr>)"
  using assms unfolding sys_ok_def by simp

lemma sys_ok_release:
  assumes x: "sys_ok Inv V x" and h: "sysHeld x w = Some j" and "Inv s'"
    and v: "V s' = (V (sysStore x))(jID j \<mapsto> k)" and k: "attempts_sane k"
  shows "sys_ok Inv V \<lparr>sysStore = s', sysHeld = (sysHeld x)(w := None)\<rparr>"
proof -
  have "jID j' \<noteq> jID j" if "w' \<noteq> w" "sysHeld x w' = Some j'" for w' j'
    using sys_okD(3) [OF x that(1) that(2) h] .
  then have held: "V s' (jID j') = V (sysStore x) (jID j')" if "w' \<noteq> w" "sysHeld x w' = Some j'" for w' j'
    using that v by simp
  have "attempts_sane j'" if "V s' i = Some j'" for i j'
    using that k sys_okD(4) [OF x, of i j'] unfolding v by (cases "i = jID j") auto
  then show ?thesis
    using sys_okD(2,3) [OF x] assms(3) held unfolding sys_ok_def by auto
qed

lemma sys_ok_change:
  assumes x: "sys_ok Inv V x" and "Inv s'" and v: "V s' = (V (sysStore x))(i := k)"
    and free: "\<And>j0. V (sysStore x) i = Some j0 \<Longrightarrow> jStatus j0 \<noteq> StatusRunning"
    and k: "\<And>j. k = Some j \<Longrightarrow> attempts_sane j"
  shows "sys_ok Inv V (x\<lparr>sysStore := s'\<rparr>)"
proof -
  have "jID j \<noteq> i" if "sysHeld x w = Some j" for w j
    using sys_okD(2) [OF x that] free by auto
  then have held: "V s' (jID j) = V (sysStore x) (jID j)" if "sysHeld x w = Some j" for w j
    using that v by auto
  have "attempts_sane j" if "V s' i' = Some j" for i' j
    using that k sys_okD(4) [OF x, of i' j] unfolding v by (cases "i' = i") auto
  then show ?thesis
    using sys_okD(2,3) [OF x] assms(2) held unfolding sys_ok_def by simp
qed

lemma running_sane:
  "attempts_sane j \<Longrightarrow> jStatus j = StatusPending \<Longrightarrow> attempts_sane (j\<lparr>jStatus := StatusRunning, jUpdatedAt := t\<rparr>)"
  by (simp add: attempts_sane_def status_defs)

lemma running_nacked_sane: "attempts_sane j \<Longrightarrow> jStatus j = StatusRunning \<Longrightarrow> attempts_sane (nacked f t e d j)"
  by (auto simp: attempts_sane_def nacked_status status_defs)

lemma running_counters_ok: "attempts_sane j \<Longrightarrow> jStatus j = StatusRunning \<Longrightarrow> counters_ok j"
  by (auto simp: attempts_sane_def counters_ok_def)

context job_store
begin

lemma sys_reserve:
  assumes x: "sys_ok inv view x" and w: "sysHeld x w = None" and e: "calm e"
    and r: "beReserve B e q (sysStore x) = (Ret (Some j), s')"
  shows "sys_ok inv view \<lparr>sysStore = s', sysHeld = (sysHeld x)(w := Some j)\<rparr>"
proof -
  have inv': "inv s'" and "reserve_outcome (clk e 0) q (view (sysStore x)) (Ret (Some j)) (view s')"
    using reserve_law [OF sys_okD(1) [OF x] e, of q] r by auto
  then obtain j0 t where j0: "view (sysStore x) (jID j) = Some j0" "jStatus j0 = StatusPending"
    and v: "view s' = (view (sysStore x))(jID j \<mapsto> j0\<lparr>jStatus := StatusRunning, jUpdatedAt := t\<rparr>)"
    by (auto simp: reserve_outcome_def)
  have other: "jID j' \<noteq> jID j" if "sysHeld x w' = Some j'" for w' j'
    using sys_okD(2) [OF x that] j0 by (auto simp: status_defs)
  have held: "view s' (jID j') = view (sysStore x) (jID j')" if "sysHeld x w' = Some j'" for w' j'
    using other [OF that] v by simp
  have runs: "\<exists>j1. view s' (jID j') = Some j1 \<and> jStatus j1 = StatusRunning"
    if "((sysHeld x)(w := Some j)) w' = Some j'" for w' j'
    using that held sys_okD(2) [OF x, of w' j'] v by (cases "w' = w") auto
  have apart: "jID j1 \<noteq> jID j2" if "w1 \<noteq> w2" "((sysHeld x)(w := Some j)) w1 = Some j1"
    "((sysHeld x)(w := Some j)) w2 = Some j2" for w1 w2 j1 j2
    using that other sys_okD(3) [OF x that(1), of j1 j2] by (cases "w1 = w"; cases "w2 = w") force+
  have sane: "attempts_sane j1" if "view s' i = Some j1" for i j1
    using that sys_okD(4) [OF x, of i j1] running_sane [OF sys_okD(4) [OF x j0(1)] j0(2)]
    unfolding v by (cases "i = jID j") auto
  show ?thesis
    unfolding sys_ok_def using inv' runs apart sane by simp
qed

lemma sys_step_ok:
  assumes "sys_step B view storable x y" and x: "sys_ok inv view x"
  shows "sys_ok inv view y"
  using assms(1)
proof cases
  case (reserve w e q j s')
  then show ?thesis using sys_reserve [OF x] by simp
next
  case (reserve_none w e q r s' err)
  have "inv s'" "reserve_outcome (clk e 0) q (view (sysStore x)) r (view s')"
    using reserve_law [OF sys_okD(1) [OF x] reserve_none(3), of q] reserve_none(4) by auto
  moreover from this(2) reserve_none(5) have "view s' = view (sysStore x)"
    by (auto simp: reserve_outcome_def)
  ultimately show ?thesis using sys_ok_same [OF x] reserve_none(1) by simp
next
  case (ack w j e r s')
  obtain j0 where j0: "view (sysStore x) (jID j) = Some j0" using sys_okD(2) [OF x ack(2)] by blast
  have "inv s' \<and> view s' = (view (sysStore x))(jID j \<mapsto> acked stamp (clk e 0) j0)"
    using ack_law [OF sys_okD(1) [OF x] ack(3) j0] ack(4) by auto
  with ack show ?thesis
    using sys_ok_release [OF x ack(2)] acked_sane [OF sys_okD(4) [OF x j0]] by blast
next
  case (nack w j e d err r s')
  obtain j0 where j0: "view (sysStore x) (jID j) = Some j0" "jStatus j0 = StatusRunning"
    using sys_okD(2) [OF x nack(2)] by blast
  have sane: "attempts_sane j0" by (rule sys_okD(4) [OF x j0(1)])
  have "inv s' \<and> view s' = (view (sysStore x))(jID j \<mapsto> nacked stamp (clk e 0) err d j0)"
    using nack_law [OF sys_okD(1) [OF x] nack(3) j0(1) running_counters_ok [OF sane j0(2)] nack(4), of err]
      nack(5) by auto
  with nack(1) show ?thesis
    using sys_ok_release [OF x nack(2)] running_nacked_sane [OF sane j0(2)] by blast
next
  case (lose w j)
  then show ?thesis using sys_okD [OF x] unfolding sys_ok_def by auto
next
  case (enqueue e j r s')
  have "inv s' \<and> view s' = (view (sysStore x))(jID j \<mapsto> norm j)"
    using enqueue_law [OF sys_okD(1) [OF x] enqueue(2,3,7,8)] enqueue(9) by auto
  moreover have "attempts_sane (norm j)"
    using enqueue(3-6) norm_fields [of j] by (simp add: attempts_sane_def Validate_None_iff status_defs)
  ultimately show ?thesis using sys_ok_change [OF x, of s' "jID j" "Some (norm j)"] enqueue(1,7)
    by simp
next
  case (cancel he i j rsp s')
  then have calm: "calm (heBackend he n)" for n by simp
  show ?thesis
  proof (cases "jStatus j = StatusPending")
    case True
    obtain s1 where d: "beDeleteJob B (heBackend he 1) i (sysStore x) = (Ret (), s1)" "inv s1"
      "view s1 = (view (sysStore x))(i := None)"
      using delete_law [OF sys_okD(1) [OF x] calm cancel(3)] by blast
    then have "s' = s1" using cancel(4,5) True by (simp add: handleCancelJob_def)
    then show ?thesis
      using sys_ok_change [OF x d(2), of i None] d(3) cancel(1,3) True by (simp add: status_defs)
  next
    case False
    then have "s' = sysStore x" using cancel(4,5) by (simp add: handleCancelJob_def)
    then show ?thesis using x cancel(1) by simp
  qed
qed

lemma sys_reach_ok:
  assumes "rtranclp (sys_step B view storable) x y" and "sys_ok inv view x"
  shows "sys_ok inv view y"
  using assms by induction (auto intro: sys_step_ok norm_fields)

text \<open>A running job that no worker holds: no step touches it.\<close>

lemma sys_step_abandoned:
  assumes step: "sys_step B view storable x y" and x: "sys_ok inv view x"
    and j: "view (sysStore x) i = Some j" "jStatus j = StatusRunning"
    and free: "\<forall>w k. sysHeld x w = Some k \<longrightarrow> jID k \<noteq> i"
  shows "view (sysStore y) i = Some j \<and> (\<forall>w k. sysHeld y w = Some k \<longrightarrow> jID k \<noteq> i)"
  using step
proof cases
  case (reserve w e q k s')
  obtain k0 t where k0: "view (sysStore x) (jID k) = Some k0" "jStatus k0 = StatusPending"
    and v: "view s' = (view (sysStore x))(jID k \<mapsto> k0\<lparr>jStatus := StatusRunning, jUpdatedAt := t\<rparr>)"
    using reserve_law [OF sys_okD(1) [OF x] reserve(3), of q] reserve(4) by (auto simp: reserve_outcome_def)
  then have "jID k \<noteq> i" using j by (auto simp: status_defs)
  with reserve(1) v j free show ?thesis by simp
next
  case (reserve_none w e q r s' err)
  have "reserve_outcome (clk e 0) q (view (sysStore x)) r (view s')"
    using reserve_law [OF sys_okD(1) [OF x] reserve_none(3), of q] reserve_none(4) by auto
  then have "view s' = view (sysStore x)" using reserve_none(5) by (auto simp: reserve_outcome_def)
  with reserve_none(1) j free show ?thesis by simp
next
  case (ack w k e r s')
  have k: "jID k \<noteq> i" using free ack(2) by blast
  obtain k0 where "view (sysStore x) (jID k) = Some k0" using sys_okD(2) [OF x ack(2)] by blast
  from ack_law [OF sys_okD(1) [OF x] ack(3) this] ack(4)
  have "view s' i = view (sysStore x) i" using k by auto
  with ack(1) j free show ?thesis by simp
next
  case (nack w k e d err r s')
  have k: "jID k \<noteq> i" using free nack(2) by blast
  obtain k0 where k0: "view (sysStore x) (jID k) = Some k0" "jStatus k0 = StatusRunning"
    using sys_okD(2) [OF x nack(2)] by blast
  note c = running_counters_ok [OF sys_okD(4) [OF x k0(1)] k0(2)]
  from nack_law [OF sys_okD(1) [OF x] nack(3) k0(1) c nack(4), of err] nack(5)
  have "view s' i = view (sysStore x) i" using k by auto
  with nack(1) j free show ?thesis by simp
next
  case (lose w k)
  then show ?thesis using j free by simp
next
  case (enqueue e k r s')
  have "jID k \<noteq> i" using enqueue(7) j(1) by auto
  moreover have "view s' = (view (sysStore x))(jID k \<mapsto> norm k)"
    using enqueue_law [OF sys_okD(1) [OF x] enqueue(2,3,7,8)] enqueue(9) by auto
  ultimately show ?thesis using enqueue(1) j free by simp
next
  case (cancel he i' k rsp s')
  then have calm: "calm (heBackend he n)" for n by simp
  show ?thesis
  proof (cases "jStatus k = StatusPending")
    case True
    have "i' \<noteq> i" using cancel(3) j True by (auto simp: status_defs)
    obtain s1 where d: "beDeleteJob B (heBackend he 1) i' (sysStore x) = (Ret (), s1)"
      "view s1 = (view (sysStore x))(i' := None)"
      using delete_law [OF sys_okD(1) [OF x] calm cancel(3)] by blast
    then have "s' = s1" using cancel(4,5) True by (simp add: handleCancelJob_def)
    then show ?thesis using d(2) \<open>i' \<noteq> i\<close> cancel(1) j free by simp
  next
    case False
    then have "s' = sysStore x" using cancel(4,5) by (simp add: handleCancelJob_def)
    then show ?thesis using cancel(1) j free by simp
  qed
qed

lemma sys_reach_abandoned:
  assumes "rtranclp (sys_step B view storable) x y" and "sys_ok inv view x"
    and "view (sysStore x) i = Some j" "jStatus j = StatusRunning"
    and "\<forall>w k. sysHeld x w = Some k \<longrightarrow> jID k \<noteq> i"
  shows "view (sysStore y) i = Some j \<and> (\<forall>w k. sysHeld y w = Some k \<longrightarrow> jID k \<noteq> i)"
  using assms(1)
proof induction
  case base
  then show ?case using assms(3,5) by simp
next
  case (step y z)
  from step(3) have "view (sysStore y) i = Some j" "\<forall>w k. sysHeld y w = Some k \<longrightarrow> jID k \<noteq> i" by blast+
  with sys_step_abandoned [OF step(2) sys_reach_ok [OF step(1) assms(2)] _ assms(4)] show ?case by blast
qed

end

end
