(* ===== verification/PoolRun.thy ===== *)
theory PoolRun
  imports System
begin

text \<open>
  The goroutines of a started pool (internal/worker/pool.go) and the clients of the API on one
  store. Every worker is between two jobs or runs one; the two halves of \<open>processNext\<close>, up to
  the change to running and from the call of the handler on, are separate steps, so that the
  steps of the workers interleave. Run one after the other the halves are \<open>processNext\<close>, and
  every interleaving is a run of \<open>sys_step\<close>.
\<close>

section \<open>The two halves of a tick\<close>

record 's pool_run =
  prStore :: 's
  prWorkers :: "worker list"
  prJobs :: "nat \<Rightarrow> job option"

text \<open>\<open>processNext\<close> up to the first line of \<open>execute\<close>.\<close>

definition begin_tick :: "'s backend \<Rightarrow> wenv \<Rightarrow> nat \<Rightarrow> 's pool_run \<Rightarrow> 's pool_run" where
  "begin_tick B we i x =
     (let w = prWorkers x ! i in
      case beReserve B (weReserve we) (wQueueName w) (prStore x) of
        (Ret (Some j), s1) \<Rightarrow>
          \<lparr>prStore = s1, prWorkers = (prWorkers x)[i := setState WStatusRunning (jID j) (weNow we 0) w],
           prJobs = (prJobs x)(i := Some j)\<rparr>
      | (r, s1) \<Rightarrow> x\<lparr>prStore := s1\<rparr>)"

text \<open>The rest of \<open>execute\<close>, when the worker has a job.\<close>

definition end_tick :: "'s backend \<Rightarrow> 's registry \<Rightarrow> wenv \<Rightarrow> nat \<Rightarrow> 's pool_run \<Rightarrow> 's pool_run" where
  "end_tick B reg we i x =
     (case prJobs x i of
        None \<Rightarrow> x
      | Some j \<Rightarrow>
          (let w = prWorkers x ! i in
           case run_handler B reg (wBackoff w) we j (prStore x) of
             (r, s1) \<Rightarrow>
               \<lparr>prStore = s1, prWorkers = (prWorkers x)[i := setState WStatusIdle '''' (weNow we 1) w],
                prJobs = (prJobs x)(i := None)\<rparr>))"

lemma halves_are_tick:
  assumes "i < length (prWorkers x)" and "prJobs x i = None"
    and "processNext B reg we (prWorkers x ! i) (prStore x) = (r, w', s')"
  shows "end_tick B reg we i (begin_tick B we i x) =
    \<lparr>prStore = s', prWorkers = (prWorkers x)[i := w'], prJobs = prJobs x\<rparr>"
proof -
  let ?w = "prWorkers x ! i"
  obtain r1 s1 where r1: "beReserve B (weReserve we) (wQueueName ?w) (prStore x) = (r1, s1)"
    by (cases rule: prod.exhaust)
  show ?thesis
  proof (cases "\<exists>j. r1 = Ret (Some j)")
    case True
    then obtain j where j: "r1 = Ret (Some j)" by blast
    obtain r2 s2 where h: "run_handler B reg (wBackoff ?w) we j s1 = (r2, s2)" by (cases rule: prod.exhaust)
    have "w' = setState WStatusIdle '''' (weNow we 1) (setState WStatusRunning (jID j) (weNow we 0) ?w)" "s' = s2"
      using assms(3) r1 j h by (auto simp: processNext_def execute_def Let_def)
    then show ?thesis
      using assms(1,2) r1 j h by (simp add: begin_tick_def end_tick_def fun_upd_idem)
  next
    case False
    then have "w' = ?w" "s' = s1" "begin_tick B we i x = x\<lparr>prStore := s1\<rparr>"
      using assms(3) r1 by (auto simp: processNext_def begin_tick_def split: res.splits option.splits if_splits)
    then show ?thesis using assms(2) by (simp add: end_tick_def)
  qed
qed

section \<open>The interleaving\<close>

text \<open>
  A worker without a job begins a tick, a worker with one ends it, a client enqueues or
  cancels. The calls meet a calm environment, a new job has a fresh id and is one the store
  takes, and a cancellation is one step, as in \<open>sys_step\<close>.
\<close>

inductive pool_step ::
    "'s backend \<Rightarrow> ('s \<Rightarrow> string \<Rightarrow> job option) \<Rightarrow> ('s \<Rightarrow> job \<Rightarrow> bool) \<Rightarrow> 's registry \<Rightarrow>
     's pool_run \<Rightarrow> 's pool_run \<Rightarrow> bool"
  for B V ok reg where
  begins: "i < length (prWorkers x) \<Longrightarrow> prJobs x i = None \<Longrightarrow> calm_tick we \<Longrightarrow>
    pool_step B V ok reg x (begin_tick B we i x)"
| ends: "i < length (prWorkers x) \<Longrightarrow> prJobs x i = Some j \<Longrightarrow> calm_tick we \<Longrightarrow>
    backoff_ok (wBackoff (prWorkers x ! i)) \<Longrightarrow> pool_step B V ok reg x (end_tick B reg we i x)"
| enqueues: "\<forall>n. calm (heBackend he n) \<Longrightarrow> V (prStore x) (heUUID he) = None \<Longrightarrow>
    ok (prStore x) (requested_job he req) \<Longrightarrow> jMaxAttempts (requested_job he req) < 2 ^ 31 \<Longrightarrow>
    handleEnqueue B he (Some req) (prStore x) = (rsp, s') \<Longrightarrow>
    pool_step B V ok reg x (x\<lparr>prStore := s'\<rparr>)"
| cancels: "\<forall>n. calm (heBackend he n) \<Longrightarrow> V (prStore x) i = Some j \<Longrightarrow>
    beGetJob B (heBackend he 0) i (prStore x) = (Ret j, prStore x) \<Longrightarrow>
    handleCancelJob B he i (prStore x) = (rsp, s') \<Longrightarrow> pool_step B V ok reg x (x\<lparr>prStore := s'\<rparr>)"

inductive_cases pool_stepE: "pool_step B V ok reg x y"

text \<open>What the abstract system sees of a pool.\<close>

definition pool_abs :: "'s pool_run \<Rightarrow> 's system" where
  "pool_abs x = \<lparr>sysStore = prStore x, sysHeld = prJobs x\<rparr>"

text \<open>What a worker shows agrees with what it does.\<close>

definition shows_job :: "worker \<Rightarrow> job option \<Rightarrow> bool" where
  "shows_job w h \<longleftrightarrow> (case h of
     None \<Rightarrow> wsStatus (State w) = WStatusIdle \<and> wsLastJobID (State w) = ''''
   | Some j \<Rightarrow> wsStatus (State w) = WStatusRunning \<and> wsLastJobID (State w) = jID j)"

definition pool_shown :: "'s pool_run \<Rightarrow> bool" where
  "pool_shown x \<longleftrightarrow> (\<forall>i < length (prWorkers x). shows_job (prWorkers x ! i) (prJobs x i)) \<and>
     (\<forall>i. length (prWorkers x) \<le> i \<longrightarrow> prJobs x i = None)"

lemma shows_setState [simp]:
  "shows_job (setState WStatusRunning (jID j) t w) (Some j)" "shows_job (setState WStatusIdle '''' t w) None"
  by (simp_all add: shows_job_def State_def)

lemma begin_tick_shown: "pool_shown x \<Longrightarrow> i < length (prWorkers x) \<Longrightarrow> pool_shown (begin_tick B we i x)"
  by (auto simp: begin_tick_def pool_shown_def Let_def nth_list_update split: prod.split res.split option.split)

lemma end_tick_shown: "pool_shown x \<Longrightarrow> i < length (prWorkers x) \<Longrightarrow> pool_shown (end_tick B reg we i x)"
  by (auto simp: end_tick_def pool_shown_def Let_def nth_list_update split: prod.split option.split)

lemma pool_step_shown: "pool_step B V ok reg x y \<Longrightarrow> pool_shown x \<Longrightarrow> pool_shown y"
  by (erule pool_stepE) (auto simp: begin_tick_shown end_tick_shown, auto simp: pool_shown_def)

lemma pool_step_length: "pool_step B V ok reg x y \<Longrightarrow> length (prWorkers y) = length (prWorkers x)"
  by (erule pool_stepE)
    (auto simp: begin_tick_def end_tick_def Let_def split: prod.split res.split option.split)

section \<open>Refinement of the abstract system\<close>

text \<open>With handlers that leave the store alone, the second half is an Ack or a Nack.\<close>

lemma run_handler_call:
  assumes "pure_registry reg oc" and "backoff_ok b" and "run_handler B reg b we j s = (r, s')"
  obtains (ack) r' where "beAck B (weSettle we) (jID j) s = (r', s')"
    | (nack) r' err d where "int64_ok d" "beNack B (weSettle we) (jID j) err d s = (r', s')"
proof -
  have snd_wrap: "snd (wrap_err p x) = snd x" for p and x :: "unit res \<times> 's"
    by (cases "(p, x)" rule: wrap_err.cases) auto
  show thesis
  proof (cases "Get (jType j) reg")
    case None
    then have "s' = snd (beNack B (weSettle we) (jID j) (Some (ErrNoHandler (jType j))) 0 s)"
      using arg_cong [OF assms(3), of snd] by (simp add: run_handler_def snd_wrap)
    then show thesis
      using nack [of 0 "Some (ErrNoHandler (jType j))"] by (simp add: int64_ok_def) (metis prod.collapse)
  next
    case (Some h)
    then obtain f where h: "pure_handler h f" using pure_registry_Some [OF assms(1)] by blast
    show thesis
    proof (cases "f j")
      case None
      then have "s' = snd (beAck B (weSettle we) (jID j) s)"
        using arg_cong [OF assms(3), of snd] Some h by (simp add: run_handler_def pure_handler_def snd_wrap)
      then show thesis using ack by (metis prod.collapse)
    next
      case (Some x)
      let ?d = "b (wrap64 (jAttempts j + 1))"
      have "s' = snd (beNack B (weSettle we) (jID j) (Some x) ?d s)"
        using arg_cong [OF assms(3), of snd] \<open>Get (jType j) reg = Some h\<close> Some h
        by (simp add: run_handler_def pure_handler_def snd_wrap Let_def)
      moreover have "int64_ok ?d" using assms(2) by (simp add: backoff_ok_def)
      ultimately show thesis using nack [of ?d "Some x"] by (metis prod.collapse)
    qed
  qed
qed

lemma end_tick_sys:
  assumes "prJobs x i = Some j" "calm_tick we" "pure_registry reg oc" "backoff_ok (wBackoff (prWorkers x ! i))"
  shows "sys_step B V ok (pool_abs x) (pool_abs (end_tick B reg we i x))"
proof -
  have e: "calm (weSettle we)" using assms(2) by (simp add: calm_tick_def)
  obtain r s' where h: "run_handler B reg (wBackoff (prWorkers x ! i)) we j (prStore x) = (r, s')"
    by (cases rule: prod.exhaust)
  have y: "pool_abs (end_tick B reg we i x) = \<lparr>sysStore = s', sysHeld = (sysHeld (pool_abs x))(i := None)\<rparr>"
    using assms(1) h by (simp add: end_tick_def pool_abs_def)
  have held: "sysHeld (pool_abs x) i = Some j" and st: "sysStore (pool_abs x) = prStore x"
    using assms(1) by (simp_all add: pool_abs_def)
  show ?thesis
    unfolding y
  proof (cases rule: run_handler_call [OF assms(3,4) h])
    case (1 r')
    show "sys_step B V ok (pool_abs x) \<lparr>sysStore = s', sysHeld = (sysHeld (pool_abs x))(i := None)\<rparr>"
      by (rule sys_step.ack [OF held e]) (use 1 st in simp)
  next
    case (2 d err r')
    show "sys_step B V ok (pool_abs x) \<lparr>sysStore = s', sysHeld = (sysHeld (pool_abs x))(i := None)\<rparr>"
      by (rule sys_step.nack [OF held e 2(1)]) (use 2(2) st in simp)
  qed
qed

context job_store
begin

lemma begin_tick_sys:
  assumes "inv (prStore x)" "prJobs x i = None" "calm_tick we"
  shows "sys_step B view storable (pool_abs x) (pool_abs (begin_tick B we i x))"
proof -
  let ?q = "wQueueName (prWorkers x ! i)"
  have e: "calm (weReserve we)" using assms(3) by (simp add: calm_tick_def)
  obtain r s1 where r: "beReserve B (weReserve we) ?q (prStore x) = (r, s1)"
    and out: "reserve_outcome (clk (weReserve we) 0) ?q (view (prStore x)) r (view s1)"
    using reserve_law [OF assms(1) e] by blast
  have held: "sysHeld (pool_abs x) i = None" and r': "beReserve B (weReserve we) ?q (sysStore (pool_abs x)) = (r, s1)"
    using assms(2) r by (simp_all add: pool_abs_def)
  consider j where "r = Ret (Some j)" | "r = Ret None" | err where "r = Err err"
    using out by (cases r) (auto simp: reserve_outcome_def split: option.splits)
  then show ?thesis
  proof cases
    case (1 j)
    have "pool_abs (begin_tick B we i x) = \<lparr>sysStore = s1, sysHeld = (sysHeld (pool_abs x))(i := Some j)\<rparr>"
      using r 1 by (simp add: begin_tick_def pool_abs_def)
    then show ?thesis using sys_step.reserve [OF held e] r' 1 by metis
  next
    case 2
    have "pool_abs (begin_tick B we i x) = (pool_abs x)\<lparr>sysStore := s1\<rparr>"
      using r 2 by (simp add: begin_tick_def pool_abs_def)
    then show ?thesis using sys_step.reserve_none [OF held e r', of undefined] 2 by simp
  next
    case (3 err)
    have "pool_abs (begin_tick B we i x) = (pool_abs x)\<lparr>sysStore := s1\<rparr>"
      using r 3 by (simp add: begin_tick_def pool_abs_def)
    then show ?thesis using sys_step.reserve_none [OF held e r', of err] 3 by simp
  qed
qed

lemma pool_step_sys:
  assumes "pool_step B view storable reg x y" and "pure_registry reg oc" and "inv (prStore x)"
  shows "pool_abs y = pool_abs x \<or> sys_step B view storable (pool_abs x) (pool_abs y)"
  using assms(1)
proof cases
  case (begins i we)
  then show ?thesis using begin_tick_sys [OF assms(3)] by simp
next
  case (ends i j we)
  then show ?thesis using end_tick_sys [OF _ _ assms(2)] by simp
next
  case (enqueues he req rsp s')
  have y: "pool_abs y = (pool_abs x)\<lparr>sysStore := s'\<rparr>" using enqueues(1) by (simp add: pool_abs_def)
  show ?thesis
  proof (cases "Validate (requested_job he req)")
    case (Some v)
    then have "s' = prStore x" using enqueues(6) by (simp add: handleEnqueue_requested)
    then show ?thesis using enqueues(1) by simp
  next
    case None
    obtain r1 where "beEnqueue B (heBackend he 0) (requested_job he req) (prStore x) = (r1, s')"
      using enqueues(6) None by (auto simp: handleEnqueue_requested split: prod.splits res.splits)
    then have "sys_step B view storable (pool_abs x) ((pool_abs x)\<lparr>sysStore := s'\<rparr>)"
      using enqueues(2-5) None by (intro sys_step.enqueue [where j = "requested_job he req"]) (simp_all add: pool_abs_def)
    then show ?thesis using y by simp
  qed
next
  case (cancels he i j rsp s')
  have "sys_step B view storable (pool_abs x) ((pool_abs x)\<lparr>sysStore := s'\<rparr>)"
    by (rule sys_step.cancel [of he view _ i j B rsp]) (use cancels in \<open>simp_all add: pool_abs_def\<close>)
  then show ?thesis using cancels(1) by (simp add: pool_abs_def)
qed

text \<open>Whatever the interleaving.\<close>

lemma pool_reach_ok:
  assumes "rtranclp (pool_step B view storable reg) x y" and "pure_registry reg oc"
    and "sys_ok inv view (pool_abs x)" and "pool_shown x"
  shows "sys_ok inv view (pool_abs y) \<and> pool_shown y \<and> length (prWorkers y) = length (prWorkers x)"
  using assms(1)
proof induction
  case base
  then show ?case using assms(3,4) by simp
next
  case (step y z)
  then have "inv (prStore y)" using sys_okD(1) by (fastforce simp: pool_abs_def)
  from pool_step_sys [OF step(2) assms(2) this] step show ?case
    using sys_step_ok pool_step_shown pool_step_length by metis
qed

end

end
