(* ===== verification/Postgres.thy ===== *)
theory Postgres
  imports Backend "HOL-Library.Product_Lexorder"
begin

text \<open>
  internal/backend/postgres/postgres.go and the table of
  migrations/000001_create_jobs_table.up.sql. A table is the list of its rows; every SQL
  statement of the source is a function on it, and every method runs its statements in the
  order of the source, a transaction committing a copy of the table. What the PostgreSQL
  server and the driver pgx decide is the argument \<open>E\<close> of type \<open>pg_engine\<close>: how a payload
  is stored, the precision of a timestamp, which strings a column accepts, how a text
  column is scanned into a Go string, the order in which rows are visited, and which rows
  other transactions hold locked.
\<close>

section \<open>The table and the engine\<close>

record row =
  c_id :: string
  c_type :: string
  c_queue :: string
  c_payload :: string
  c_status :: string
  c_priority :: int
  c_attempts :: int
  c_max_attempts :: int
  c_scheduled_at :: time
  c_created_at :: time
  c_updated_at :: time
  c_completed_at :: "time option"
  c_failed_at :: "time option"
  c_last_error :: "string option"

type_synonym table = "row list"

record pg_engine =
  pgJsonb :: "string \<Rightarrow> string option"
  pgTime :: "time \<Rightarrow> time"
  pgVarchar :: "nat \<Rightarrow> string \<Rightarrow> bool"
  pgScanText :: "string option \<Rightarrow> string res"
  pgVisit :: "row list \<Rightarrow> row list"
  pgCollate :: "string list \<Rightarrow> string list"
  pgLocked :: "string \<Rightarrow> bool"
  pgError :: "string \<Rightarrow> goerr"

text \<open>The check constraints of the migration.\<close>

definition chk_status :: "string \<Rightarrow> bool" where
  "chk_status st \<longleftrightarrow> st = ''pending'' \<or> st = ''running'' \<or> st = ''completed'' \<or> st = ''failed'' \<or> st = ''dead''"

definition chk_max_attempts :: "int \<Rightarrow> bool" where
  "chk_max_attempts n \<longleftrightarrow> n \<ge> 1"

definition chk_attempts :: "int \<Rightarrow> bool" where
  "chk_attempts n \<longleftrightarrow> n \<ge> 0"

section \<open>Scanning a row\<close>

text \<open>The destinations of \<open>row.Scan\<close>: every column is copied, \<open>last_error\<close> goes into a Go
  string through the driver.\<close>

definition scan_row :: "pg_engine \<Rightarrow> row \<Rightarrow> job res" where
  "scan_row E r =
     (case pgScanText E (c_last_error r) of
        Err x \<Rightarrow> Err x
      | Panic p \<Rightarrow> Panic p
      | Ret m \<Rightarrow> Ret
          \<lparr>jID = c_id r, jType = c_type r, jQueue = c_queue r, jPayload = c_payload r,
           jStatus = c_status r, jPriority = c_priority r, jAttempts = c_attempts r,
           jMaxAttempts = c_max_attempts r, jScheduledAt = c_scheduled_at r,
           jCreatedAt = c_created_at r, jUpdatedAt = c_updated_at r,
           jCompletedAt = c_completed_at r, jFailedAt = c_failed_at r, jLastError = m\<rparr>)"

section \<open>Statements\<close>

definition insert_job :: "pg_engine \<Rightarrow> job \<Rightarrow> table \<Rightarrow> unit res \<times> table" where
  "insert_job E j s =
     (case pgJsonb E (jPayload j) of
        None \<Rightarrow> (Err (pgError E ''payload''), s)
      | Some p \<Rightarrow>
          if \<not> (pgVarchar E 36 (jID j) \<and> pgVarchar E 255 (jType j) \<and>
                pgVarchar E 255 (jQueue j) \<and> pgVarchar E 50 (jStatus j))
            then (Err (pgError E ''varchar''), s)
          else if \<not> (int4_ok (jPriority j) \<and> int4_ok (jAttempts j) \<and> int4_ok (jMaxAttempts j))
            then (Err (pgError E ''integer''), s)
          else if \<not> chk_status (jStatus j) then (Err (pgError E ''chk_status''), s)
          else if \<not> chk_max_attempts (jMaxAttempts j) then (Err (pgError E ''chk_max_attempts''), s)
          else if \<not> chk_attempts (jAttempts j) then (Err (pgError E ''chk_attempts''), s)
          else if jID j \<in> c_id ` set s then (Err (pgError E ''jobs_pkey''), s)
          else (Ret (), s @
            [\<lparr>c_id = jID j, c_type = jType j, c_queue = jQueue j, c_payload = p,
              c_status = jStatus j, c_priority = jPriority j, c_attempts = jAttempts j,
              c_max_attempts = jMaxAttempts j, c_scheduled_at = pgTime E (jScheduledAt j),
              c_created_at = pgTime E (jCreatedAt j), c_updated_at = pgTime E (jUpdatedAt j),
              c_completed_at = None, c_failed_at = None, c_last_error = None\<rparr>]))"

text \<open>\<open>UPDATE jobs SET ... WHERE id = i\<close>: the number of affected rows and the table.\<close>

definition update_where :: "string \<Rightarrow> (row \<Rightarrow> row) \<Rightarrow> table \<Rightarrow> int \<times> table" where
  "update_where i f s =
     (int (length (filter (\<lambda>r. c_id r = i) s)), map (\<lambda>r. if c_id r = i then f r else r) s)"

text \<open>The candidates of a reservation: \<open>queue = q AND status = 'pending' AND scheduled_at <= t\<close>,
  without the rows that \<open>SKIP LOCKED\<close> passes over.\<close>

definition candidate :: "pg_engine \<Rightarrow> string \<Rightarrow> time \<Rightarrow> row \<Rightarrow> bool" where
  "candidate E q t r \<longleftrightarrow>
     c_queue r = q \<and> c_status r = ''pending'' \<and> c_scheduled_at r \<le> t \<and> \<not> pgLocked E (c_id r)"

definition select_next :: "pg_engine \<Rightarrow> string \<Rightarrow> time \<Rightarrow> table \<Rightarrow> row option" where
  "select_next E q t s =
     (case sort_key (\<lambda>r. (- c_priority r, c_scheduled_at r)) (filter (candidate E q t) (pgVisit E s)) of
        [] \<Rightarrow> None
      | r # _ \<Rightarrow> Some r)"

definition select_by_id :: "string \<Rightarrow> table \<Rightarrow> row option" where
  "select_by_id i s = (case filter (\<lambda>r. c_id r = i) s of [] \<Rightarrow> None | r # _ \<Rightarrow> Some r)"

text \<open>\<open>QueryRow(...).Scan(...)\<close> on the selected row.\<close>

definition query_row :: "('r \<Rightarrow> 'a res) \<Rightarrow> 'r option \<Rightarrow> 'a res" where
  "query_row scan r = (case r of None \<Rightarrow> Err ErrNoRows | Some x \<Rightarrow> scan x)"

text \<open>The end of a transaction that built \<open>s'\<close> from \<open>s\<close>: \<open>tx.Commit\<close>; every earlier return
  rolls back, that is, it returns \<open>s\<close>.\<close>

definition commit :: "fault \<Rightarrow> 'a \<Rightarrow> table \<Rightarrow> table \<Rightarrow> 'a res \<times> table" where
  "commit f v s' s =
     wrap_err ''failed to commit transaction'' (exchange f (\<lambda>_. (Ret v, s')) s)"

section \<open>The methods\<close>

definition pgEnqueue :: "pg_engine \<Rightarrow> env \<Rightarrow> job \<Rightarrow> table \<Rightarrow> unit res \<times> table" where
  "pgEnqueue E e j s =
     (case Validate j of
        Some x \<Rightarrow> (Err (ErrWrap ''invalid job'' x), s)
      | None \<Rightarrow> wrap_err ''failed to enqueue job'' (exchange (io e 0) (insert_job E j) s))"

definition pgReserve :: "pg_engine \<Rightarrow> env \<Rightarrow> string \<Rightarrow> table \<Rightarrow> job option res \<times> table" where
  "pgReserve E e queueName s =
     (case fetch (io e 0) (Ret ()) of
        Panic p \<Rightarrow> (Panic p, s)
      | Err x \<Rightarrow> (Err (ErrWrap ''failed to begin transaction'' x), s)
      | Ret _ \<Rightarrow>
         (case fetch (io e 1)
                 (query_row (scan_row E) (select_next E queueName (pgTime E (clk e 0)) s)) of
            Panic p \<Rightarrow> (Panic p, s)
          | Err x \<Rightarrow>
              if err_is x ErrNoRows then (Ret None, s)
              else (Err (ErrWrap ''failed to query job'' x), s)
          | Ret j \<Rightarrow>
             (let now = clk e 1;
                  s' = snd (update_where (jID j)
                    (\<lambda>r. r\<lparr>c_status := ''running'', c_updated_at := pgTime E now\<rparr>) s)
              in case fetch (io e 2) (Ret ()) of
                   Panic p \<Rightarrow> (Panic p, s)
                 | Err x \<Rightarrow> (Err (ErrWrap ''failed to update job status'' x), s)
                 | Ret _ \<Rightarrow>
                     commit (io e 3)
                       (Some (j\<lparr>jStatus := StatusRunning, jUpdatedAt := now\<rparr>)) s' s)))"

text \<open>\<open>Exec\<close> of an update outside a transaction, and the check of \<open>RowsAffected\<close> after it.\<close>

definition exec_one :: "string \<Rightarrow> fault \<Rightarrow> string \<Rightarrow> (table \<Rightarrow> int \<times> table) \<Rightarrow> table \<Rightarrow> unit res \<times> table" where
  "exec_one what f jobID stmt s =
     bindS (\<lambda>s. wrap_err what (exchange f (\<lambda>s. (Ret (fst (stmt s)), snd (stmt s))) s))
       (\<lambda>affected s. if affected = 0 then (Err (notFoundError jobID), s) else (Ret (), s)) s"

definition pgAck :: "pg_engine \<Rightarrow> env \<Rightarrow> string \<Rightarrow> table \<Rightarrow> unit res \<times> table" where
  "pgAck E e jobID s =
     (let now = pgTime E (clk e 0) in
      exec_one ''failed to ack job'' (io e 0) jobID
        (update_where jobID (\<lambda>r. r\<lparr>c_status := ''completed'', c_completed_at := Some now,
                                    c_updated_at := now\<rparr>)) s)"

text \<open>The two updates of \<open>Nack\<close>: the value of \<open>attempts\<close> must fit the INTEGER column.\<close>

definition nack_dead :: "pg_engine \<Rightarrow> int \<Rightarrow> string \<Rightarrow> time \<Rightarrow> string \<Rightarrow> table \<Rightarrow> table res" where
  "nack_dead E attempts lastError now jobID s =
     (if \<not> int4_ok attempts then Err (pgError E ''integer'')
      else Ret (snd (update_where jobID
        (\<lambda>r. r\<lparr>c_status := ''dead'', c_attempts := attempts, c_last_error := Some lastError,
               c_failed_at := Some (pgTime E now), c_updated_at := pgTime E now\<rparr>) s)))"

definition nack_retry :: "pg_engine \<Rightarrow> int \<Rightarrow> string \<Rightarrow> time \<Rightarrow> time \<Rightarrow> string \<Rightarrow> table \<Rightarrow> table res" where
  "nack_retry E attempts lastError now retryAt jobID s =
     (if \<not> int4_ok attempts then Err (pgError E ''integer'')
      else Ret (snd (update_where jobID
        (\<lambda>r. r\<lparr>c_status := ''pending'', c_attempts := attempts, c_last_error := Some lastError,
               c_failed_at := Some (pgTime E now), c_updated_at := pgTime E now,
               c_scheduled_at := pgTime E retryAt\<rparr>) s)))"

definition pgNack :: "pg_engine \<Rightarrow> env \<Rightarrow> string \<Rightarrow> goerr option \<Rightarrow> int \<Rightarrow> table \<Rightarrow> unit res \<times> table" where
  "pgNack E e jobID jobErr retryDelay s =
     (case fetch (io e 0) (Ret ()) of
        Panic p \<Rightarrow> (Panic p, s)
      | Err x \<Rightarrow> (Err (ErrWrap ''failed to begin transaction'' x), s)
      | Ret _ \<Rightarrow>
         (case fetch (io e 1)
                 (query_row (\<lambda>r. Ret (c_attempts r, c_max_attempts r)) (select_by_id jobID s)) of
            Panic p \<Rightarrow> (Panic p, s)
          | Err x \<Rightarrow>
              if err_is x ErrNoRows then (Err (notFoundError jobID), s)
              else (Err (ErrWrap ''failed to query job'' x), s)
          | Ret (a, maxAttempts) \<Rightarrow>
             (let attempts = wrap64 (a + 1);
                  now = clk e 0;
                  lastError = (case jobErr of None \<Rightarrow> '''' | Some x \<Rightarrow> err_msg x)
              in case fetch (io e 2)
                        (if attempts \<ge> maxAttempts then nack_dead E attempts lastError now jobID s
                         else nack_retry E attempts lastError now (time_add now retryDelay) jobID s) of
                   Panic p \<Rightarrow> (Panic p, s)
                 | Err x \<Rightarrow> (Err (ErrWrap ''failed to nack job'' x), s)
                 | Ret s' \<Rightarrow> commit (io e 3) () s' s)))"

definition pgMoveToDLQ :: "pg_engine \<Rightarrow> env \<Rightarrow> string \<Rightarrow> table \<Rightarrow> unit res \<times> table" where
  "pgMoveToDLQ E e jobID s =
     (let now = pgTime E (clk e 0) in
      exec_one ''failed to move job to DLQ'' (io e 0) jobID
        (update_where jobID (\<lambda>r. r\<lparr>c_status := ''dead'', c_updated_at := now\<rparr>)) s)"

definition pgDeleteJob :: "env \<Rightarrow> string \<Rightarrow> table \<Rightarrow> unit res \<times> table" where
  "pgDeleteJob e jobID s =
     exec_one ''failed to delete job'' (io e 0) jobID
       (\<lambda>s. (int (length (filter (\<lambda>r. c_id r = jobID) s)), filter (\<lambda>r. c_id r \<noteq> jobID) s)) s"

definition pgGetJob :: "pg_engine \<Rightarrow> env \<Rightarrow> string \<Rightarrow> table \<Rightarrow> job res \<times> table" where
  "pgGetJob E e jobID s =
     (case fetch (io e 0) (query_row (scan_row E) (select_by_id jobID s)) of
        Panic p \<Rightarrow> (Panic p, s)
      | Err x \<Rightarrow>
          if err_is x ErrNoRows then (Err (notFoundError jobID), s)
          else (Err (ErrWrap ''failed to get job'' x), s)
      | Ret j \<Rightarrow> (Ret j, s))"

text \<open>The loop over \<open>rows.Next()\<close>: the first row that does not scan ends it.\<close>

fun scan_rows :: "('r \<Rightarrow> 'a res) \<Rightarrow> string \<Rightarrow> 'r list \<Rightarrow> 'a list res" where
  "scan_rows scan what [] = Ret []"
| "scan_rows scan what (r # rs) =
     (case scan r of
        Panic p \<Rightarrow> Panic p
      | Err x \<Rightarrow> Err (ErrWrap what x)
      | Ret a \<Rightarrow>
          (case scan_rows scan what rs of
             Panic p \<Rightarrow> Panic p
           | Err x \<Rightarrow> Err x
           | Ret as \<Rightarrow> Ret (a # as)))"

text \<open>A slice built with \<open>append\<close> from a nil slice: nil if nothing was appended.\<close>

definition slice_of :: "'a list \<Rightarrow> 'a list option" where
  "slice_of xs = (if xs = [] then None else Some xs)"

text \<open>\<open>pool.Query\<close>, the loop over its rows, and \<open>rows.Err()\<close>.\<close>

definition query_rows ::
    "env \<Rightarrow> string \<Rightarrow> string \<Rightarrow> string \<Rightarrow> ('r \<Rightarrow> 'a res) \<Rightarrow> 'r list \<Rightarrow> 'a list option res" where
  "query_rows e failed scanFailed iterFailed scan rs =
     (case fetch (io e 0) (Ret rs) of
        Panic p \<Rightarrow> Panic p
      | Err x \<Rightarrow> Err (ErrWrap failed x)
      | Ret rs \<Rightarrow>
          (case scan_rows scan scanFailed rs of
             Panic p \<Rightarrow> Panic p
           | Err x \<Rightarrow> Err x
           | Ret as \<Rightarrow>
               (case fetch (io e 1) (Ret ()) of
                  Panic p \<Rightarrow> Panic p
                | Err x \<Rightarrow> Err (ErrWrap iterFailed x)
                | Ret _ \<Rightarrow> Ret (slice_of as))))"

definition count_status :: "string \<Rightarrow> string \<Rightarrow> table \<Rightarrow> int" where
  "count_status q st s = int (length (filter (\<lambda>r. c_queue r = q \<and> c_status r = st) s))"

text \<open>\<open>SELECT queue, COUNT(*) FILTER ... GROUP BY queue ORDER BY queue\<close>.\<close>

definition select_stats :: "pg_engine \<Rightarrow> table \<Rightarrow> queue_stats list" where
  "select_stats E s =
     map (\<lambda>q. \<lparr>qName = q, qSize = count_status q ''pending'' s,
               qProcessingCount = count_status q ''running'' s,
               qCompletedCount = count_status q ''completed'' s,
               qFailedCount = count_status q ''failed'' s,
               qDeadCount = count_status q ''dead'' s\<rparr>)
       (pgCollate E (remdups (map c_queue s)))"

definition pgListQueues :: "pg_engine \<Rightarrow> env \<Rightarrow> table \<Rightarrow> queue_stats list option res \<times> table" where
  "pgListQueues E e s =
     (query_rows e ''failed to list queues'' ''failed to scan queue'' ''error iterating queues''
        Ret (select_stats E s), s)"

text \<open>The query of \<open>ListJobs\<close>, whose clauses depend on the arguments.\<close>

definition select_jobs :: "pg_engine \<Rightarrow> string \<Rightarrow> string \<Rightarrow> int \<Rightarrow> int \<Rightarrow> table \<Rightarrow> row list" where
  "select_jobs E queueName status limit offset s =
     (let rs = pgVisit E s;
          rs = (if queueName \<noteq> '''' then filter (\<lambda>r. c_queue r = queueName) rs else rs);
          rs = (if status \<noteq> '''' then filter (\<lambda>r. c_status r = status) rs else rs);
          rs = sort_key (\<lambda>r. - c_created_at r) rs;
          rs = (if offset > 0 then drop (nat offset) rs else rs)
      in if limit > 0 then take (nat limit) rs else rs)"

definition pgListJobs ::
    "pg_engine \<Rightarrow> env \<Rightarrow> string \<Rightarrow> string \<Rightarrow> int \<Rightarrow> int \<Rightarrow> table \<Rightarrow> job list option res \<times> table" where
  "pgListJobs E e queueName status limit offset s =
     (query_rows e ''failed to list jobs'' ''failed to scan job'' ''error iterating jobs''
        (scan_row E) (select_jobs E queueName status limit offset s), s)"

text \<open>The backend as a value of the interface.\<close>

definition PostgresBackend :: "pg_engine \<Rightarrow> table backend" where
  "PostgresBackend E =
     \<lparr>beEnqueue = pgEnqueue E, beReserve = pgReserve E, beAck = pgAck E, beNack = pgNack E,
      beMoveToDLQ = pgMoveToDLQ E, beListQueues = pgListQueues E, beListJobs = pgListJobs E,
      beGetJob = pgGetJob E, beDeleteJob = pgDeleteJob\<rparr>"

end
