(* ===== verification/PostgresTable.thy ===== *)
theory PostgresTable
  imports Postgres
begin

text \<open>
  The table invariant (primary key, check constraints, INTEGER columns), kept by every
  method of the PostgreSQL backend in every environment, and the transactional behaviour:
  a method that reports an error leaves the table as it was, unless the reply of an exchange
  that did take effect was lost.
\<close>

section \<open>The invariant\<close>

definition row_ok :: "row \<Rightarrow> bool" where
  "row_ok r \<longleftrightarrow> chk_status (c_status r) \<and> chk_max_attempts (c_max_attempts r) \<and>
     chk_attempts (c_attempts r) \<and> int4_ok (c_priority r) \<and> int4_ok (c_attempts r) \<and>
     int4_ok (c_max_attempts r)"

definition table_ok :: "table \<Rightarrow> bool" where
  "table_ok s \<longleftrightarrow> distinct (map c_id s) \<and> (\<forall>r \<in> set s. row_ok r)"

lemma insert_job_ok: "table_ok s \<Longrightarrow> table_ok (snd (insert_job E j s))"
  by (auto simp: insert_job_def table_ok_def row_ok_def split: option.splits)

text \<open>An update that keeps ids and check constraints keeps the invariant.\<close>

lemma update_where_ok:
  assumes "table_ok s" and "\<And>r. c_id (f r) = c_id r"
    and "\<And>r. r \<in> set s \<Longrightarrow> row_ok r \<Longrightarrow> row_ok (f r)"
  shows "table_ok (snd (update_where i f s))"
proof -
  have "map c_id (snd (update_where i f s)) = map c_id s"
    unfolding update_where_def snd_conv by (rule map_id_update_keys) (rule assms(2))
  with assms(1) have "distinct (map c_id (snd (update_where i f s)))"
    by (simp add: table_ok_def del: map_map)
  moreover have "\<forall>r \<in> set (snd (update_where i f s)). row_ok r"
    using assms(1,3) by (auto simp: table_ok_def update_where_def)
  ultimately show ?thesis by (simp add: table_ok_def)
qed

lemma delete_ok: "table_ok s \<Longrightarrow> table_ok (filter P s)"
  by (auto simp: table_ok_def distinct_map_filter)

lemma exchange_snd_cases: "snd (exchange f m s) = s \<or> snd (exchange f m s) = snd (m s)"
  by (cases f) auto

lemma wrap_err_snd [simp]: "snd (wrap_err p x) = snd x"
  by (cases "(p, x)" rule: wrap_err.cases) auto

lemma exec_one_snd: "snd (exec_one w f i stmt s) = s \<or> snd (exec_one w f i stmt s) = snd (stmt s)"
  by (cases f) (auto simp: exec_one_def)

lemma commit_snd: "snd (commit f v s' s) = s \<or> snd (commit f v s' s) = s'"
  by (cases f) (auto simp: commit_def)

section \<open>Every method keeps it\<close>

lemma pgEnqueue_ok: "table_ok s \<Longrightarrow> table_ok (snd (pgEnqueue E e j s))"
  using exchange_snd_cases [of "io e 0" "insert_job E j" s] insert_job_ok [of s E j]
  by (auto simp: pgEnqueue_def split: option.split)

lemma exec_one_ok:
  assumes "table_ok s" and "table_ok (snd (stmt s))"
  shows "table_ok (snd (exec_one w f i stmt s))"
  using exec_one_snd [of w f i stmt s] assms by auto

lemma commit_ok: "table_ok s \<Longrightarrow> table_ok s' \<Longrightarrow> table_ok (snd (commit f v s' s))"
  using commit_snd [of f v s' s] by auto

lemma pgAck_ok: "table_ok s \<Longrightarrow> table_ok (snd (pgAck E e i s))"
  unfolding pgAck_def Let_def
  by (intro exec_one_ok update_where_ok) (auto simp: row_ok_def chk_status_def)

lemma pgMoveToDLQ_ok: "table_ok s \<Longrightarrow> table_ok (snd (pgMoveToDLQ E e i s))"
  unfolding pgMoveToDLQ_def Let_def
  by (intro exec_one_ok update_where_ok) (auto simp: row_ok_def chk_status_def)

lemma pgDeleteJob_ok: "table_ok s \<Longrightarrow> table_ok (snd (pgDeleteJob e i s))"
  unfolding pgDeleteJob_def by (intro exec_one_ok) (auto intro: delete_ok)

lemma pgReserve_ok: "table_ok s \<Longrightarrow> table_ok (snd (pgReserve E e q s))"
  unfolding pgReserve_def Let_def
  by (auto split: res.split intro!: commit_ok update_where_ok simp: row_ok_def chk_status_def)

lemma select_by_id_in:
  assumes "select_by_id i s = Some r"
  shows "r \<in> set s" and "c_id r = i"
proof -
  from assms obtain rs where "filter (\<lambda>r. c_id r = i) s = r # rs"
    by (auto simp: select_by_id_def split: list.splits)
  then have "r \<in> set (filter (\<lambda>r. c_id r = i) s)" by simp
  then show "r \<in> set s" and "c_id r = i" by simp_all
qed

lemma nack_dead_ok:
  "table_ok s \<Longrightarrow> 0 \<le> a \<Longrightarrow> nack_dead E a m t i s = Ret s' \<Longrightarrow> table_ok s'"
  by (auto simp: nack_dead_def row_ok_def chk_status_def chk_attempts_def
      split: if_splits intro!: update_where_ok)

lemma nack_retry_ok:
  "table_ok s \<Longrightarrow> 0 \<le> a \<Longrightarrow> nack_retry E a m t u i s = Ret s' \<Longrightarrow> table_ok s'"
  by (auto simp: nack_retry_def row_ok_def chk_status_def chk_attempts_def
      split: if_splits intro!: update_where_ok)

text \<open>What a call of \<open>Nack\<close> can leave behind.\<close>

lemma pgNack_snd:
  "snd (pgNack E e i err d s) = s \<or>
   (\<exists>r s'. select_by_id i s = Some r \<and> snd (pgNack E e i err d s) = s' \<and>
      (let a = wrap64 (c_attempts r + 1); m = err_text err; now = clk e 0
       in nack_dead E a m now i s = Ret s' \<or>
          nack_retry E a m now (time_add now d) i s = Ret s'))"
  (is "?same \<or> ?changed")
proof (cases "\<exists>r s'. io e 0 = Up \<and> io e 1 = Up \<and> io e 2 = Up \<and> select_by_id i s = Some r \<and>
    (if wrap64 (c_attempts r + 1) \<ge> c_max_attempts r
     then nack_dead E (wrap64 (c_attempts r + 1)) (err_text err) (clk e 0) i s
     else nack_retry E (wrap64 (c_attempts r + 1)) (err_text err) (clk e 0)
       (time_add (clk e 0) d) i s) = Ret s'")
  case True
  then obtain r s' where h: "io e 0 = Up" "io e 1 = Up" "io e 2 = Up" "select_by_id i s = Some r"
    and n: "(if wrap64 (c_attempts r + 1) \<ge> c_max_attempts r
     then nack_dead E (wrap64 (c_attempts r + 1)) (err_text err) (clk e 0) i s
     else nack_retry E (wrap64 (c_attempts r + 1)) (err_text err) (clk e 0)
       (time_add (clk e 0) d) i s) = Ret s'" by blast
  have "pgNack E e i err d s = commit (io e 3) () s' s"
    using h n by (auto simp: pgNack_def query_row_def err_text_def Let_def split: if_splits)
  with commit_snd [of "io e 3" "()" s' s] h(4) n show ?thesis
    by (auto simp: Let_def split: if_splits)
next
  case False
  then have ?same
    by (auto simp: pgNack_def query_row_def err_text_def Let_def fetch_Ret_iff
        split: res.split option.splits)
  then show ?thesis ..
qed

lemma pgNack_ok:
  assumes ok: "table_ok s"
  shows "table_ok (snd (pgNack E e i err d s))"
  using pgNack_snd [of E e i err d s]
proof
  assume "snd (pgNack E e i err d s) = s"
  with ok show ?thesis by simp
next
  assume "\<exists>r s'. select_by_id i s = Some r \<and> snd (pgNack E e i err d s) = s' \<and>
    (let a = wrap64 (c_attempts r + 1); m = err_text err; now = clk e 0
     in nack_dead E a m now i s = Ret s' \<or> nack_retry E a m now (time_add now d) i s = Ret s')"
  then obtain r s' where r: "select_by_id i s = Some r"
    and s': "snd (pgNack E e i err d s) = s'"
    and n: "nack_dead E (wrap64 (c_attempts r + 1)) (err_text err) (clk e 0) i s = Ret s' \<or>
      nack_retry E (wrap64 (c_attempts r + 1)) (err_text err) (clk e 0) (time_add (clk e 0) d) i s = Ret s'"
    by (auto simp: Let_def)
  from ok select_by_id_in(1) [OF r] have "0 \<le> c_attempts r" "c_attempts r < 2 ^ 31"
    by (auto simp: table_ok_def row_ok_def chk_attempts_def int4_ok_def)
  moreover from this have "wrap64 (c_attempts r + 1) = c_attempts r + 1"
    by (intro wrap64_id) (simp add: int64_ok_def)
  ultimately have "0 \<le> wrap64 (c_attempts r + 1)" by simp
  with n ok s' show ?thesis by (auto intro: nack_dead_ok nack_retry_ok)
qed

section \<open>Methods that only read\<close>

lemma pg_reads_only [simp]:
  "snd (pgGetJob E e i s) = s" "snd (pgListQueues E e s) = s" "snd (pgListJobs E e q st l off s) = s"
  by (auto simp: pgGetJob_def pgListQueues_def pgListJobs_def split: res.split)

section \<open>A failed method has no effect\<close>

definition no_lost_reply :: "env \<Rightarrow> bool" where
  "no_lost_reply e \<longleftrightarrow> (\<forall>n x. io e n \<noteq> ReplyLost x)"

lemma insert_job_err: "insert_job E j s = (Err x, s') \<Longrightarrow> s' = s"
  by (auto simp: insert_job_def split: option.splits if_splits)

lemma pgEnqueue_err:
  "no_lost_reply e \<Longrightarrow> pgEnqueue E e j s = (Err x, s') \<Longrightarrow> s' = s"
proof -
  assume nl: "no_lost_reply e" and r: "pgEnqueue E e j s = (Err x, s')"
  show ?thesis
  proof (cases "io e 0")
    case Up
    obtain r0 s0 where "insert_job E j s = (r0, s0)" by fastforce
    with r Up insert_job_err [of E j s] show ?thesis
      by (cases r0) (auto simp: pgEnqueue_def split: option.splits)
  qed (use nl r in \<open>auto simp: no_lost_reply_def pgEnqueue_def split: option.splits\<close>)
qed

lemma exec_one_err:
  assumes "no_lost_reply e" and "exec_one w (io e n) i stmt s = (Err x, s')"
    and "fst (stmt s) = 0 \<Longrightarrow> snd (stmt s) = s"
  shows "s' = s"
  using assms by (cases "io e n") (auto simp: exec_one_def no_lost_reply_def split: if_splits)

lemma update_where_none: "fst (update_where i f s) = 0 \<Longrightarrow> snd (update_where i f s) = s"
  by (auto simp: update_where_def filter_empty_conv intro: map_idI)

lemma delete_none:
  assumes "int (length (filter (\<lambda>r. c_id r = i) s)) = 0"
  shows "filter (\<lambda>r. c_id r \<noteq> i) s = s"
proof -
  from assms have "\<forall>r \<in> set s. c_id r \<noteq> i" by (simp add: filter_empty_conv)
  then show ?thesis by (intro filter_True) auto
qed

lemma commit_err: "commit (io e n) v s' s = (Err x, t) \<Longrightarrow> no_lost_reply e \<Longrightarrow> t = s"
  by (cases "io e n") (auto simp: commit_def no_lost_reply_def)

lemma pgAck_err: "no_lost_reply e \<Longrightarrow> pgAck E e i s = (Err x, s') \<Longrightarrow> s' = s"
  unfolding pgAck_def Let_def by (erule (1) exec_one_err) (rule update_where_none)

lemma pgMoveToDLQ_err: "no_lost_reply e \<Longrightarrow> pgMoveToDLQ E e i s = (Err x, s') \<Longrightarrow> s' = s"
  unfolding pgMoveToDLQ_def Let_def by (erule (1) exec_one_err) (rule update_where_none)

lemma pgDeleteJob_err: "no_lost_reply e \<Longrightarrow> pgDeleteJob e i s = (Err x, s') \<Longrightarrow> s' = s"
  unfolding pgDeleteJob_def by (erule (1) exec_one_err) (simp only: fst_conv snd_conv delete_none)

lemma pgReserve_err: "no_lost_reply e \<Longrightarrow> pgReserve E e q s = (Err x, s') \<Longrightarrow> s' = s"
  by (auto simp: pgReserve_def Let_def split: res.splits if_splits dest: commit_err)

lemma pgNack_err: "no_lost_reply e \<Longrightarrow> pgNack E e i err d s = (Err x, s') \<Longrightarrow> s' = s"
  by (auto simp: pgNack_def Let_def split: res.splits if_splits dest: commit_err)

end
