(* ===== verification/PostgresStore.thy ===== *)
theory PostgresStore
  imports PostgresTable
begin

text \<open>
  The PostgreSQL backend as a provider of the \<open>Backend\<close> contract. The locale \<open>pg_server\<close>
  states what the code relies on of the server and of the driver: rows are visited in some
  order, none lost or doubled; a timestamp keeps microseconds, rounding down; a text value
  scans into a Go string as it is; NULL does not scan into a Go string.
\<close>

section \<open>What the code relies on\<close>

locale pg_server =
  fixes E :: pg_engine
  assumes visit: "mset (pgVisit E rs) = mset rs"
    and collate: "mset (pgCollate E qs) = mset qs"
    and time_floor: "pgTime E t \<le> t"
    and time_close: "t - pgTime E t < 1000"
    and scan_some: "pgScanText E (Some m) = Ret m"
    and scan_null: "\<exists>x. pgScanText E None = Err (ErrExt x)"

text \<open>A concrete server: rows in table order, microseconds by truncation, payloads as they
  are, string lengths in bytes.\<close>

definition plainEngine :: pg_engine where
  "plainEngine =
     \<lparr>pgJsonb = Some, pgTime = (\<lambda>t. t div 1000 * 1000), pgVarchar = (\<lambda>n v. length v \<le> n),
      pgScanText = (\<lambda>v. case v of None \<Rightarrow> Err (ErrExt ''cannot scan NULL into *string'') | Some m \<Rightarrow> Ret m),
      pgVisit = (\<lambda>rs. rs), pgCollate = (\<lambda>qs. qs), pgLocked = (\<lambda>i. False), pgError = ErrExt\<rparr>"

lemma plainEngine_simps [simp]:
  "pgJsonb plainEngine v = Some v" "pgTime plainEngine t = t div 1000 * 1000"
  "pgVarchar plainEngine n v = (length v \<le> n)" "pgVisit plainEngine rs = rs"
  "pgCollate plainEngine qs = qs" "pgLocked plainEngine i = False"
  by (simp_all add: plainEngine_def)

interpretation plain_pg: pg_server plainEngine
proof
  fix t :: time
  have "t = t div 1000 * 1000 + t mod 1000" and "0 \<le> t mod 1000" and "t mod 1000 < 1000"
    by simp_all
  then show "pgTime plainEngine t \<le> t" and "t - pgTime plainEngine t < 1000"
    by (simp_all add: plainEngine_def)
qed (simp_all add: plainEngine_def)

section \<open>Rows by id\<close>

lemma select_by_id_None_iff: "select_by_id i s = None \<longleftrightarrow> i \<notin> c_id ` set s"
  by (auto simp: select_by_id_def filter_empty_not_in split: list.split)
    (metis filter_empty_not_in list.distinct(1) rev_image_eqI)+

lemma select_by_id_update:
  assumes "\<And>r. c_id (f r) = c_id r"
  shows "select_by_id k (snd (update_where i f s))
       = (if k = i then map_option f (select_by_id i s) else select_by_id k s)"
proof (cases "k = i")
  case True
  with assms show ?thesis
    by (simp add: select_by_id_def update_where_def filter_map_id_update split: list.split)
next
  case False
  with assms show ?thesis
    by (simp add: select_by_id_def update_where_def filter_map_other)
qed

lemma affected_zero: "fst (update_where i f s) = 0 \<longleftrightarrow> select_by_id i s = None"
  by (simp add: update_where_def select_by_id_def split: list.split)

lemma select_by_id_append:
  "select_by_id k (s @ [r]) =
     (case select_by_id k s of Some x \<Rightarrow> Some x | None \<Rightarrow> if c_id r = k then Some r else None)"
  by (auto simp: select_by_id_def split: list.split)

lemma select_by_id_delete:
  "select_by_id k (filter (\<lambda>r. c_id r \<noteq> i) s) = (if k = i then None else select_by_id k s)"
proof -
  have "filter (\<lambda>r. c_id r = k) (filter (\<lambda>r. c_id r \<noteq> i) s)
      = (if k = i then [] else filter (\<lambda>r. c_id r = k) s)"
    by (induction s) auto
  then show ?thesis by (simp add: select_by_id_def)
qed

lemma select_by_id_row:
  assumes "table_ok s" and "r \<in> set s"
  shows "select_by_id (c_id r) s = Some r"
  using assms distinct_filter_single [of c_id s r]
  by (simp add: select_by_id_def table_ok_def)

section \<open>The jobs of a table\<close>

definition job_of_row :: "row \<Rightarrow> job" where
  "job_of_row r =
     \<lparr>jID = c_id r, jType = c_type r, jQueue = c_queue r, jPayload = c_payload r,
      jStatus = c_status r, jPriority = c_priority r, jAttempts = c_attempts r,
      jMaxAttempts = c_max_attempts r, jScheduledAt = c_scheduled_at r,
      jCreatedAt = c_created_at r, jUpdatedAt = c_updated_at r,
      jCompletedAt = c_completed_at r, jFailedAt = c_failed_at r,
      jLastError = (case c_last_error r of None \<Rightarrow> '''' | Some m \<Rightarrow> m)\<rparr>"

lemma job_of_row_fields:
  "jID (job_of_row r) = c_id r" "jType (job_of_row r) = c_type r"
  "jQueue (job_of_row r) = c_queue r" "jStatus (job_of_row r) = c_status r"
  "jPriority (job_of_row r) = c_priority r" "jAttempts (job_of_row r) = c_attempts r"
  "jMaxAttempts (job_of_row r) = c_max_attempts r"
  "jScheduledAt (job_of_row r) = c_scheduled_at r"
  by (simp_all add: job_of_row_def)

definition pg_view :: "table \<Rightarrow> string \<Rightarrow> job option" where
  "pg_view s i = map_option job_of_row (select_by_id i s)"

definition pg_norm :: "pg_engine \<Rightarrow> job \<Rightarrow> job" where
  "pg_norm E j =
     j\<lparr>jPayload := (case pgJsonb E (jPayload j) of None \<Rightarrow> '''' | Some p \<Rightarrow> p),
       jScheduledAt := pgTime E (jScheduledAt j), jCreatedAt := pgTime E (jCreatedAt j),
       jUpdatedAt := pgTime E (jUpdatedAt j), jCompletedAt := None, jFailedAt := None,
       jLastError := ''''\<rparr>"

definition pg_storable :: "pg_engine \<Rightarrow> table \<Rightarrow> job \<Rightarrow> bool" where
  "pg_storable E s j \<longleftrightarrow> pgJsonb E (jPayload j) \<noteq> None \<and> pgVarchar E 36 (jID j) \<and>
     pgVarchar E 255 (jType j) \<and> pgVarchar E 255 (jQueue j) \<and> pgVarchar E 50 (jStatus j) \<and>
     int4_ok (jPriority j) \<and> int4_ok (jAttempts j) \<and> int4_ok (jMaxAttempts j) \<and>
     known_status (jStatus j) \<and> 0 \<le> jAttempts j"

text \<open>A row can be scanned when its \<open>last_error\<close> is not NULL.\<close>

definition pg_readable :: "table \<Rightarrow> string \<Rightarrow> bool" where
  "pg_readable s i \<longleftrightarrow> (\<forall>r. select_by_id i s = Some r \<longrightarrow> c_last_error r \<noteq> None)"

lemma pg_view_update:
  assumes "\<And>r. c_id (f r) = c_id r" and "select_by_id i s = Some r"
  shows "pg_view (snd (update_where i f s)) = (pg_view s)(i \<mapsto> job_of_row (f r))"
  using assms by (auto simp: pg_view_def select_by_id_update)

lemma pg_view_SomeE:
  assumes "pg_view s i = Some j"
  obtains r where "select_by_id i s = Some r" and "j = job_of_row r"
  using assms by (auto simp: pg_view_def)

lemma known_chk: "known_status st = chk_status st"
  by (auto simp: known_status_def chk_status_def status_defs)


section \<open>The methods in a calm environment\<close>

lemma exec_one_up:
  "exec_one w Up i stmt s =
     ((if fst (stmt s) = 0 then Err (notFoundError i) else Ret ()), snd (stmt s))"
  by (simp add: exec_one_def)

lemma exec_update_law:
  assumes "calm e" and "\<And>r. c_id (f r) = c_id r" and "table_ok s"
    and "\<And>r. row_ok r \<Longrightarrow> row_ok (f r)" and "\<And>r. job_of_row (f r) = g (job_of_row r)"
    and "pg_view s i = Some j"
  shows "\<exists>s'. exec_one w (io e n) i (update_where i f) s = (Ret (), s') \<and> table_ok s' \<and>
           pg_view s' = (pg_view s)(i \<mapsto> g j)"
proof -
  obtain r where r: "select_by_id i s = Some r" and j: "j = job_of_row r"
    using assms(6) by (rule pg_view_SomeE)
  let ?s' = "snd (update_where i f s)"
  have "exec_one w (io e n) i (update_where i f) s = (Ret (), ?s')"
    using assms(1) r by (simp add: calm_io exec_one_up affected_zero)
  moreover have "table_ok ?s'" using assms(2-4) by (intro update_where_ok) auto
  moreover have "pg_view ?s' = (pg_view s)(i \<mapsto> g j)"
    using assms(2,5) r j by (simp add: pg_view_update)
  ultimately show ?thesis by blast
qed

lemma exec_update_missing:
  assumes "calm e" and "pg_view s i = None"
  shows "exec_one w (io e n) i (update_where i f) s = (Err (notFoundError i), s)"
proof -
  from assms(2) have "fst (update_where i f s) = 0"
    by (simp add: affected_zero pg_view_def)
  then show ?thesis using assms(1)
    by (simp add: calm_io exec_one_up update_where_none)
qed

lemma pgAck_law:
  assumes "table_ok s" "calm e" "pg_view s i = Some j"
  shows "\<exists>s'. pgAck E e i s = (Ret (), s') \<and> table_ok s' \<and>
           pg_view s' = (pg_view s)(i \<mapsto> acked (pgTime E) (clk e 0) j)"
  unfolding pgAck_def Let_def
  by (rule exec_update_law [OF assms(2) _ assms(1) _ _ assms(3)])
     (auto simp: row_ok_def chk_status_def job_of_row_def acked_def status_defs)

lemma pgMoveToDLQ_law:
  assumes "table_ok s" "calm e" "pg_view s i = Some j"
  shows "\<exists>s'. pgMoveToDLQ E e i s = (Ret (), s') \<and> table_ok s' \<and>
           pg_view s' = (pg_view s)(i \<mapsto> buried (pgTime E) (clk e 0) j)"
  unfolding pgMoveToDLQ_def Let_def
  by (rule exec_update_law [OF assms(2) _ assms(1) _ _ assms(3)])
     (auto simp: row_ok_def chk_status_def job_of_row_def buried_def status_defs)

lemma pgMoveToDLQ_missing:
  "calm e \<Longrightarrow> pg_view s i = None \<Longrightarrow> pgMoveToDLQ E e i s = (Err (notFoundError i), s)"
  unfolding pgMoveToDLQ_def Let_def by (rule exec_update_missing)

lemma pgAck_missing:
  "calm e \<Longrightarrow> pg_view s i = None \<Longrightarrow> pgAck E e i s = (Err (notFoundError i), s)"
  unfolding pgAck_def Let_def by (rule exec_update_missing)

lemma delete_affected: "length (filter (\<lambda>r. c_id r = i) s) = 0 \<longleftrightarrow> pg_view s i = None"
  by (simp add: pg_view_def select_by_id_def split: list.split)

lemma pgDeleteJob_law:
  assumes "table_ok s" "calm e" "pg_view s i = Some j"
  shows "\<exists>s'. pgDeleteJob e i s = (Ret (), s') \<and> table_ok s' \<and> pg_view s' = (pg_view s)(i := None)"
proof -
  let ?s' = "filter (\<lambda>r. c_id r \<noteq> i) s"
  have "pgDeleteJob e i s = (Ret (), ?s')"
    using assms(2,3) delete_affected [of i s]
    by (simp add: pgDeleteJob_def calm_io exec_one_up)
  moreover have "pg_view ?s' = (pg_view s)(i := None)"
    by (auto simp: pg_view_def select_by_id_delete)
  ultimately show ?thesis using assms(1) by (auto intro: delete_ok)
qed

lemma pgDeleteJob_missing:
  assumes "calm e" "pg_view s i = None"
  shows "pgDeleteJob e i s = (Err (notFoundError i), s)"
proof -
  from assms(2) have "int (length (filter (\<lambda>r. c_id r = i) s)) = 0"
    using delete_affected [of i s] by simp
  then show ?thesis using assms(1) delete_none [of i s]
    by (simp add: pgDeleteJob_def calm_io exec_one_up)
qed

lemma insert_job_law:
  assumes "pg_storable E s j" "Validate j = None" "pg_view s (jID j) = None"
  shows "\<exists>r. insert_job E j s = (Ret (), s @ [r]) \<and> c_id r = jID j \<and>
           job_of_row r = pg_norm E j \<and> c_last_error r = None"
proof -
  from assms(1) obtain p where p: "pgJsonb E (jPayload j) = Some p" by (auto simp: pg_storable_def)
  from assms(3) have "jID j \<notin> c_id ` set s"
    by (simp add: pg_view_def select_by_id_None_iff)
  with assms(1,2) p show ?thesis
    by (auto simp: insert_job_def pg_storable_def Validate_None_iff chk_max_attempts_def
        chk_attempts_def known_chk job_of_row_def pg_norm_def)
qed

lemma pgEnqueue_law:
  assumes "table_ok s" "calm e" "Validate j = None" "pg_view s (jID j) = None" "pg_storable E s j"
  shows "\<exists>s'. pgEnqueue E e j s = (Ret (), s') \<and> table_ok s' \<and>
           pg_view s' = (pg_view s)(jID j \<mapsto> pg_norm E j)"
proof -
  obtain r where r: "insert_job E j s = (Ret (), s @ [r])" "c_id r = jID j"
    "job_of_row r = pg_norm E j"
    using insert_job_law [OF assms(5,3,4)] by blast
  then have eq: "pgEnqueue E e j s = (Ret (), s @ [r])"
    using assms(2,3) by (simp add: pgEnqueue_def calm_io)
  moreover have "table_ok (s @ [r])" using pgEnqueue_ok [OF assms(1), of E e j] eq by simp
  moreover from r assms(4) have "pg_view (s @ [r]) = (pg_view s)(jID j \<mapsto> pg_norm E j)"
    by (auto simp: pg_view_def select_by_id_append split: option.splits)
  ultimately show ?thesis by blast
qed

lemma pgNack_missing:
  assumes "calm e" "pg_view s i = None"
  shows "pgNack E e i err d s = (Err (notFoundError i), s)"
proof -
  from assms(2) have "select_by_id i s = None" by (simp add: pg_view_def)
  with assms(1) show ?thesis by (simp add: pgNack_def calm_io query_row_def)
qed

lemma pgNack_law:
  assumes "table_ok s" "calm e" "pg_view s i = Some j" "counters_ok j"
  shows "\<exists>s'. pgNack E e i err d s = (Ret (), s') \<and> table_ok s' \<and>
           pg_view s' = (pg_view s)(i \<mapsto> nacked (pgTime E) (clk e 0) err d j)"
proof -
  obtain r where r: "select_by_id i s = Some r" and j: "j = job_of_row r"
    using assms(3) by (rule pg_view_SomeE)
  have a: "wrap64 (c_attempts r + 1) = c_attempts r + 1" and a4: "int4_ok (c_attempts r + 1)"
    using assms(4) j by (simp_all add: counters_ok_def job_of_row_def wrap64_id int64_ok_def int4_ok_def)
  let ?now = "pgTime E (clk e 0)"
  let ?f = "if c_max_attempts r \<le> c_attempts r + 1
    then (\<lambda>r0. r0\<lparr>c_status := ''dead'', c_attempts := c_attempts r + 1,
           c_last_error := Some (err_text err), c_failed_at := Some ?now, c_updated_at := ?now\<rparr>)
    else (\<lambda>r0. r0\<lparr>c_status := ''pending'', c_attempts := c_attempts r + 1,
           c_last_error := Some (err_text err), c_failed_at := Some ?now, c_updated_at := ?now,
           c_scheduled_at := pgTime E (time_add (clk e 0) d)\<rparr>)"
  let ?s' = "snd (update_where i ?f s)"
  have eq: "pgNack E e i err d s = (Ret (), ?s')"
    using assms(2) r a a4
    by (simp add: pgNack_def query_row_def calm_io Let_def nack_dead_def nack_retry_def
        commit_def err_text_def)
  moreover have "table_ok ?s'" using pgNack_ok [OF assms(1), of E e i err d] eq by simp
  moreover have "pg_view ?s' = (pg_view s)(i \<mapsto> nacked (pgTime E) (clk e 0) err d j)"
  proof -
    have "pg_view ?s' = (pg_view s)(i \<mapsto> job_of_row (?f r))"
      using r by (intro pg_view_update) auto
    moreover have "job_of_row (?f r) = nacked (pgTime E) (clk e 0) err d j"
      using j by (auto simp: job_of_row_def nacked_def Let_def status_defs)
    ultimately show ?thesis by simp
  qed
  ultimately show ?thesis by blast
qed

section \<open>Reservation\<close>

context pg_server
begin

lemma visit_set: "set (pgVisit E rs) = set rs"
  by (rule set_of_mset_eq) (rule visit)

lemma scan_row_null: "c_last_error r = None \<Longrightarrow> \<exists>x. scan_row E r = Err (ErrExt x)"
  using scan_null by (auto simp: scan_row_def)

lemma scan_row_text: "c_last_error r \<noteq> None \<Longrightarrow> scan_row E r = Ret (job_of_row r)"
  by (auto simp: scan_row_def scan_some job_of_row_def)

lemma select_next_candidate:
  assumes "select_next E q t s = Some r"
  shows "r \<in> set s" and "candidate E q t r"
    and "r' \<in> set s \<Longrightarrow> candidate E q t r' \<Longrightarrow>
      (- c_priority r, c_scheduled_at r) \<le> (- c_priority r', c_scheduled_at r')"
proof -
  let ?k = "\<lambda>r. (- c_priority r, c_scheduled_at r)"
  let ?cs = "filter (candidate E q t) (pgVisit E s)"
  from assms obtain rs where eq: "sort_key ?k ?cs = r # rs"
    by (auto simp: select_next_def split: list.splits)
  then have "r \<in> set (sort_key ?k ?cs)" by simp
  then have "r \<in> set ?cs" by simp
  then show "r \<in> set s" and "candidate E q t r" by (simp_all add: visit_set)
  assume "r' \<in> set s" and "candidate E q t r'"
  then have "r' \<in> set ?cs" by (simp add: visit_set)
  from hd_sort_key_least [OF this, of ?k] eq
  show "(- c_priority r, c_scheduled_at r) \<le> (- c_priority r', c_scheduled_at r')" by simp
qed

lemma select_next_None_iff:
  "select_next E q t s = None \<longleftrightarrow> (\<forall>r \<in> set s. \<not> candidate E q t r)"
proof -
  let ?k = "\<lambda>r. (- c_priority r, c_scheduled_at r)"
  have "select_next E q t s = None \<longleftrightarrow> sort_key ?k (filter (candidate E q t) (pgVisit E s)) = []"
    by (auto simp: select_next_def split: list.split)
  also have "\<dots> \<longleftrightarrow> set (filter (candidate E q t) (pgVisit E s)) = {}"
    by (metis set_empty set_sort)
  finally show ?thesis by (auto simp: visit_set)
qed

text \<open>The three outcomes of a reservation in a calm environment.\<close>

lemma pgReserve_none:
  assumes "calm e" "select_next E q (pgTime E (clk e 0)) s = None"
  shows "pgReserve E e q s = (Ret None, s)"
  using assms by (simp add: pgReserve_def calm_io query_row_def)

lemma pgReserve_null:
  assumes "calm e" "select_next E q (pgTime E (clk e 0)) s = Some r" "c_last_error r = None"
  shows "\<exists>x. pgReserve E e q s = (Err (ErrWrap ''failed to query job'' (ErrExt x)), s)"
  using assms(1,2) scan_row_null [OF assms(3)] by (auto simp: pgReserve_def calm_io query_row_def)

lemma pgReserve_some:
  assumes "calm e" "select_next E q (pgTime E (clk e 0)) s = Some r" "c_last_error r \<noteq> None"
  shows "pgReserve E e q s =
    (Ret (Some ((job_of_row r)\<lparr>jStatus := StatusRunning, jUpdatedAt := clk e 1\<rparr>)),
     snd (update_where (c_id r)
       (\<lambda>r. r\<lparr>c_status := ''running'', c_updated_at := pgTime E (clk e 1)\<rparr>) s))"
  using assms
  by (auto simp: pgReserve_def calm_io query_row_def scan_row_text Let_def commit_def job_of_row_def)

lemma pgReserve_law:
  assumes ok: "table_ok s" and e: "calm e"
  shows "\<exists>r s'. pgReserve E e q s = (r, s') \<and> table_ok s' \<and>
           reserve_outcome (clk e 0) q (pg_view s) r (pg_view s')"
proof (cases "select_next E q (pgTime E (clk e 0)) s")
  case None
  from pgReserve_none [OF e None] ok show ?thesis by (simp add: reserve_outcome_def)
next
  case (Some r)
  note sel = select_next_candidate [OF Some]
  show ?thesis
  proof (cases "c_last_error r")
    case None
    with pgReserve_null [OF e Some] ok show ?thesis by (auto simp: reserve_outcome_def)
  next
    case (Some m)
    let ?f = "\<lambda>r. r\<lparr>c_status := ''running'', c_updated_at := pgTime E (clk e 1)\<rparr>"
    let ?s' = "snd (update_where (c_id r) ?f s)"
    have r: "select_by_id (c_id r) s = Some r" by (rule select_by_id_row [OF ok sel(1)])
    have eq: "pgReserve E e q s =
      (Ret (Some ((job_of_row r)\<lparr>jStatus := StatusRunning, jUpdatedAt := clk e 1\<rparr>)), ?s')"
      using pgReserve_some [OF e \<open>select_next E q _ s = Some r\<close>] Some by simp
    have "table_ok ?s'" using pgReserve_ok [OF ok, of E e q] eq by simp
    moreover have "pg_view ?s' = (pg_view s)(c_id r \<mapsto> job_of_row (?f r))"
      using r by (intro pg_view_update) auto
    moreover have "job_of_row (?f r) =
        (job_of_row r)\<lparr>jStatus := StatusRunning, jUpdatedAt := pgTime E (clk e 1)\<rparr>"
      by (simp add: job_of_row_def status_defs)
    moreover have "c_scheduled_at r \<le> clk e 0"
      using sel(2) time_floor [of "clk e 0"] by (simp add: candidate_def)
    moreover have "pg_view s (c_id r) = Some (job_of_row r)" using r by (simp add: pg_view_def)
    ultimately show ?thesis using eq sel(2)
      by (auto simp: reserve_outcome_def candidate_def job_of_row_def status_defs)
  qed
qed

lemma pgGetJob_law:
  assumes "calm e" "pg_view s i = Some j" "pg_readable s i"
  shows "pgGetJob E e i s = (Ret j, s)"
proof -
  obtain r where "select_by_id i s = Some r" and "j = job_of_row r"
    using assms(2) by (rule pg_view_SomeE)
  with assms(1,3) show ?thesis
    by (simp add: pgGetJob_def calm_io query_row_def scan_row_text pg_readable_def)
qed

lemma pgGetJob_missing:
  "calm e \<Longrightarrow> pg_view s i = None \<Longrightarrow> pgGetJob E e i s = (Err (notFoundError i), s)"
  by (simp add: pgGetJob_def calm_io query_row_def pg_view_def)

end

section \<open>The contract holds\<close>

lemma pg_norm_fields:
  "jID (pg_norm E j) = jID j" "jType (pg_norm E j) = jType j" "jQueue (pg_norm E j) = jQueue j"
  "jStatus (pg_norm E j) = jStatus j" "jPriority (pg_norm E j) = jPriority j"
  "jAttempts (pg_norm E j) = jAttempts j" "jMaxAttempts (pg_norm E j) = jMaxAttempts j"
  "jScheduledAt (pg_norm E j) = pgTime E (jScheduledAt j)"
  by (simp_all add: pg_norm_def)

sublocale pg_server \<subseteq> pg: job_store "PostgresBackend E" table_ok pg_view "pgTime E" "pg_norm E"
    "pg_storable E" pg_readable
proof unfold_locales
  fix s i j assume "pg_view s i = Some j"
  then show "jID j = i"
    by (auto elim!: pg_view_SomeE simp: job_of_row_def dest: select_by_id_in(2))
next
  fix e j x s assume "Validate j = Some x"
  then show "beEnqueue (PostgresBackend E) e j s = (Err (ErrWrap ''invalid job'' x), s)"
    by (simp add: PostgresBackend_def pgEnqueue_def)
qed (simp_all add: PostgresBackend_def pg_norm_fields pgEnqueue_law pgReserve_law pgAck_law pgNack_law
      pgNack_missing pgMoveToDLQ_law pgMoveToDLQ_missing pgGetJob_law pgGetJob_missing
      pgDeleteJob_law pgDeleteJob_missing)

end
