(* ===== verification/PostgresProps.thy ===== *)
theory PostgresProps
  imports PostgresStore
begin

text \<open>
  Properties of the PostgreSQL backend: which job a reservation takes, what a failed attempt
  does, what survives errors, and what the listings return.
\<close>

section \<open>Helper lemmas\<close>


lemma fst_Err_pair: "fst p = Err x \<Longrightarrow> p = (Err x, snd p)"
  by (cases p) auto

lemma pg_call_error:
  "no_lost_reply (call_env c) \<Longrightarrow> call_error (PostgresBackend E) c s = Some x \<Longrightarrow>
   call_state (PostgresBackend E) c s = s"
  by (cases c)
    (auto simp: PostgresBackend_def dest!: fst_Err_pair dest: pgEnqueue_err pgReserve_err
      pgAck_err pgNack_err pgMoveToDLQ_err pgDeleteJob_err)

text \<open>A reservation that returns a job took the selected row, whatever the environment.\<close>

lemma pgReserve_SomeD:
  assumes "pgReserve E e q s = (Ret (Some j), s')"
  obtains r j0 where "select_next E q (pgTime E (clk e 0)) s = Some r" and "scan_row E r = Ret j0"
    and "j = j0\<lparr>jStatus := StatusRunning, jUpdatedAt := clk e 1\<rparr>"
    and "s' = snd (update_where (jID j0)
      (\<lambda>r. r\<lparr>c_status := ''running'', c_updated_at := pgTime E (clk e 1)\<rparr>) s)"
proof -
  from assms obtain r j0 where "select_next E q (pgTime E (clk e 0)) s = Some r"
    and "scan_row E r = Ret j0" and "commit (io e 3)
      (Some (j0\<lparr>jStatus := StatusRunning, jUpdatedAt := clk e 1\<rparr>))
      (snd (update_where (jID j0)
        (\<lambda>r. r\<lparr>c_status := ''running'', c_updated_at := pgTime E (clk e 1)\<rparr>) s)) s
      = (Ret (Some j), s')"
    by (auto simp: pgReserve_def Let_def query_row_def fetch_Ret_iff
        split: res.splits if_splits option.splits)
  with that show thesis by (cases "io e 3") (auto simp: commit_def)
qed

lemma scan_row_id: "scan_row E r = Ret j \<Longrightarrow> jID j = c_id r"
  by (auto simp: scan_row_def split: res.splits)

lemma scan_rows_ok: "(\<And>r. r \<in> set rs \<Longrightarrow> scan r = Ret (f r)) \<Longrightarrow> scan_rows scan w rs = Ret (map f rs)"
  by (induction rs) auto

lemma scan_rows_bad:
  "r \<in> set rs \<Longrightarrow> scan r = Err x \<Longrightarrow> (\<And>r p. scan r \<noteq> Panic p) \<Longrightarrow>
   \<exists>y. scan_rows scan w rs = Err (ErrWrap w y)"
proof (induction rs)
  case Nil
  then show ?case by simp
next
  case (Cons a rs)
  then show ?case by (cases "scan a") (auto split: res.split)
qed

context pg_server
begin

lemma contract:
  "job_store (PostgresBackend E) table_ok pg_view (pgTime E) (pg_norm E) (pg_storable E) pg_readable"
  by unfold_locales

lemma scan_row_no_panic: "scan_row E r \<noteq> Panic p"
  using scan_row_null [of r] scan_row_text [of r] by (cases "c_last_error r = None") auto

end

text \<open>The rows a listing is asked for.\<close>

definition job_matches :: "string \<Rightarrow> string \<Rightarrow> row \<Rightarrow> bool" where
  "job_matches q st r \<longleftrightarrow> (q = '''' \<or> c_queue r = q) \<and> (st = '''' \<or> c_status r = st)"

lemma select_jobs_page:
  "select_jobs E q st limit offset s =
     (let L = sort_key (\<lambda>r. - c_created_at r) (filter (job_matches q st) (pgVisit E s));
          L = drop (nat offset) L
      in if limit > 0 then take (nat limit) L else L)"
proof -
  have "(if st \<noteq> '''' then filter (\<lambda>r. c_status r = st)
           (if q \<noteq> '''' then filter (\<lambda>r. c_queue r = q) rs else rs)
         else (if q \<noteq> '''' then filter (\<lambda>r. c_queue r = q) rs else rs))
      = filter (job_matches q st) rs" for rs
    by (auto simp: job_matches_def intro: filter_cong)
  then show ?thesis by (simp add: select_jobs_def Let_def)
qed

lemma row_ok_status:
  "row_ok r \<Longrightarrow> c_status r = ''pending'' \<or> c_status r = ''running'' \<or> c_status r = ''completed'' \<or>
   c_status r = ''failed'' \<or> c_status r = ''dead''"
  by (auto simp: row_ok_def chk_status_def)

lemma count_status_sum:
  assumes "\<forall>r \<in> set s. row_ok r"
  shows "count_status q ''pending'' s + count_status q ''running'' s + count_status q ''completed'' s
     + count_status q ''failed'' s + count_status q ''dead'' s
     = int (length (filter (\<lambda>r. c_queue r = q) s))"
  using assms
proof (induction s)
  case Nil
  then show ?case by (simp add: count_status_def)
next
  case (Cons r s)
  then have "row_ok r" by simp
  from row_ok_status [OF this] Cons show ?case by (auto simp: count_status_def)
qed

section \<open>Sample rows for the witnesses\<close>

definition sampleRow :: "string \<Rightarrow> int \<Rightarrow> time \<Rightarrow> string option \<Rightarrow> row" where
  "sampleRow i prio due lastError =
     \<lparr>c_id = i, c_type = ''mail'', c_queue = ''q'', c_payload = ''{}'', c_status = ''pending'',
      c_priority = prio, c_attempts = 0, c_max_attempts = 3, c_scheduled_at = due * second,
      c_created_at = due * second, c_updated_at = due * second, c_completed_at = None,
      c_failed_at = None, c_last_error = lastError\<rparr>"

definition sampleTable :: table where
  "sampleTable = [sampleRow ''a'' 0 5 (Some ''x''), sampleRow ''b'' 10 7 (Some ''x''),
                  sampleRow ''c'' 10 6 (Some ''y''), sampleRow ''d'' 20 90 (Some ''z'')]"

lemmas sample_defs = sampleTable_def sampleRow_def second_def

lemma sampleTable_ok: "table_ok sampleTable"
  by (simp add: sample_defs table_ok_def row_ok_def chk_status_def chk_max_attempts_def
      chk_attempts_def int4_ok_def)

lemma sample_reserve:
  "pgReserve plainEngine (envAt (10 * second)) ''q'' sampleTable =
     (Ret (Some ((job_of_row (sampleRow ''c'' 10 6 (Some ''y'')))
        \<lparr>jStatus := StatusRunning, jUpdatedAt := 10 * second\<rparr>)),
      [sampleRow ''a'' 0 5 (Some ''x''), sampleRow ''b'' 10 7 (Some ''x''),
       (sampleRow ''c'' 10 6 (Some ''y''))\<lparr>c_status := ''running'', c_updated_at := 10 * second\<rparr>,
       sampleRow ''d'' 20 90 (Some ''z'')])"
  by (simp add: pgReserve_def Let_def query_row_def select_next_def candidate_def plainEngine_def
      sample_defs scan_row_def commit_def update_where_def job_of_row_def)

section \<open>Reservation\<close>

text \<open>C8. A reservation that returns a job, in whatever environment, took a pending, due,
  unlocked row of the queue with the highest priority and, among those, the earliest
  schedule; it changed that row to running and no other row.\<close>

theorem pg_reserve_best:
  assumes "pg_server E" and "pgReserve E e q s = (Ret (Some j), s')"
  shows "\<exists>r \<in> set s. jID j = c_id r \<and> jStatus j = StatusRunning \<and>
      candidate E q (pgTime E (clk e 0)) r \<and>
      (\<forall>r' \<in> set s. candidate E q (pgTime E (clk e 0)) r' \<longrightarrow>
         c_priority r' < c_priority r \<or>
         (c_priority r' = c_priority r \<and> c_scheduled_at r \<le> c_scheduled_at r')) \<and>
      s' = map (\<lambda>r'. if c_id r' = c_id r
                 then r'\<lparr>c_status := ''running'', c_updated_at := pgTime E (clk e 1)\<rparr> else r') s"
proof -
  obtain r j0 where sel: "select_next E q (pgTime E (clk e 0)) s = Some r"
    and scan: "scan_row E r = Ret j0"
    and j: "j = j0\<lparr>jStatus := StatusRunning, jUpdatedAt := clk e 1\<rparr>"
    and s': "s' = snd (update_where (jID j0)
      (\<lambda>r. r\<lparr>c_status := ''running'', c_updated_at := pgTime E (clk e 1)\<rparr>) s)"
    using assms(2) by (rule pgReserve_SomeD)
  have id: "jID j0 = c_id r" using scan by (rule scan_row_id)
  note best = pg_server.select_next_candidate [OF assms(1) sel]
  show ?thesis
  proof (intro bexI [OF _ best(1)] conjI ballI impI)
    fix r' assume "r' \<in> set s" and "candidate E q (pgTime E (clk e 0)) r'"
    then have "(- c_priority r, c_scheduled_at r) \<le> (- c_priority r', c_scheduled_at r')"
      by (rule best(3))
    then show "c_priority r' < c_priority r \<or>
        (c_priority r' = c_priority r \<and> c_scheduled_at r \<le> c_scheduled_at r')" by auto
  qed (use id j best(2) s' in \<open>simp_all add: update_where_def\<close>)
qed

theorem pg_reserve_best_witness:
  "\<exists>r \<in> set sampleTable. c_id r = ''c'' \<and>
     candidate plainEngine ''q'' (pgTime plainEngine (10 * second)) r \<and>
     (\<forall>r' \<in> set sampleTable. candidate plainEngine ''q'' (pgTime plainEngine (10 * second)) r' \<longrightarrow>
        c_priority r' < c_priority r \<or>
        (c_priority r' = c_priority r \<and> c_scheduled_at r \<le> c_scheduled_at r'))"
  using pg_reserve_best [OF plain_pg.pg_server_axioms sample_reserve]
  by (auto simp: job_of_row_def sampleRow_def)



text \<open>
  The row \<open>Enqueue\<close> writes has no \<open>last_error\<close>; the driver does not scan NULL into a Go
  string, and \<open>Reserve\<close> scans the selected row before it updates it.
\<close>

definition freshJob :: job where
  "freshJob = NewJob ''n1'' (5 * second) ''mail'' ''q'' ''{}''"

text \<open>A job that was just enqueued, due and first in its queue, is never handed out:
  \<open>Reserve\<close> reports an error and leaves the table as it is.\<close>

lemma pg_fresh_job_not_reservable:
  assumes "pg_server E" and "calm e" and "calm e'" and "table_ok s"
    and "Validate j = None" and "pg_storable E s j" and "jID j \<notin> c_id ` set s"
    and "jStatus j = StatusPending" and "\<not> pgLocked E (jID j)"
    and "pgTime E (jScheduledAt j) \<le> pgTime E (clk e' 0)"
    and "\<And>r. r \<in> set s \<Longrightarrow> \<not> candidate E (jQueue j) (pgTime E (clk e' 0)) r"
  shows "\<exists>s' x. pgEnqueue E e j s = (Ret (), s') \<and>
    pgReserve E e' (jQueue j) s' = (Err (ErrWrap ''failed to query job'' (ErrExt x)), s')"
proof -
  have "pg_view s (jID j) = None" using assms(7) by (simp add: pg_view_def select_by_id_None_iff)
  then obtain r where ins: "insert_job E j s = (Ret (), s @ [r])" and r: "c_id r = jID j"
    "job_of_row r = pg_norm E j" "c_last_error r = None"
    using insert_job_law [OF assms(6,5)] by blast
  have enq: "pgEnqueue E e j s = (Ret (), s @ [r])"
    using ins assms(2,5) by (simp add: pgEnqueue_def calm_io)
  have fields: "c_queue r = jQueue j" "c_status r = ''pending''"
    "c_scheduled_at r = pgTime E (jScheduledAt j)"
    using assms(8) job_of_row_fields [of r, unfolded r(2) pg_norm_fields]
    by (simp_all add: status_defs)
  then have cand: "candidate E (jQueue j) (pgTime E (clk e' 0)) r"
    using r(1) assms(9,10) by (simp add: candidate_def)
  then obtain r' where sel: "select_next E (jQueue j) (pgTime E (clk e' 0)) (s @ [r]) = Some r'"
    using pg_server.select_next_None_iff [OF assms(1), of "jQueue j" _ "s @ [r]"]
    by (metis in_set_conv_decomp option.exhaust)
  from pg_server.select_next_candidate(1,2) [OF assms(1) sel] assms(11) have "r' = r" by auto
  with pg_server.pgReserve_null [OF assms(1,3) sel] r(3) enq show ?thesis by auto
qed

lemma pg_fresh_job_not_reservable_witness:
  "\<exists>s' x. pgEnqueue plainEngine (envAt (10 * second)) freshJob [] = (Ret (), s') \<and>
    pgReserve plainEngine (envAt (10 * second)) ''q'' s' =
      (Err (ErrWrap ''failed to query job'' (ErrExt x)), s')"
proof -
  have q: "jQueue freshJob = ''q''" by (simp add: freshJob_def)
  have "\<exists>s' x. pgEnqueue plainEngine (envAt (10 * second)) freshJob [] = (Ret (), s') \<and>
    pgReserve plainEngine (envAt (10 * second)) (jQueue freshJob) s' =
      (Err (ErrWrap ''failed to query job'' (ErrExt x)), s')"
    by (rule pg_fresh_job_not_reservable [OF plain_pg.pg_server_axioms calm_10 calm_10])
       (simp_all add: freshJob_def table_ok_def Validate_None_iff pg_storable_def
         int4_ok_def PriorityNormal_def second_def status_defs known_chk chk_status_def)
  then show ?thesis by (simp only: q)
qed

section \<open>Failed attempts\<close>

text \<open>C13. \<open>Nack\<close> on a stored job counts the attempt and records the error; a job that has
  reached its limit becomes dead and keeps its schedule, any other becomes pending again,
  due after the delay. No other job changes.\<close>

theorem pg_nack_outcome:
  assumes "table_ok s" and "calm e" and "pg_view s i = Some j" and "counters_ok j"
  shows "\<exists>s' j'. pgNack E e i err delay s = (Ret (), s') \<and> pg_view s' = (pg_view s)(i \<mapsto> j') \<and>
    jAttempts j' = jAttempts j + 1 \<and> jLastError j' = err_text err \<and>
    jFailedAt j' = Some (pgTime E (clk e 0)) \<and>
    (if jMaxAttempts j \<le> jAttempts j + 1
     then jStatus j' = StatusDead \<and> jScheduledAt j' = jScheduledAt j
     else jStatus j' = StatusPending \<and> jScheduledAt j' = pgTime E (clk e 0 + delay))"
proof -
  obtain s' where s': "pgNack E e i err delay s = (Ret (), s')"
    "pg_view s' = (pg_view s)(i \<mapsto> nacked (pgTime E) (clk e 0) err delay j)"
    using pgNack_law [OF assms, of E err delay] by blast
  show ?thesis
    by (rule exI [of _ s'], rule exI [of _ "nacked (pgTime E) (clk e 0) err delay j"])
       (use s' in \<open>simp add: nacked_def Let_def time_add_def\<close>)
qed

theorem pg_nack_outcome_witness:
  "\<exists>s' j'. pgNack plainEngine (envAt (10 * second)) ''b'' (Some (ErrExt ''boom'')) 5 sampleTable
      = (Ret (), s') \<and> pg_view s' ''b'' = Some j' \<and> jAttempts j' = 1 \<and> jStatus j' = StatusPending"
proof -
  have b: "pg_view sampleTable ''b'' = Some (job_of_row (sampleRow ''b'' 10 7 (Some ''x'')))"
    by (simp add: pg_view_def select_by_id_def sample_defs)
  have ok: "counters_ok (job_of_row (sampleRow ''b'' 10 7 (Some ''x'')))"
    by (simp add: counters_ok_def job_of_row_def sampleRow_def)
  show ?thesis
    using pg_nack_outcome [OF sampleTable_ok calm_10 b ok, of plainEngine "Some (ErrExt ''boom'')" 5]
    by (auto simp: job_of_row_def sampleRow_def)
qed

section \<open>Invariant and transactions\<close>


text \<open>C12. A call that reports an error has changed nothing, whatever failed and wherever, as
  long as no reply to an exchange that took effect was lost.\<close>

theorem pg_failed_call_no_effect:
  assumes "no_lost_reply (call_env c)" and "call_error (PostgresBackend E) c s = Some x"
  shows "call_state (PostgresBackend E) c s = s"
  using assms by (rule pg_call_error)

definition brokenEnv :: env where
  "brokenEnv = \<lparr>clk = (\<lambda>n. 10 * second), io = (\<lambda>n. if n = 3 then Lost ErrCanceled else Up)\<rparr>"

theorem pg_failed_call_no_effect_witness:
  "call_state (PostgresBackend plainEngine) (CallReserve brokenEnv ''q'') sampleTable = sampleTable"
proof (rule pg_failed_call_no_effect)
  show "no_lost_reply (call_env (CallReserve brokenEnv ''q''))"
    by (simp add: no_lost_reply_def brokenEnv_def)
  show "call_error (PostgresBackend plainEngine) (CallReserve brokenEnv ''q'') sampleTable =
      Some (ErrWrap ''failed to commit transaction'' ErrCanceled)"
    by (simp add: PostgresBackend_def brokenEnv_def pgReserve_def Let_def query_row_def
        select_next_def candidate_def plainEngine_def sample_defs scan_row_def commit_def)
qed

section \<open>Listings\<close>







text \<open>One row that was never nacked makes \<open>ListJobs\<close> fail for every listing that
  includes it: with no limit and no offset, every listing it matches.\<close>

lemma pg_list_jobs_null:
  assumes "pg_server E" and "calm e" and "r \<in> set s" and "job_matches q st r"
    and "c_last_error r = None"
  shows "\<exists>x. pgListJobs E e q st 0 0 s = (Err (ErrWrap ''failed to scan job'' x), s)"
proof -
  let ?L = "sort_key (\<lambda>r. - c_created_at r) (filter (job_matches q st) (pgVisit E s))"
  have "r \<in> set ?L" using assms(3,4) by (simp add: pg_server.visit_set [OF assms(1)])
  moreover obtain x where "scan_row E r = Err x"
    using pg_server.scan_row_null [OF assms(1,5)] by blast
  ultimately obtain y where "scan_rows (scan_row E) ''failed to scan job'' ?L
      = Err (ErrWrap ''failed to scan job'' y)"
    using scan_rows_bad [of r ?L] pg_server.scan_row_no_panic [OF assms(1)] by blast
  then show ?thesis
    using assms(2) by (auto simp: pgListJobs_def select_jobs_page query_rows_def calm_io Let_def)
qed

text \<open>\<open>ListQueues\<close> reports every queue that has a job exactly once, and the counts of a
  queue add up to the number of its jobs: no job is counted twice or missed.\<close>

lemma pg_list_queues_total:
  assumes "pg_server E" and "calm e" and "table_ok s" and "int (length s) < 2 ^ 63"
  shows "\<exists>qs. pgListQueues E e s = (Ret (slice_of qs), s) \<and>
    distinct (map qName qs) \<and> set (map qName qs) = c_queue ` set s \<and>
    (\<forall>q \<in> set qs. TotalJobs q = int (length (filter (\<lambda>r. c_queue r = qName q) s)))"
proof -
  let ?qs = "select_stats E s"
  have names: "map qName ?qs = pgCollate E (remdups (map c_queue s))"
    by (simp add: select_stats_def comp_def)
  have collate: "mset (pgCollate E (remdups (map c_queue s))) = mset (remdups (map c_queue s))"
    by (rule pg_server.collate [OF assms(1)])
  have "scan_rows Ret w ?qs = Ret (map (\<lambda>q. q) ?qs)" for w by (rule scan_rows_ok) simp
  then have "pgListQueues E e s = (Ret (slice_of ?qs), s)"
    using assms(2) by (simp add: pgListQueues_def query_rows_def calm_io)
  moreover have "distinct (map qName ?qs)"
    unfolding names using collate by (metis distinct_remdups mset_eq_imp_distinct_iff)
  moreover have "set (map qName ?qs) = c_queue ` set s"
    unfolding names using set_of_mset_eq [OF collate] by simp
  moreover have "\<forall>q \<in> set ?qs. TotalJobs q = int (length (filter (\<lambda>r. c_queue r = qName q) s))"
  proof
    fix q assume "q \<in> set ?qs"
    moreover have "int (length (filter (\<lambda>r. c_queue r = qName q) s)) < 2 ^ 63"
      using assms(4) length_filter_le [of "\<lambda>r. c_queue r = qName q" s] by linarith
    ultimately show "TotalJobs q = int (length (filter (\<lambda>r. c_queue r = qName q) s))"
      using count_status_sum [of s "qName q"] assms(3)
      by (auto simp: select_stats_def TotalJobs_sum table_ok_def wrap64_id int64_ok_def)
  qed
  ultimately show ?thesis by blast
qed

lemma pg_list_queues_total_witness:
  "\<exists>qs. pgListQueues plainEngine (envAt (10 * second)) sampleTable = (Ret (slice_of qs), sampleTable) \<and>
    set (map qName qs) = {''q''} \<and> (\<forall>q \<in> set qs. TotalJobs q = 4)"
proof -
  have "int (length sampleTable) < 2 ^ 63" by (simp add: sample_defs)
  from pg_list_queues_total [OF plain_pg.pg_server_axioms calm_10 sampleTable_ok this]
  obtain qs where "pgListQueues plainEngine (envAt (10 * second)) sampleTable
      = (Ret (slice_of qs), sampleTable)"
    and n: "set (map qName qs) = c_queue ` set sampleTable"
    and t: "\<forall>q \<in> set qs. TotalJobs q = int (length (filter (\<lambda>r. c_queue r = qName q) sampleTable))"
    by blast
  moreover have names: "set (map qName qs) = {''q''}" using n by (simp add: sample_defs)
  moreover have "\<forall>q \<in> set qs. TotalJobs q = 4"
  proof
    fix q assume q: "q \<in> set qs"
    with names have "qName q = ''q''" by auto
    with t q show "TotalJobs q = 4" by (simp add: sample_defs)
  qed
  ultimately show ?thesis by blast
qed

section \<open>Refinement\<close>



end
