(* ===== verification/PostgresFresh.thy ===== *)
theory PostgresFresh
  imports PoolRun PostgresProps
begin

text \<open>
  A pool of workers on the PostgreSQL backend, started on an empty table. \<open>Enqueue\<close> writes a
  NULL to \<open>last_error\<close>, the scans of \<open>Reserve\<close> and \<open>GetJob\<close> refuse it, and only a Nack, which
  needs a reserved job, would write a text.
\<close>

section \<open>Tables of jobs that were never tried\<close>

definition pg_fresh :: "table \<Rightarrow> bool" where
  "pg_fresh s \<longleftrightarrow> (\<forall>r \<in> set s. c_last_error r = None \<and> c_status r = ''pending'' \<and> c_attempts r = 0)"

lemma fetch_Err: "\<exists>y. fetch f (Err x) = Err y"
  by (cases f) auto

context pg_server
begin

lemma fresh_scan:
  assumes "pg_fresh s" and "r = None \<or> (\<exists>x \<in> set s. r = Some x)"
  shows "\<exists>x. query_row (scan_row E) r = Err x"
  proof (cases r)
  case None
  then show ?thesis by (simp add: query_row_def)
next
  case (Some x)
  then have "c_last_error x = None" using assms by (auto simp: pg_fresh_def)
  from scan_row_null [OF this] Some show ?thesis by (auto simp: query_row_def)
qed

lemma fresh_reserve:
  assumes "pg_fresh s"
  shows "\<exists>r. pgReserve E e q s = (r, s) \<and> (r = Ret None \<or> (\<exists>x. r = Err x))"
proof -
  let ?n = "select_next E q (pgTime E (clk e 0)) s"
  obtain x where x: "query_row (scan_row E) ?n = Err x"
    using fresh_scan [OF assms, of ?n] select_next_candidate(1) by (cases ?n) auto
  obtain y where "fetch (io e 1) (Err x :: job res) = Err y" using fetch_Err by blast
  then show ?thesis
    using x by (cases "io e 0") (auto simp: pgReserve_def)
qed

lemma fresh_get:
  assumes "pg_fresh s"
  shows "\<exists>x. pgGetJob E e i s = (Err x, s)"
proof -
  obtain x where x: "query_row (scan_row E) (select_by_id i s) = Err x"
    using fresh_scan [OF assms, of "select_by_id i s"] select_by_id_in by (cases "select_by_id i s") auto
  obtain y where "fetch (io e 0) (Err x :: job res) = Err y" using fetch_Err by blast
  then show ?thesis using x by (auto simp: pgGetJob_def)
qed

lemma fresh_enqueue:
  assumes "pg_fresh s" and "jStatus j = StatusPending" and "jAttempts j = 0"
  shows "pg_fresh (snd (pgEnqueue E e j s))"
proof -
  have "pg_fresh (snd (insert_job E j s))"
    using assms by (auto simp: pg_fresh_def insert_job_def status_defs split: option.split)
  then show ?thesis
    using assms(1) exchange_snd_cases [of "io e 0" "insert_job E j" s]
    by (auto simp: pgEnqueue_def split: option.split)
qed

lemma fresh_step:
  assumes "pool_step (PostgresBackend E) V ok reg x y" and "pg_fresh (prStore x)" and "prJobs x = (\<lambda>i. None)"
  shows "pg_fresh (prStore y) \<and> prJobs y = (\<lambda>i. None) \<and> prWorkers y = prWorkers x"
  using assms(1)
proof (cases rule: pool_step.cases)
  case (begins i we)
  obtain r where "pgReserve E (weReserve we) (wQueueName (prWorkers x ! i)) (prStore x) = (r, prStore x)"
    "r = Ret None \<or> (\<exists>e. r = Err e)" using fresh_reserve [OF assms(2)] by blast
  then have "begin_tick (PostgresBackend E) we i x = x"
    by (auto simp: begin_tick_def PostgresBackend_def)
  then show ?thesis using begins assms(2,3) by simp
next
  case (ends i j we)
  then show ?thesis using assms(3) by simp
next
  case (enqueues he req rsp s')
  have "s' = prStore x \<or> s' = snd (pgEnqueue E (heBackend he 0) (requested_job he req) (prStore x))"
    using enqueues(6) by (auto simp: handleEnqueue_requested PostgresBackend_def split: option.splits prod.splits res.splits)
  then show ?thesis using enqueues(1) assms(2,3) fresh_enqueue [OF assms(2), of "requested_job he req"] by auto
next
  case (cancels he i j rsp s')
  then show ?thesis using fresh_get [OF assms(2), of "heBackend he 0" i] by (simp add: PostgresBackend_def)
qed

lemma fresh_reach:
  assumes "rtranclp (pool_step (PostgresBackend E) V ok reg) x y" and "pg_fresh (prStore x)"
    and "prJobs x = (\<lambda>i. None)"
  shows "pg_fresh (prStore y) \<and> prJobs y = (\<lambda>i. None) \<and> prWorkers y = prWorkers x"
  using assms(1) by induction (use assms(2,3) fresh_step in auto)

end

section \<open>The pool\<close>

text \<open>C23. On an empty PostgreSQL table a pool never runs a job. However long its workers tick
  and clients enqueue and cancel, no worker ever holds a job or changes what it shows, every
  job stays pending and untried, and reading any job fails, in every environment.\<close>

theorem pg_pool_never_runs:
  assumes "pg_server E"
    and "rtranclp (pool_step (PostgresBackend E) pg_view (pg_storable E) reg)
      \<lparr>prStore = [], prWorkers = ws, prJobs = (\<lambda>i. None)\<rparr> x"
  shows "prJobs x = (\<lambda>i. None) \<and> prWorkers x = ws \<and>
    (\<forall>i j. pg_view (prStore x) i = Some j \<longrightarrow> jStatus j = StatusPending \<and> jAttempts j = 0) \<and>
    (\<forall>e i. \<exists>y. pgGetJob E e i (prStore x) = (Err y, prStore x))"
proof -
  have fresh: "pg_fresh (prStore x)" "prJobs x = (\<lambda>i. None)" "prWorkers x = ws"
    using pg_server.fresh_reach [OF assms] by (simp_all add: pg_fresh_def)
  have "jStatus j = StatusPending \<and> jAttempts j = 0" if "pg_view (prStore x) i = Some j" for i j
    using that fresh(1)
    by (auto elim!: pg_view_SomeE simp: pg_fresh_def job_of_row_def status_defs dest!: select_by_id_in(1))
  then show ?thesis using fresh pg_server.fresh_get [OF assms(1) fresh(1)] by blast
qed

definition freshRun :: "table pool_run" where
  "freshRun =
     \<lparr>prStore = [],
      prWorkers = pWorkers (snd (Start (\<lambda>_. 0) (\<lambda>_. 0) (NewPool [\<lparr>qcName = ''q'', qcConcurrency = 1\<rparr>] []))),
      prJobs = (\<lambda>i. None)\<rparr>"

definition freshRequest :: enqueueRequest where
  "freshRequest =
     \<lparr>rqType = ''mail'', rqQueue = ''q'', rqPayload = ''{}'', rqPriority = None, rqMaxAttempts = None,
      rqScheduledAt = None\<rparr>"

definition freshHenv :: henv where
  "freshHenv = \<lparr>heBackend = (\<lambda>n. envAt (10 * second)), heNow = 5 * second, heUUID = ''n1''\<rparr>"

definition freshTick :: wenv where
  "freshTick = \<lparr>weReserve = envAt (10 * second), weHandle = envAt (10 * second), weSettle = envAt (10 * second),
     weNow = (\<lambda>n. 10 * second)\<rparr>"

text \<open>A client enqueues a job that is due and a worker ticks: the job is in the table and the
  worker has none.\<close>

theorem pg_pool_never_runs_witness:
  "\<exists>x r. rtranclp (pool_step (PostgresBackend plainEngine) pg_view (pg_storable plainEngine) NewRegistry)
      freshRun x \<and> prStore x = [r] \<and> c_scheduled_at r = 5 * second \<and> c_queue r = ''q'' \<and>
    wQueueName (prWorkers x ! 0) = ''q'' \<and> prJobs x = (\<lambda>i. None)"
proof -
  let ?B = "PostgresBackend plainEngine"
  let ?step = "pool_step ?B pg_view (pg_storable plainEngine) NewRegistry"
  obtain rsp r where enq: "handleEnqueue ?B freshHenv (Some freshRequest) [] = (rsp, [r])"
    "c_scheduled_at r = 5 * second" "c_queue r = ''q''"
  proof -
    have "case handleEnqueue ?B freshHenv (Some freshRequest) [] of
      (rsp, s) \<Rightarrow> length s = 1 \<and> c_scheduled_at (hd s) = 5 * second \<and> c_queue (hd s) = ''q''" by code_simp
    then show thesis by (auto simp: length_Suc_conv intro: that split: prod.splits)
  qed
  let ?x1 = "freshRun\<lparr>prStore := [r]\<rparr>"
  let ?x2 = "begin_tick ?B freshTick 0 ?x1"
  have w: "length (prWorkers freshRun) = 1" "wQueueName (prWorkers freshRun ! 0) = ''q''"
    by (simp_all add: freshRun_def NewPool_def Start_def concurrency_of_def NewWorker_def upt_conv_Cons)
  have "pg_storable plainEngine [] (requested_job freshHenv freshRequest)" by code_simp
  moreover have "prStore freshRun = []" "\<forall>n. calm (heBackend freshHenv n)"
    "jMaxAttempts (requested_job freshHenv freshRequest) < 2 ^ 31"
    by (simp_all add: freshRun_def freshHenv_def calm_10 requested_job_def freshRequest_def)
  ultimately have 1: "?step freshRun ?x1"
    using enq(1) by (intro pool_step.enqueues [where he = freshHenv and req = freshRequest and rsp = rsp])
      (simp_all add: pg_view_def select_by_id_def)
  have "0 < length (prWorkers ?x1)" "prJobs ?x1 0 = None" "calm_tick freshTick"
    using w(1) by (simp, simp add: freshRun_def, simp add: calm_tick_def freshTick_def calm_10)
  then have 2: "?step ?x1 ?x2" by (rule pool_step.begins)
  from 1 2 have reach: "rtranclp ?step freshRun ?x2" by (meson converse_rtranclp_into_rtranclp rtranclp.rtrancl_refl)
  have none: "prJobs ?x2 = (\<lambda>i. None)" "prWorkers ?x2 = prWorkers freshRun"
    using pg_pool_never_runs [OF plain_pg.pg_server_axioms reach [unfolded freshRun_def]] by (simp_all add: freshRun_def)
  have "pg_fresh (prStore ?x1)"
    using plain_pg.fresh_step [OF 1] by (simp add: freshRun_def pg_fresh_def)
  then obtain y where "pgReserve plainEngine (weReserve freshTick) (wQueueName (prWorkers ?x1 ! 0)) (prStore ?x1)
      = (y, prStore ?x1)" "y = Ret None \<or> (\<exists>e. y = Err e)" using plain_pg.fresh_reserve by blast
  then have "prStore ?x2 = [r]" by (auto simp: begin_tick_def PostgresBackend_def)
  with reach none enq(2,3) w(2) show ?thesis by auto
qed

end
