(* ===== verification/RedisServer.thy ===== *)
theory RedisServer
  imports GoLang "HOL-Library.AList" "HOL-Library.Product_Lexorder"
    "HOL-Library.List_Lexorder" "HOL-Library.Char_ord"
begin

text \<open>
  The Redis commands the backend uses, as the server is not part of the repository: a record
  of command functions over a server state \<open>'s\<close>, and the locale \<open>redis_server\<close> with what
  the Redis documentation promises of them. A key holds a hash, a sorted set or a set; the
  three observers \<open>H\<close>, \<open>Z\<close> and \<open>S\<close> read the hash fields, the scores and the members kept
  under a key. The promises are conditional: a command on a key that holds another type may
  answer anything. At the end, an in-memory server that keeps the promises.
\<close>

section \<open>Commands\<close>

text \<open>
  \<open>rZRangeByScoreFirst k m\<close> is \<open>ZRANGEBYSCORE k -inf m LIMIT 0 1\<close>, \<open>rZRangeAll k\<close> is
  \<open>ZRANGE k 0 -1\<close>, \<open>rNum n\<close> the text of an integral Lua number given to a command. The
  scores the code uses are integral doubles.
\<close>

record 's redis =
  rHSet :: "string \<Rightarrow> (string \<times> string) list \<Rightarrow> 's \<Rightarrow> unit res \<times> 's"
  rHGet :: "string \<Rightarrow> string \<Rightarrow> 's \<Rightarrow> string option res"
  rHGetAll :: "string \<Rightarrow> 's \<Rightarrow> (string \<times> string) list res"
  rDel :: "string \<Rightarrow> 's \<Rightarrow> unit res \<times> 's"
  rZAdd :: "string \<Rightarrow> int \<Rightarrow> string \<Rightarrow> 's \<Rightarrow> unit res \<times> 's"
  rZRem :: "string \<Rightarrow> string \<Rightarrow> 's \<Rightarrow> unit res \<times> 's"
  rZRangeByScoreFirst :: "string \<Rightarrow> int \<Rightarrow> 's \<Rightarrow> string list res"
  rZRangeAll :: "string \<Rightarrow> 's \<Rightarrow> string list res"
  rZCard :: "string \<Rightarrow> 's \<Rightarrow> int res"
  rSAdd :: "string \<Rightarrow> string \<Rightarrow> 's \<Rightarrow> unit res \<times> 's"
  rSRem :: "string \<Rightarrow> string \<Rightarrow> 's \<Rightarrow> unit res \<times> 's"
  rSCard :: "string \<Rightarrow> 's \<Rightarrow> int res"
  rSMembers :: "string \<Rightarrow> 's \<Rightarrow> string list res"
  rKeys :: "string \<Rightarrow> 's \<Rightarrow> string list res"
  rNum :: "int \<Rightarrow> string"

section \<open>What the documentation promises\<close>

definition plain_pattern :: "string \<Rightarrow> bool" where
  "plain_pattern p \<longleftrightarrow> list_all (\<lambda>c. c \<notin> set [CHR ''*'', CHR ''?'', CHR ''['', CHR '']'', CHR 0x5C]) p"

locale redis_server =
  fixes R :: "'s redis"
    and H :: "'s \<Rightarrow> string \<Rightarrow> string \<Rightarrow> string option"
    and Z :: "'s \<Rightarrow> string \<Rightarrow> string \<Rightarrow> int option"
    and S :: "'s \<Rightarrow> string \<Rightarrow> string set"
  assumes hset_ret: "Z s k = Map.empty \<Longrightarrow> S s k = {} \<Longrightarrow> kvs \<noteq> [] \<Longrightarrow> fst (rHSet R k kvs s) = Ret ()"
    and hset_H: "Z s k = Map.empty \<Longrightarrow> S s k = {} \<Longrightarrow> kvs \<noteq> [] \<Longrightarrow>
      H (snd (rHSet R k kvs s)) = (H s)(k := H s k ++ map_of (rev kvs))"
    and hset_Z: "Z s k = Map.empty \<Longrightarrow> S s k = {} \<Longrightarrow> kvs \<noteq> [] \<Longrightarrow> Z (snd (rHSet R k kvs s)) = Z s"
    and hset_S: "Z s k = Map.empty \<Longrightarrow> S s k = {} \<Longrightarrow> kvs \<noteq> [] \<Longrightarrow> S (snd (rHSet R k kvs s)) = S s"
    and hget: "Z s k = Map.empty \<Longrightarrow> S s k = {} \<Longrightarrow> rHGet R k f s = Ret (H s k f)"
    and hgetall: "Z s k = Map.empty \<Longrightarrow> S s k = {} \<Longrightarrow>
      \<exists>kvs. rHGetAll R k s = Ret kvs \<and> map_of kvs = H s k \<and> distinct (map fst kvs)"
    and del_ret: "fst (rDel R k s) = Ret ()"
    and del_H: "H (snd (rDel R k s)) = (H s)(k := Map.empty)"
    and del_Z: "Z (snd (rDel R k s)) = (Z s)(k := Map.empty)"
    and del_S: "S (snd (rDel R k s)) = (S s)(k := {})"
    and zadd_ret: "H s k = Map.empty \<Longrightarrow> S s k = {} \<Longrightarrow> fst (rZAdd R k sc m s) = Ret ()"
    and zadd_H: "H s k = Map.empty \<Longrightarrow> S s k = {} \<Longrightarrow> H (snd (rZAdd R k sc m s)) = H s"
    and zadd_Z: "H s k = Map.empty \<Longrightarrow> S s k = {} \<Longrightarrow>
      Z (snd (rZAdd R k sc m s)) = (Z s)(k := (Z s k)(m \<mapsto> sc))"
    and zadd_S: "H s k = Map.empty \<Longrightarrow> S s k = {} \<Longrightarrow> S (snd (rZAdd R k sc m s)) = S s"
    and zrem_ret: "H s k = Map.empty \<Longrightarrow> S s k = {} \<Longrightarrow> fst (rZRem R k m s) = Ret ()"
    and zrem_H: "H s k = Map.empty \<Longrightarrow> S s k = {} \<Longrightarrow> H (snd (rZRem R k m s)) = H s"
    and zrem_Z: "H s k = Map.empty \<Longrightarrow> S s k = {} \<Longrightarrow>
      Z (snd (rZRem R k m s)) = (Z s)(k := (Z s k)(m := None))"
    and zrem_S: "H s k = Map.empty \<Longrightarrow> S s k = {} \<Longrightarrow> S (snd (rZRem R k m s)) = S s"
    and zfirst_none: "H s k = Map.empty \<Longrightarrow> S s k = {} \<Longrightarrow>
      (\<And>m sc. Z s k m = Some sc \<Longrightarrow> mx < sc) \<Longrightarrow> rZRangeByScoreFirst R k mx s = Ret []"
    and zfirst_some: "H s k = Map.empty \<Longrightarrow> S s k = {} \<Longrightarrow> Z s k m = Some sc \<Longrightarrow> sc \<le> mx \<Longrightarrow>
      \<exists>m0 sc0. rZRangeByScoreFirst R k mx s = Ret [m0] \<and> Z s k m0 = Some sc0 \<and> sc0 \<le> mx \<and>
        (\<forall>m' sc'. Z s k m' = Some sc' \<longrightarrow> sc0 \<le> sc')"
    and zrange: "H s k = Map.empty \<Longrightarrow> S s k = {} \<Longrightarrow>
      \<exists>ms. rZRangeAll R k s = Ret ms \<and> distinct ms \<and> set ms = dom (Z s k)"
    and zcard: "H s k = Map.empty \<Longrightarrow> S s k = {} \<Longrightarrow> rZCard R k s = Ret (int (card (dom (Z s k))))"
    and z_finite: "finite (dom (Z s k))"
    and sadd_ret: "H s k = Map.empty \<Longrightarrow> Z s k = Map.empty \<Longrightarrow> fst (rSAdd R k m s) = Ret ()"
    and sadd_H: "H s k = Map.empty \<Longrightarrow> Z s k = Map.empty \<Longrightarrow> H (snd (rSAdd R k m s)) = H s"
    and sadd_Z: "H s k = Map.empty \<Longrightarrow> Z s k = Map.empty \<Longrightarrow> Z (snd (rSAdd R k m s)) = Z s"
    and sadd_S: "H s k = Map.empty \<Longrightarrow> Z s k = Map.empty \<Longrightarrow>
      S (snd (rSAdd R k m s)) = (S s)(k := insert m (S s k))"
    and srem_ret: "H s k = Map.empty \<Longrightarrow> Z s k = Map.empty \<Longrightarrow> fst (rSRem R k m s) = Ret ()"
    and srem_H: "H s k = Map.empty \<Longrightarrow> Z s k = Map.empty \<Longrightarrow> H (snd (rSRem R k m s)) = H s"
    and srem_Z: "H s k = Map.empty \<Longrightarrow> Z s k = Map.empty \<Longrightarrow> Z (snd (rSRem R k m s)) = Z s"
    and srem_S: "H s k = Map.empty \<Longrightarrow> Z s k = Map.empty \<Longrightarrow>
      S (snd (rSRem R k m s)) = (S s)(k := S s k - {m})"
    and scard: "H s k = Map.empty \<Longrightarrow> Z s k = Map.empty \<Longrightarrow> rSCard R k s = Ret (int (card (S s k)))"
    and smembers: "H s k = Map.empty \<Longrightarrow> Z s k = Map.empty \<Longrightarrow>
      \<exists>ms. rSMembers R k s = Ret ms \<and> distinct ms \<and> set ms = S s k"
    and s_finite: "finite (S s k)"
    and keys: "plain_pattern p \<Longrightarrow> \<exists>ks. rKeys R (p @ ''*'') s = Ret ks \<and> distinct ks \<and>
      set ks = {k. has_prefix k p \<and> (H s k \<noteq> Map.empty \<or> Z s k \<noteq> Map.empty \<or> S s k \<noteq> {})}"
    and num: "\<bar>n\<bar> \<le> 2 ^ 53 \<Longrightarrow> rNum R n = itoa n"
begin

lemmas write_rets = hset_ret del_ret zadd_ret zrem_ret sadd_ret srem_ret
lemmas write_views = hset_H hset_Z hset_S del_H del_Z del_S zadd_H zadd_Z zadd_S
  zrem_H zrem_Z zrem_S sadd_H sadd_Z sadd_S srem_H srem_Z srem_S

end

section \<open>A server in memory\<close>

record mem =
  mHash :: "(string \<times> (string \<times> string) list) list"
  mZSet :: "(string \<times> (string \<times> int) list) list"
  mSet :: "(string \<times> string list) list"

definition emptyMem :: mem where
  "emptyMem = \<lparr>mHash = [], mZSet = [], mSet = []\<rparr>"

definition lookup_list :: "('k \<times> 'v list) list \<Rightarrow> 'k \<Rightarrow> 'v list" where
  "lookup_list m k = (case map_of m k of None \<Rightarrow> [] | Some xs \<Rightarrow> xs)"

definition wrongType :: goerr where
  "wrongType = ErrExt ''WRONGTYPE Operation against a key holding the wrong kind of value''"

fun set_fields :: "(string \<times> string) list \<Rightarrow> (string \<times> string) list \<Rightarrow> (string \<times> string) list" where
  "set_fields h [] = h"
| "set_fields h ((f, v) # kvs) = set_fields (AList.update f v h) kvs"

text \<open>The guards: a command answers an error if the key holds another type.\<close>

definition on_hash :: "string \<Rightarrow> mem \<Rightarrow> 'a \<Rightarrow> 'a res" where
  "on_hash k s v = (if lookup_list (mZSet s) k = [] \<and> lookup_list (mSet s) k = [] then Ret v else Err wrongType)"

definition on_zset :: "string \<Rightarrow> mem \<Rightarrow> 'a \<Rightarrow> 'a res" where
  "on_zset k s v = (if lookup_list (mHash s) k = [] \<and> lookup_list (mSet s) k = [] then Ret v else Err wrongType)"

definition on_set :: "string \<Rightarrow> mem \<Rightarrow> 'a \<Rightarrow> 'a res" where
  "on_set k s v = (if lookup_list (mHash s) k = [] \<and> lookup_list (mZSet s) k = [] then Ret v else Err wrongType)"

definition store :: "mem res \<Rightarrow> mem \<Rightarrow> unit res \<times> mem" where
  "store r s = (case r of Ret s' \<Rightarrow> (Ret (), s') | Err x \<Rightarrow> (Err x, s) | Panic p \<Rightarrow> (Panic p, s))"

definition zset_ordered :: "mem \<Rightarrow> string \<Rightarrow> (string \<times> int) list" where
  "zset_ordered s k = sort_key (\<lambda>(m, sc). (sc, m)) (AList.clearjunk (lookup_list (mZSet s) k))"

definition mem_keys :: "string \<Rightarrow> mem \<Rightarrow> string list" where
  "mem_keys pat s =
     filter (\<lambda>k. if pat \<noteq> [] \<and> last pat = CHR ''*'' then has_prefix k (butlast pat) else k = pat)
       (remdups
         (filter (\<lambda>k. lookup_list (mHash s) k \<noteq> []) (map fst (mHash s)) @
          filter (\<lambda>k. lookup_list (mZSet s) k \<noteq> []) (map fst (mZSet s)) @
          filter (\<lambda>k. lookup_list (mSet s) k \<noteq> []) (map fst (mSet s))))"

definition memRedis :: "mem redis" where
  "memRedis =
     \<lparr>rHSet = (\<lambda>k kvs s. store (on_hash k s
        (s\<lparr>mHash := AList.update k (set_fields (lookup_list (mHash s) k) kvs) (mHash s)\<rparr>)) s),
      rHGet = (\<lambda>k f s. on_hash k s (map_of (lookup_list (mHash s) k) f)),
      rHGetAll = (\<lambda>k s. on_hash k s (AList.clearjunk (lookup_list (mHash s) k))),
      rDel = (\<lambda>k s. (Ret (), s\<lparr>mHash := AList.delete k (mHash s),
        mZSet := AList.delete k (mZSet s), mSet := AList.delete k (mSet s)\<rparr>)),
      rZAdd = (\<lambda>k sc m s. store (on_zset k s
        (s\<lparr>mZSet := AList.update k (AList.update m sc (lookup_list (mZSet s) k)) (mZSet s)\<rparr>)) s),
      rZRem = (\<lambda>k m s. store (on_zset k s
        (s\<lparr>mZSet := AList.update k (AList.delete m (lookup_list (mZSet s) k)) (mZSet s)\<rparr>)) s),
      rZRangeByScoreFirst = (\<lambda>k mx s. on_zset k s
        (take 1 (map fst (filter (\<lambda>(m, sc). sc \<le> mx) (zset_ordered s k))))),
      rZRangeAll = (\<lambda>k s. on_zset k s (map fst (zset_ordered s k))),
      rZCard = (\<lambda>k s. on_zset k s (int (length (zset_ordered s k)))),
      rSAdd = (\<lambda>k m s. store (on_set k s
        (s\<lparr>mSet := AList.update k (List.insert m (lookup_list (mSet s) k)) (mSet s)\<rparr>)) s),
      rSRem = (\<lambda>k m s. store (on_set k s
        (s\<lparr>mSet := AList.update k (removeAll m (lookup_list (mSet s) k)) (mSet s)\<rparr>)) s),
      rSCard = (\<lambda>k s. on_set k s (int (length (remdups (lookup_list (mSet s) k))))),
      rSMembers = (\<lambda>k s. on_set k s (remdups (lookup_list (mSet s) k))),
      rKeys = (\<lambda>pat s. Ret (mem_keys pat s)),
      rNum = itoa\<rparr>"

definition memH :: "mem \<Rightarrow> string \<Rightarrow> string \<Rightarrow> string option" where
  "memH s k = map_of (lookup_list (mHash s) k)"

definition memZ :: "mem \<Rightarrow> string \<Rightarrow> string \<Rightarrow> int option" where
  "memZ s k = map_of (lookup_list (mZSet s) k)"

definition memS :: "mem \<Rightarrow> string \<Rightarrow> string set" where
  "memS s k = set (lookup_list (mSet s) k)"

section \<open>The server in memory keeps the promises\<close>

lemma lookup_update: "lookup_list (AList.update k v m) k' = (if k' = k then v else lookup_list m k')"
  by (simp add: lookup_list_def update_conv')

lemma lookup_delete: "lookup_list (AList.delete k m) k' = (if k' = k then [] else lookup_list m k')"
  by (simp add: lookup_list_def delete_conv')

lemma map_of_set_fields: "map_of (set_fields h kvs) = map_of h ++ map_of (rev kvs)"
proof (induction h kvs rule: set_fields.induct)
  case (1 h)
  then show ?case by simp
next
  case (2 h f v kvs)
  then show ?case by (auto simp: update_conv' map_add_def fun_eq_iff split: option.splits)
qed

lemma mem_empty [simp]:
  "memH s k = Map.empty \<longleftrightarrow> lookup_list (mHash s) k = []"
  "memZ s k = Map.empty \<longleftrightarrow> lookup_list (mZSet s) k = []"
  "memS s k = {} \<longleftrightarrow> lookup_list (mSet s) k = []"
  by (simp_all add: memH_def memZ_def memS_def)

lemma lookup_nonempty_key: "lookup_list m k \<noteq> [] \<Longrightarrow> k \<in> fst ` set m"
  by (auto simp: lookup_list_def split: option.splits dest!: map_of_SomeD) force

lemma set_mem_keys:
  "set (mem_keys (p @ ''*'') s) = {k. has_prefix k p \<and>
     (memH s k \<noteq> Map.empty \<or> memZ s k \<noteq> Map.empty \<or> memS s k \<noteq> {})}"
  by (auto simp: mem_keys_def dest: lookup_nonempty_key)

lemma set_zset_ordered: "set (zset_ordered s k) = {(m, sc). memZ s k m = Some sc}"
proof -
  have "(m, sc) \<in> set (AList.clearjunk (lookup_list (mZSet s) k)) \<longleftrightarrow>
      map_of (AList.clearjunk (lookup_list (mZSet s) k)) m = Some sc" for m sc
    by (simp add: map_of_eq_Some_iff)
  then show ?thesis by (auto simp: zset_ordered_def memZ_def map_of_clearjunk)
qed

lemma distinct_zset_ordered: "distinct (map fst (zset_ordered s k))"
proof -
  have "mset (map fst (zset_ordered s k)) = mset (map fst (AList.clearjunk (lookup_list (mZSet s) k)))"
    by (simp add: zset_ordered_def)
  then show ?thesis by (metis distinct_clearjunk mset_eq_imp_distinct_iff)
qed

lemma fst_zset_ordered: "set (map fst (zset_ordered s k)) = dom (memZ s k)"
  using set_zset_ordered [of s k] by force

lemma sorted_zset_ordered: "sorted (map snd (zset_ordered s k))"
proof -
  have "sorted (map (\<lambda>(m, sc). (sc, m)) (zset_ordered s k))"
    unfolding zset_ordered_def by (rule sorted_sort_key)
  then show ?thesis
    unfolding sorted_map by (rule sorted_wrt_mono_rel [rotated]) auto
qed

lemma zset_first_least:
  assumes "memZ s k m = Some sc" and "sc \<le> mx"
  shows "\<exists>m0 sc0. take 1 (map fst (filter (\<lambda>(m, sc). sc \<le> mx) (zset_ordered s k))) = [m0] \<and>
    memZ s k m0 = Some sc0 \<and> sc0 \<le> mx \<and> (\<forall>m' sc'. memZ s k m' = Some sc' \<longrightarrow> sc0 \<le> sc')"
proof -
  from assms(1) have mem: "(m, sc) \<in> set (zset_ordered s k)" by (simp add: set_zset_ordered)
  then obtain m0 sc0 rest where z: "zset_ordered s k = (m0, sc0) # rest"
    by (cases "zset_ordered s k") auto
  with sorted_zset_ordered [of s k]
  have least: "\<And>m' sc'. (m', sc') \<in> set (zset_ordered s k) \<Longrightarrow> sc0 \<le> sc'" by fastforce
  with mem assms(2) have "sc0 \<le> mx" by (meson order_trans)
  moreover have "memZ s k m0 = Some sc0" using z set_zset_ordered [of s k] by auto
  moreover have "\<forall>m' sc'. memZ s k m' = Some sc' \<longrightarrow> sc0 \<le> sc'"
    using least by (simp add: set_zset_ordered)
  ultimately show ?thesis using z by simp
qed

lemma zset_first_none:
  assumes "\<And>m sc. memZ s k m = Some sc \<Longrightarrow> mx < sc"
  shows "take 1 (map fst (filter (\<lambda>(m, sc). sc \<le> mx) (zset_ordered s k))) = []"
proof -
  have "\<forall>x \<in> set (zset_ordered s k). \<not> (case x of (m, sc) \<Rightarrow> sc \<le> mx)"
    by (auto simp: set_zset_ordered dest: assms)
  then show ?thesis by (simp add: filter_False)
qed

lemma card_zset: "int (length (zset_ordered s k)) = int (card (dom (memZ s k)))"
  using distinct_card [OF distinct_zset_ordered [of s k]] fst_zset_ordered [of s k] by simp

lemma mem_views:
  "memH (s\<lparr>mHash := AList.update k (set_fields (lookup_list (mHash s) k) kvs) (mHash s)\<rparr>) =
     (memH s)(k := memH s k ++ map_of (rev kvs))"
  "memZ (s\<lparr>mZSet := AList.update k (AList.update m sc (lookup_list (mZSet s) k)) (mZSet s)\<rparr>) =
     (memZ s)(k := (memZ s k)(m \<mapsto> sc))"
  "memZ (s\<lparr>mZSet := AList.update k (AList.delete m (lookup_list (mZSet s) k)) (mZSet s)\<rparr>) =
     (memZ s)(k := (memZ s k)(m := None))"
  "memS (s\<lparr>mSet := AList.update k (List.insert m (lookup_list (mSet s) k)) (mSet s)\<rparr>) =
     (memS s)(k := insert m (memS s k))"
  "memS (s\<lparr>mSet := AList.update k (removeAll m (lookup_list (mSet s) k)) (mSet s)\<rparr>) =
     (memS s)(k := memS s k - {m})"
  "memH (s\<lparr>mHash := AList.delete k (mHash s)\<rparr>) = (memH s)(k := Map.empty)"
  "memZ (s\<lparr>mHash := hs, mZSet := AList.delete k (mZSet s)\<rparr>) = (memZ s)(k := Map.empty)"
  "memS (s\<lparr>mHash := hs, mZSet := zs, mSet := AList.delete k (mSet s)\<rparr>) = (memS s)(k := {})"
  "memZ (s\<lparr>mHash := hs\<rparr>) = memZ s" "memS (s\<lparr>mHash := hs\<rparr>) = memS s"
  "memH (s\<lparr>mZSet := zs\<rparr>) = memH s" "memS (s\<lparr>mZSet := zs\<rparr>) = memS s"
  "memH (s\<lparr>mSet := ss\<rparr>) = memH s" "memZ (s\<lparr>mSet := ss\<rparr>) = memZ s"
  by (auto simp: memH_def memZ_def memS_def lookup_update lookup_delete fun_eq_iff
      map_of_set_fields update_conv' delete_conv')

interpretation mem_redis: redis_server memRedis memH memZ memS
proof
  fix s :: mem and k :: string
  show "finite (dom (memZ s k))" by (simp add: memZ_def finite_dom_map_of)
  show "finite (memS s k)" by (simp add: memS_def)
next
  fix s :: mem and k m :: string and sc mx :: int
  assume "memH s k = Map.empty" "memS s k = {}" "memZ s k m = Some sc" "sc \<le> mx"
  then show "\<exists>m0 sc0. rZRangeByScoreFirst memRedis k mx s = Ret [m0] \<and> memZ s k m0 = Some sc0 \<and>
      sc0 \<le> mx \<and> (\<forall>m' sc'. memZ s k m' = Some sc' \<longrightarrow> sc0 \<le> sc')"
    using zset_first_least [of s k m sc mx] by (simp add: memRedis_def on_zset_def)
next
  fix s :: mem and k :: string and mx :: int
  assume "memH s k = Map.empty" "memS s k = {}" "\<And>m sc. memZ s k m = Some sc \<Longrightarrow> mx < sc"
  then show "rZRangeByScoreFirst memRedis k mx s = Ret []"
    using zset_first_none [of s k mx] by (simp add: memRedis_def on_zset_def)
next
  fix s :: mem and k :: string
  assume h: "memH s k = Map.empty" "memS s k = {}"
  from h show "\<exists>ms. rZRangeAll memRedis k s = Ret ms \<and> distinct ms \<and> set ms = dom (memZ s k)"
    using distinct_zset_ordered [of s k] fst_zset_ordered [of s k]
    by (simp add: memRedis_def on_zset_def)
  from h show "rZCard memRedis k s = Ret (int (card (dom (memZ s k))))"
    using card_zset [of s k] by (simp add: memRedis_def on_zset_def)
next
  fix p :: string and s :: mem
  show "\<exists>ks. rKeys memRedis (p @ ''*'') s = Ret ks \<and> distinct ks \<and> set ks = {k. has_prefix k p \<and>
      (memH s k \<noteq> Map.empty \<or> memZ s k \<noteq> Map.empty \<or> memS s k \<noteq> {})}"
    using set_mem_keys [of p s] by (simp add: memRedis_def mem_keys_def)
next
  fix s :: mem and k :: string
  assume "memZ s k = Map.empty" "memS s k = {}"
  then show "\<exists>kvs. rHGetAll memRedis k s = Ret kvs \<and> map_of kvs = memH s k \<and> distinct (map fst kvs)"
    by (simp add: memRedis_def on_hash_def memH_def map_of_clearjunk distinct_clearjunk)
next
  fix s :: mem and k f :: string
  assume "memZ s k = Map.empty" "memS s k = {}"
  then show "rHGet memRedis k f s = Ret (memH s k f)"
    by (simp add: memRedis_def on_hash_def) (simp add: memH_def)
next
  fix s :: mem and k :: string
  assume "memH s k = Map.empty" "memZ s k = Map.empty"
  then show "\<exists>ms. rSMembers memRedis k s = Ret ms \<and> distinct ms \<and> set ms = memS s k"
    by (simp add: memRedis_def on_set_def) (simp add: memS_def)
next
  fix s :: mem and k :: string
  assume "memH s k = Map.empty" "memZ s k = Map.empty"
  then show "rSCard memRedis k s = Ret (int (card (memS s k)))"
    by (simp add: memRedis_def on_set_def memS_def) (metis List.card_set)
qed (simp_all add: memRedis_def on_hash_def on_zset_def on_set_def store_def mem_views)

end
