(* ===== verification/RedisBackend.thy ===== *)
theory RedisBackend
  imports Backend RedisServer
begin

text \<open>
  internal/backend/redis/redis.go and scripts.go. The Redis commands are the argument \<open>R\<close>
  (theory RedisServer); a Lua script is a sequence of commands that stops at the first error
  and runs as one exchange; a pipeline sends all its commands in one exchange and reports
  the first error. The functions keep the names of the source with the prefix \<open>rd\<close> for the
  methods. A pipeline is not cut in the middle here: an exchange takes place as a whole or
  not at all.
\<close>

section \<open>Keys\<close>

definition jobKey :: "string \<Rightarrow> string" where
  "jobKey jobID = ''job:'' @ jobID"

definition queueKey :: "string \<Rightarrow> string" where
  "queueKey queueName = ''queue:'' @ queueName"

definition statusKey :: "string \<Rightarrow> string \<Rightarrow> string" where
  "statusKey queueName status = ''status:queue:'' @ queueName @ '':'' @ status"

section \<open>Parsing\<close>

text \<open>A reply of the server as the client library hands it over (\<open>interface{}\<close>).\<close>

datatype reply = RNil | RStr string | RInt int | RArr "reply list"

text \<open>\<open>data[k]\<close> of a \<open>map[string]string\<close>: the empty string if the key is absent.\<close>

definition field :: "(string \<rightharpoonup> string) \<Rightarrow> string \<Rightarrow> string" where
  "field data k = (case data k of None \<Rightarrow> '''' | Some v \<Rightarrow> v)"

definition parse_or :: "int \<Rightarrow> (int \<Rightarrow> int) \<Rightarrow> string \<Rightarrow> int" where
  "parse_or d f v = (case parse_int v of None \<Rightarrow> d | Some n \<Rightarrow> f n)"

definition parse_opt_time :: "string \<Rightarrow> time option" where
  "parse_opt_time v =
     (case parse_int v of None \<Rightarrow> None | Some n \<Rightarrow> if n > 0 then Some (from_unix n) else None)"

definition parseJobFromMap :: "(string \<rightharpoonup> string) \<Rightarrow> job" where
  "parseJobFromMap data =
     \<lparr>jID = field data ''id'', jType = field data ''type'', jQueue = field data ''queue'',
      jPayload = (case data ''payload'' of None \<Rightarrow> '''' | Some p \<Rightarrow> p),
      jStatus = field data ''status'',
      jPriority = parse_or 0 (\<lambda>n. n) (field data ''priority''),
      jAttempts = parse_or 0 (\<lambda>n. n) (field data ''attempts''),
      jMaxAttempts = parse_or 0 (\<lambda>n. n) (field data ''max_attempts''),
      jScheduledAt = parse_or zero_time from_unix (field data ''scheduled_at''),
      jCreatedAt = parse_or zero_time from_unix (field data ''created_at''),
      jUpdatedAt = parse_or zero_time from_unix (field data ''updated_at''),
      jCompletedAt = parse_opt_time (field data ''completed_at''),
      jFailedAt = parse_opt_time (field data ''failed_at''),
      jLastError = field data ''last_error''\<rparr>"

fun fields_map :: "reply list \<Rightarrow> (string \<rightharpoonup> string) \<Rightarrow> (string \<rightharpoonup> string)" where
  "fields_map (RStr k # RStr v # fs) m = fields_map fs (m(k \<mapsto> v))"
| "fields_map (k # v # fs) m = fields_map fs m"
| "fields_map fs m = m"

definition parseJobFromHash :: "reply list \<Rightarrow> job res" where
  "parseJobFromHash flds =
     (if length flds mod 2 \<noteq> 0 then Err (ErrNew ''invalid hash fields count'')
      else Ret (parseJobFromMap (fields_map flds Map.empty)))"

text \<open>One field of the statistics, by its name; a value of another type is ignored, but a
  name that is not a string becomes empty.\<close>

definition set_stat :: "string \<Rightarrow> reply \<Rightarrow> queue_stats \<Rightarrow> queue_stats" where
  "set_stat key v q =
     (if key = ''name'' then q\<lparr>qName := (case v of RStr s \<Rightarrow> s | _ \<Rightarrow> '''')\<rparr>
      else case v of
        RInt n \<Rightarrow>
          if key = ''size'' then q\<lparr>qSize := n\<rparr>
          else if key = ''processing_count'' then q\<lparr>qProcessingCount := n\<rparr>
          else if key = ''completed_count'' then q\<lparr>qCompletedCount := n\<rparr>
          else if key = ''failed_count'' then q\<lparr>qFailedCount := n\<rparr>
          else if key = ''dead_count'' then q\<lparr>qDeadCount := n\<rparr>
          else q
      | _ \<Rightarrow> q)"

fun stats_loop :: "reply list \<Rightarrow> queue_stats \<Rightarrow> queue_stats" where
  "stats_loop (k # v # fs) q =
     stats_loop fs (set_stat (case k of RStr s \<Rightarrow> s | _ \<Rightarrow> '''') v q)"
| "stats_loop fs q = q"

definition parseQueueStats :: "reply list \<Rightarrow> queue_stats" where
  "parseQueueStats flds =
     stats_loop flds
       \<lparr>qName = '''', qSize = 0, qProcessingCount = 0, qCompletedCount = 0,
        qFailedCount = 0, qDeadCount = 0\<rparr>"

section \<open>Scripts\<close>

definition reserveScript ::
    "'s redis \<Rightarrow> string \<Rightarrow> string \<Rightarrow> int \<Rightarrow> string \<Rightarrow> string \<Rightarrow> 's \<Rightarrow> (string \<times> string) list option res \<times> 's" where
  "reserveScript R queue job_prefix now status updated_at =
     bindS (readS (rZRangeByScoreFirst R queue now)) (\<lambda>jobs.
       case jobs of
         [] \<Rightarrow> retS None
       | job_id # _ \<Rightarrow>
           bindS (readS (rHGet R (job_prefix @ job_id) ''status'')) (\<lambda>st.
             if st \<noteq> Some ''pending''
             then bindS (rZRem R queue job_id) (\<lambda>_. retS None)
             else
               bindS (rHSet R (job_prefix @ job_id) [(''status'', status), (''updated_at'', updated_at)]) (\<lambda>_.
               bindS (rZRem R queue job_id) (\<lambda>_.
               bindS (rSAdd R (''status:'' @ queue @ '':running'') job_id) (\<lambda>_.
               bindS (rSRem R (''status:'' @ queue @ '':pending'') job_id) (\<lambda>_.
               bindS (readS (rHGetAll R (job_prefix @ job_id))) (\<lambda>fields. retS (Some fields))))))))"

text \<open>The numbers of a Lua script are doubles: \<open>tonumber\<close> of an integer argument rounds as
  the conversion of an \<open>int64\<close> does.\<close>

definition nackScript ::
    "'s redis \<Rightarrow> string \<Rightarrow> string \<Rightarrow> int \<Rightarrow> int \<Rightarrow> string \<Rightarrow> string \<Rightarrow> int \<Rightarrow> 's \<Rightarrow> string res \<times> 's" where
  "nackScript R job_key queue_name arg1 arg2 last_error now arg5 =
     (let attempts = f64_of_int (f64_of_int arg1 + 1);
          max_attempts = f64_of_int arg2;
          retry_at = f64_of_int arg5
      in bindS (readS (rHGet R job_key ''id'')) (\<lambda>id.
         case id of
           None \<Rightarrow> (\<lambda>s. (Err (ErrExt ''job not found''), s))
         | Some job_id \<Rightarrow>
             bindS (rHSet R job_key
               [(''attempts'', rNum R attempts), (''last_error'', last_error),
                (''failed_at'', now), (''updated_at'', now)]) (\<lambda>_.
             bindS (rSRem R (''status:queue:'' @ queue_name @ '':running'') job_id) (\<lambda>_.
             if attempts \<ge> max_attempts then
               bindS (rHSet R job_key [(''status'', ''dead'')]) (\<lambda>_.
               bindS (rSAdd R (''status:queue:'' @ queue_name @ '':dead'') job_id) (\<lambda>_.
               retS ''dead''))
             else
               bindS (rHSet R job_key [(''status'', ''pending''), (''scheduled_at'', rNum R retry_at)]) (\<lambda>_.
               bindS (rZAdd R (''queue:'' @ queue_name) retry_at job_id) (\<lambda>_.
               bindS (rSAdd R (''status:queue:'' @ queue_name @ '':pending'') job_id) (\<lambda>_.
               retS ''pending'')))))))"

definition queueStatsScript :: "'s redis \<Rightarrow> string \<Rightarrow> 's \<Rightarrow> reply res \<times> 's" where
  "queueStatsScript R queue_name =
     bindS (readS (rZCard R (''queue:'' @ queue_name))) (\<lambda>size.
     bindS (readS (rSCard R (''status:queue:'' @ queue_name @ '':running''))) (\<lambda>running.
     bindS (readS (rSCard R (''status:queue:'' @ queue_name @ '':completed''))) (\<lambda>completed.
     bindS (readS (rSCard R (''status:queue:'' @ queue_name @ '':failed''))) (\<lambda>failed.
     bindS (readS (rSCard R (''status:queue:'' @ queue_name @ '':dead''))) (\<lambda>dead.
     retS (RArr
       [RStr ''name'', RStr queue_name, RStr ''size'', RInt size,
        RStr ''processing_count'', RInt running, RStr ''completed_count'', RInt completed,
        RStr ''failed_count'', RInt failed, RStr ''dead_count'', RInt dead]))))))"

section \<open>The methods\<close>

text \<open>The commands of a pipeline; the result is the first error.\<close>

fun pipeline :: "('s \<Rightarrow> unit res \<times> 's) list \<Rightarrow> 's \<Rightarrow> unit res \<times> 's" where
  "pipeline [] s = (Ret (), s)"
| "pipeline (c # cs) s =
     (case c s of (r, s1) \<Rightarrow>
        (case pipeline cs s1 of (r', s2) \<Rightarrow> ((case r of Ret _ \<Rightarrow> r' | _ \<Rightarrow> r), s2)))"

definition jobData :: "job \<Rightarrow> (string \<times> string) list" where
  "jobData j =
     [(''id'', jID j), (''type'', jType j), (''queue'', jQueue j), (''payload'', jPayload j),
      (''status'', jStatus j), (''priority'', itoa (jPriority j)),
      (''attempts'', itoa (jAttempts j)), (''max_attempts'', itoa (jMaxAttempts j)),
      (''scheduled_at'', itoa (unix (jScheduledAt j))),
      (''created_at'', itoa (unix (jCreatedAt j))),
      (''updated_at'', itoa (unix (jUpdatedAt j))), (''last_error'', jLastError j)]"

definition rdEnqueue :: "'s redis \<Rightarrow> env \<Rightarrow> job \<Rightarrow> 's \<Rightarrow> unit res \<times> 's" where
  "rdEnqueue R e j s =
     (case Validate j of
        Some x \<Rightarrow> (Err (ErrWrap ''invalid job'' x), s)
      | None \<Rightarrow>
          wrap_err ''failed to enqueue job'' (exchange (io e 0)
            (pipeline
              [rHSet R (jobKey (jID j)) (jobData j),
               rZAdd R (queueKey (jQueue j)) (f64_of_int (unix (jScheduledAt j))) (jID j),
               rSAdd R (statusKey (jQueue j) (jStatus j)) (jID j)]) s))"

text \<open>The reply of \<open>reserveScript.Run\<close>: a nil reply is the error \<open>redis.Nil\<close>.\<close>

definition reserve_reply :: "(string \<times> string) list option res \<times> 's \<Rightarrow> reply res \<times> 's" where
  "reserve_reply x =
     (case x of
        (Ret None, s) \<Rightarrow> (Err ErrRedisNil, s)
      | (Ret (Some kvs), s) \<Rightarrow> (Ret (RArr (concat (map (\<lambda>(k, v). [RStr k, RStr v]) kvs))), s)
      | (Err e, s) \<Rightarrow> (Err e, s)
      | (Panic p, s) \<Rightarrow> (Panic p, s))"

definition rdReserve :: "'s redis \<Rightarrow> env \<Rightarrow> string \<Rightarrow> 's \<Rightarrow> job option res \<times> 's" where
  "rdReserve R e queueName s =
     (let now = clk e 0 in
      case exchange (io e 0)
             (\<lambda>s. reserve_reply (reserveScript R (queueKey queueName) ''job:''
               (f64_of_int (unix now)) StatusRunning (itoa (unix now)) s)) s of
        (Panic p, s') \<Rightarrow> (Panic p, s')
      | (Err x, s') \<Rightarrow>
          if x = ErrRedisNil then (Ret None, s')
          else (Err (ErrWrap ''failed to reserve job'' x), s')
      | (Ret result, s') \<Rightarrow>
          (case result of
             RNil \<Rightarrow> (Ret None, s')
           | RArr flds \<Rightarrow>
               (case parseJobFromHash flds of
                  Panic p \<Rightarrow> (Panic p, s')
                | Err x \<Rightarrow> (Err (ErrWrap ''failed to parse job'' x), s')
                | Ret j \<Rightarrow> (Ret (Some j), s'))
           | _ \<Rightarrow> (Err (ErrNew ''unexpected result type from reserve script''), s')))"

text \<open>
  The first pipeline of \<open>Ack\<close>: \<open>HGET\<close> of the queue (an absent field is the error
  \<open>redis.Nil\<close>) and \<open>HSET\<close> of the status. \<open>Exec\<close> reports the first error; both commands
  have run by then. The result is that of the \<open>HGET\<close>.
\<close>

definition hget_cmd :: "'s redis \<Rightarrow> string \<Rightarrow> string \<Rightarrow> 's \<Rightarrow> string res" where
  "hget_cmd R k f s =
     (case rHGet R k f s of
        Ret None \<Rightarrow> Err ErrRedisNil | Ret (Some v) \<Rightarrow> Ret v | Err x \<Rightarrow> Err x | Panic p \<Rightarrow> Panic p)"

definition ack_pipe :: "'s redis \<Rightarrow> string \<Rightarrow> string \<Rightarrow> 's \<Rightarrow> string res res \<times> 's" where
  "ack_pipe R jobID now s =
     (let queueCmd = hget_cmd R (jobKey jobID) ''queue'' s in
      case rHSet R (jobKey jobID)
             [(''status'', StatusCompleted), (''completed_at'', now), (''updated_at'', now)] s of
        (r, s') \<Rightarrow>
          ((case queueCmd of
              Panic p \<Rightarrow> Panic p
            | Err x \<Rightarrow> Err x
            | Ret q \<Rightarrow> (case r of Ret _ \<Rightarrow> Ret queueCmd | Err x \<Rightarrow> Err x | Panic p \<Rightarrow> Panic p)), s'))"

definition rdAck :: "'s redis \<Rightarrow> env \<Rightarrow> string \<Rightarrow> 's \<Rightarrow> unit res \<times> 's" where
  "rdAck R e jobID =
     bindS (\<lambda>s. wrap_err ''failed to ack job''
       (exchange (io e 0) (ack_pipe R jobID (itoa (unix (clk e 0)))) s)) (\<lambda>queueCmd.
     case queueCmd of
       Panic p \<Rightarrow> (\<lambda>s. (Panic p, s))
     | Err x \<Rightarrow> (\<lambda>s. (Err (ErrWrap ''failed to get job queue'' x), s))
     | Ret queueName \<Rightarrow>
         (\<lambda>s. wrap_err ''failed to update status sets'' (exchange (io e 1)
           (pipeline
             [rSRem R (statusKey queueName StatusRunning) jobID,
              rSAdd R (statusKey queueName StatusCompleted) jobID]) s)))"

definition rdNack :: "'s redis \<Rightarrow> env \<Rightarrow> string \<Rightarrow> goerr option \<Rightarrow> int \<Rightarrow> 's \<Rightarrow> unit res \<times> 's" where
  "rdNack R e jobID jobErr retryDelay =
     bindS (\<lambda>s. wrap_err ''failed to get job'' (exchange (io e 0) (readS (rHGetAll R (jobKey jobID))) s)) (\<lambda>kvs.
     let data = map_of kvs in
     if length kvs = 0 then (\<lambda>s. (Err (notFoundError jobID), s))
     else case parse_int (field data ''attempts'') of
       None \<Rightarrow> (\<lambda>s. (Err (ErrWrap ''invalid attempts value'' (atoi_error (field data ''attempts''))), s))
     | Some attempts \<Rightarrow>
         (case parse_int (field data ''max_attempts'') of
            None \<Rightarrow> (\<lambda>s. (Err (ErrWrap ''invalid max_attempts value''
                              (atoi_error (field data ''max_attempts''))), s))
          | Some maxAttempts \<Rightarrow>
              (let queueName = field data ''queue'';
                   lastError = (case jobErr of None \<Rightarrow> '''' | Some x \<Rightarrow> err_msg x);
                   now = clk e 0;
                   retryAt = time_add now retryDelay
               in bindS (\<lambda>s. wrap_err ''failed to nack job'' (exchange (io e 1)
                    (nackScript R (jobKey jobID) queueName attempts maxAttempts lastError
                      (itoa (unix now)) (unix retryAt)) s)) (\<lambda>_. retS ()))))"

definition rdMoveToDLQ :: "'s redis \<Rightarrow> env \<Rightarrow> string \<Rightarrow> 's \<Rightarrow> unit res \<times> 's" where
  "rdMoveToDLQ R e jobID s =
     (case fetch (io e 0) (hget_cmd R (jobKey jobID) ''queue'' s) of
        Panic p \<Rightarrow> (Panic p, s)
      | Err x \<Rightarrow>
          if x = ErrRedisNil then (Err (notFoundError jobID), s)
          else (Err (ErrWrap ''failed to get job queue'' x), s)
      | Ret queueName \<Rightarrow>
          (let now = clk e 0 in
           wrap_err ''failed to move job to DLQ'' (exchange (io e 1)
             (pipeline
               [rHSet R (jobKey jobID) [(''status'', StatusDead), (''updated_at'', itoa (unix now))],
                rZRem R (queueKey queueName) jobID,
                rSRem R (statusKey queueName StatusRunning) jobID,
                rSRem R (statusKey queueName StatusFailed) jobID,
                rSAdd R (statusKey queueName StatusDead) jobID]) s)))"

text \<open>The body of the loop of \<open>ListQueues\<close>; \<open>key[6:]\<close> panics on a shorter string.\<close>

fun list_queues_loop :: "'s redis \<Rightarrow> (nat \<Rightarrow> fault) \<Rightarrow> string list \<Rightarrow> 's \<Rightarrow> queue_stats list res \<times> 's" where
  "list_queues_loop R f [] s = (Ret [], s)"
| "list_queues_loop R f (key # ks) s =
     (if length key < 6 then (Panic ''slice bounds out of range'', s)
      else
       bindS (\<lambda>s. wrap_err ''failed to get queue stats''
         (exchange (f 0) (queueStatsScript R (drop 6 key)) s)) (\<lambda>result s.
       bindS (list_queues_loop R (\<lambda>n. f (Suc n)) ks) (\<lambda>qs.
         case result of
           RArr flds \<Rightarrow> retS (parseQueueStats flds # qs)
         | _ \<Rightarrow> retS qs) s) s)"

definition rdListQueues :: "'s redis \<Rightarrow> env \<Rightarrow> 's \<Rightarrow> queue_stats list option res \<times> 's" where
  "rdListQueues R e =
     bindS (\<lambda>s. wrap_err ''failed to list queue keys'' (exchange (io e 0) (readS (rKeys R ''queue:*'')) s)) (\<lambda>ks.
     bindS (list_queues_loop R (\<lambda>n. io e (Suc n)) ks) (\<lambda>qs. retS (Some qs)))"

definition rdGetJobAt :: "'s redis \<Rightarrow> fault \<Rightarrow> string \<Rightarrow> 's \<Rightarrow> job res" where
  "rdGetJobAt R f jobID s =
     (case fetch f (rHGetAll R (jobKey jobID) s) of
        Panic p \<Rightarrow> Panic p
      | Err x \<Rightarrow> Err (ErrWrap ''failed to get job'' x)
      | Ret kvs \<Rightarrow>
          if length kvs = 0 then Err (notFoundError jobID)
          else Ret (parseJobFromMap (map_of kvs)))"

definition rdGetJob :: "'s redis \<Rightarrow> env \<Rightarrow> string \<Rightarrow> 's \<Rightarrow> job res \<times> 's" where
  "rdGetJob R e jobID s = (rdGetJobAt R (io e 0) jobID s, s)"

text \<open>The ids \<open>ListJobs\<close> starts from; \<open>key[4:]\<close> of the keys \<open>job:*\<close>.\<close>

definition list_ids :: "'s redis \<Rightarrow> fault \<Rightarrow> string \<Rightarrow> string \<Rightarrow> 's \<Rightarrow> string list res" where
  "list_ids R f queueName status s =
     (if status \<noteq> '''' then
        (case fetch f (rSMembers R (statusKey queueName status) s) of
           Panic p \<Rightarrow> Panic p
         | Err x \<Rightarrow> Err (ErrWrap ''failed to get job IDs from status set'' x)
         | Ret ids \<Rightarrow> Ret ids)
      else if queueName \<noteq> '''' then
        (case fetch f (rZRangeAll R (queueKey queueName) s) of
           Panic p \<Rightarrow> Panic p
         | Err x \<Rightarrow> Err (ErrWrap ''failed to get job IDs from queue'' x)
         | Ret ids \<Rightarrow> Ret ids)
      else
        (case fetch f (rKeys R ''job:*'' s) of
           Panic p \<Rightarrow> Panic p
         | Err x \<Rightarrow> Err (ErrWrap ''failed to list job keys'' x)
         | Ret ks \<Rightarrow> if \<exists>k \<in> set ks. length k < 4 then Panic ''slice bounds out of range''
                     else Ret (map (drop 4) ks)))"

text \<open>The pagination: \<open>jobIDs[offset:end]\<close> panics unless \<open>0 <= offset <= end\<close> (\<open>end\<close> never
  exceeds the length); the sum is an \<open>int\<close> and wraps around.\<close>

definition paginate :: "int \<Rightarrow> int \<Rightarrow> string list \<Rightarrow> string list res" where
  "paginate limit offset jobIDs =
     (if offset \<ge> int (length jobIDs) then Ret []
      else
        (let e = wrap64 (offset + limit);
             e = (if limit \<le> 0 \<or> e > int (length jobIDs) then int (length jobIDs) else e)
         in if 0 \<le> offset \<and> offset \<le> e then Ret (drop (nat offset) (take (nat e) jobIDs))
            else Panic ''slice bounds out of range''))"

fun fetch_jobs :: "'s redis \<Rightarrow> (nat \<Rightarrow> fault) \<Rightarrow> string list \<Rightarrow> 's \<Rightarrow> job list res" where
  "fetch_jobs R f [] s = Ret []"
| "fetch_jobs R f (i # ids) s =
     (case rdGetJobAt R (f 0) i s of
        Panic p \<Rightarrow> Panic p
      | Err x \<Rightarrow> fetch_jobs R (\<lambda>n. f (Suc n)) ids s
      | Ret j \<Rightarrow>
          (case fetch_jobs R (\<lambda>n. f (Suc n)) ids s of
             Ret js \<Rightarrow> Ret (j # js) | Err x \<Rightarrow> Err x | Panic p \<Rightarrow> Panic p))"

definition rdListJobs ::
    "'s redis \<Rightarrow> env \<Rightarrow> string \<Rightarrow> string \<Rightarrow> int \<Rightarrow> int \<Rightarrow> 's \<Rightarrow> job list option res \<times> 's" where
  "rdListJobs R e queueName status limit offset =
     bindS (readS (list_ids R (io e 0) queueName status)) (\<lambda>jobIDs.
     bindS (readS (\<lambda>s. paginate limit offset jobIDs)) (\<lambda>page.
     bindS (readS (fetch_jobs R (\<lambda>n. io e (Suc n)) page)) (\<lambda>jobs. retS (Some jobs))))"

definition rdDeleteJob :: "'s redis \<Rightarrow> env \<Rightarrow> string \<Rightarrow> 's \<Rightarrow> unit res \<times> 's" where
  "rdDeleteJob R e jobID s =
     (case fetch (io e 0) (rHGetAll R (jobKey jobID) s) of
        Panic p \<Rightarrow> (Panic p, s)
      | Err x \<Rightarrow> (Err (ErrWrap ''failed to get job'' x), s)
      | Ret kvs \<Rightarrow>
          if length kvs = 0 then (Err (notFoundError jobID), s)
          else
            (let queueName = field (map_of kvs) ''queue'';
                 status = field (map_of kvs) ''status''
             in wrap_err ''failed to delete job'' (exchange (io e 1)
                  (pipeline
                    [rDel R (jobKey jobID),
                     rZRem R (queueKey queueName) jobID,
                     rSRem R (statusKey queueName status) jobID]) s)))"

text \<open>The backend as a value of the interface.\<close>

definition RedisBackend :: "'s redis \<Rightarrow> 's backend" where
  "RedisBackend R =
     \<lparr>beEnqueue = rdEnqueue R, beReserve = rdReserve R, beAck = rdAck R, beNack = rdNack R,
      beMoveToDLQ = rdMoveToDLQ R, beListQueues = rdListQueues R, beListJobs = rdListJobs R,
      beGetJob = rdGetJob R, beDeleteJob = rdDeleteJob R\<rparr>"

end
