(* ===== verification/RedisStore.thy ===== *)
theory RedisStore
  imports RedisBackend
begin

text \<open>
  The Redis backend as a provider of the \<open>Backend\<close> contract: the key families never
  collide, the parser reads a hash field by field, and an invariant ties the hashes of the
  jobs to the sorted sets of the queues.
\<close>

section \<open>Key families\<close>

lemma key_inj [key_simps]:
  "jobKey i = jobKey i' \<longleftrightarrow> i = i'" "queueKey q = queueKey q' \<longleftrightarrow> q = q'"
  by (simp_all add: jobKey_def queueKey_def)

lemma key_families [key_simps]:
  "jobKey i \<noteq> queueKey q" "queueKey q \<noteq> jobKey i" "jobKey i \<noteq> statusKey q st"
  "statusKey q st \<noteq> jobKey i" "queueKey q \<noteq> statusKey q' st" "statusKey q' st \<noteq> queueKey q"
  by (simp_all add: jobKey_def queueKey_def statusKey_def)

lemma statusKey_inj:
  assumes "CHR '':'' \<notin> set st" and "CHR '':'' \<notin> set st'"
  shows "statusKey q st = statusKey q' st' \<longleftrightarrow> q = q' \<and> st = st'"
proof
  assume "statusKey q st = statusKey q' st'"
  then have eq: "q @ CHR '':'' # st = q' @ CHR '':'' # st'" by (simp add: statusKey_def)
  have "rev st @ CHR '':'' # rev q = rev st' @ CHR '':'' # rev q'"
    using arg_cong [OF eq, of rev] by simp
  then have "rev st = rev st' \<and> rev q = rev q'"
    by (rule split_at_unique) (use assms in simp_all)
  then show "q = q' \<and> st = st'" by simp
qed simp

lemma known_status_no_colon: "known_status st \<Longrightarrow> CHR '':'' \<notin> set st"
  by (auto simp: known_status_def status_defs)

text \<open>The keys the scripts put together are the ones the Go functions make.\<close>

lemma script_keys [key_simps]:
  "''job:'' @ i = jobKey i" "''queue:'' @ q = queueKey q"
  "''status:'' @ queueKey q @ '':running'' = statusKey q StatusRunning"
  "''status:'' @ queueKey q @ '':pending'' = statusKey q StatusPending"
  "''status:queue:'' @ q @ '':running'' = statusKey q StatusRunning"
  "''status:queue:'' @ q @ '':pending'' = statusKey q StatusPending"
  "''status:queue:'' @ q @ '':dead'' = statusKey q StatusDead"
  "''status:queue:'' @ q @ '':completed'' = statusKey q StatusCompleted"
  "''status:queue:'' @ q @ '':failed'' = statusKey q StatusFailed"
  by (simp_all add: jobKey_def queueKey_def statusKey_def status_defs)

section \<open>The parser reads field by field\<close>

lemma field_upd [simp]: "field (m(k \<mapsto> v)) k' = (if k' = k then v else field m k')"
  by (simp add: field_def)

lemma parse_or_itoa [simp]: "int64_ok n \<Longrightarrow> parse_or d f (itoa n) = f n"
  by (simp add: parse_or_def)

lemma parse_opt_time_itoa: "int64_ok n \<Longrightarrow> 0 < n \<Longrightarrow> parse_opt_time (itoa n) = Some (from_unix n)"
  by (simp add: parse_opt_time_def)

lemma parse_upd_text [parse_simps]:
  "parseJobFromMap (m(''status'' \<mapsto> v)) = (parseJobFromMap m)\<lparr>jStatus := v\<rparr>"
  "parseJobFromMap (m(''last_error'' \<mapsto> v)) = (parseJobFromMap m)\<lparr>jLastError := v\<rparr>"
  by (simp_all add: parseJobFromMap_def)

lemma parse_upd_num [parse_simps]:
  "int64_ok n \<Longrightarrow> parseJobFromMap (m(''attempts'' \<mapsto> itoa n)) = (parseJobFromMap m)\<lparr>jAttempts := n\<rparr>"
  "int64_ok n \<Longrightarrow> parseJobFromMap (m(''scheduled_at'' \<mapsto> itoa n)) =
     (parseJobFromMap m)\<lparr>jScheduledAt := from_unix n\<rparr>"
  "int64_ok n \<Longrightarrow> parseJobFromMap (m(''updated_at'' \<mapsto> itoa n)) =
     (parseJobFromMap m)\<lparr>jUpdatedAt := from_unix n\<rparr>"
  "int64_ok n \<Longrightarrow> 0 < n \<Longrightarrow> parseJobFromMap (m(''completed_at'' \<mapsto> itoa n)) =
     (parseJobFromMap m)\<lparr>jCompletedAt := Some (from_unix n)\<rparr>"
  "int64_ok n \<Longrightarrow> 0 < n \<Longrightarrow> parseJobFromMap (m(''failed_at'' \<mapsto> itoa n)) =
     (parseJobFromMap m)\<lparr>jFailedAt := Some (from_unix n)\<rparr>"
  by (simp_all add: parseJobFromMap_def parse_opt_time_itoa)

definition rd_stamp :: "time \<Rightarrow> time" where
  "rd_stamp t = from_unix (unix t)"

text \<open>What is left of a job written by \<open>Enqueue\<close>: whole seconds; the completion and failure
  times are not written.\<close>

definition rd_norm :: "job \<Rightarrow> job" where
  "rd_norm j =
     j\<lparr>jScheduledAt := rd_stamp (jScheduledAt j), jCreatedAt := rd_stamp (jCreatedAt j),
       jUpdatedAt := rd_stamp (jUpdatedAt j), jCompletedAt := None, jFailedAt := None\<rparr>"

definition rd_storable :: "job \<Rightarrow> bool" where
  "rd_storable j \<longleftrightarrow> int64_ok (jPriority j) \<and> int64_ok (jAttempts j) \<and> int64_ok (jMaxAttempts j) \<and>
     \<bar>unix (jScheduledAt j)\<bar> \<le> 2 ^ 53 \<and> int64_ok (unix (jCreatedAt j)) \<and>
     int64_ok (unix (jUpdatedAt j))"

lemma int64_of_53: "\<bar>n\<bar> \<le> 2 ^ 53 \<Longrightarrow> int64_ok n"
  by (auto simp: int64_ok_def abs_le_iff)

lemma parse_jobData: "rd_storable j \<Longrightarrow> parseJobFromMap (map_of (rev (jobData j))) = rd_norm j"
  by (simp add: parseJobFromMap_def jobData_def field_def rd_norm_def rd_storable_def rd_stamp_def
      parse_opt_time_def parse_int_def parse_dec_def int64_of_53)

lemma fields_map_flat:
  "fields_map (concat (map (\<lambda>(k, v). [RStr k, RStr v]) kvs)) m = m ++ map_of (rev kvs)"
  by (induction kvs arbitrary: m) auto

lemma parseJobFromHash_flat:
  "distinct (map fst kvs) \<Longrightarrow>
   parseJobFromHash (concat (map (\<lambda>(k, v). [RStr k, RStr v]) kvs)) = Ret (parseJobFromMap (map_of kvs))"
proof -
  assume d: "distinct (map fst kvs)"
  have "even (length (concat (map (\<lambda>(k, v). [RStr k, RStr v]) kvs)))"
    by (induction kvs) auto
  moreover have "map_of (rev kvs) = map_of kvs" using d by (rule map_of_rev_distinct)
  ultimately show ?thesis by (simp add: parseJobFromHash_def fields_map_flat)
qed

section \<open>The keyspace as the backend sees it\<close>

text \<open>
  \<open>hash_of\<close>, \<open>queue_of\<close> and \<open>status_of\<close> read the three families of keys. In a typed
  keyspace every key of a family holds the type the backend uses it for.
\<close>

type_synonym 's obs_hash = "'s \<Rightarrow> string \<Rightarrow> string \<Rightarrow> string option"
type_synonym 's obs_zset = "'s \<Rightarrow> string \<Rightarrow> string \<Rightarrow> int option"
type_synonym 's obs_set = "'s \<Rightarrow> string \<Rightarrow> string set"

definition rd_typed :: "'s obs_hash \<Rightarrow> 's obs_zset \<Rightarrow> 's obs_set \<Rightarrow> 's \<Rightarrow> bool" where
  "rd_typed H Z S s \<longleftrightarrow>
     (\<forall>k. H s k \<noteq> Map.empty \<longrightarrow> (\<exists>i. k = jobKey i)) \<and>
     (\<forall>k. Z s k \<noteq> Map.empty \<longrightarrow> (\<exists>q. k = queueKey q)) \<and>
     (\<forall>k. S s k \<noteq> {} \<longrightarrow> (\<exists>q st. k = statusKey q st))"

lemma typed_families:
  assumes "rd_typed H Z S s"
  shows "Z s (jobKey i) = Map.empty" "S s (jobKey i) = {}" "H s (queueKey q) = Map.empty"
    "S s (queueKey q) = {}" "H s (statusKey q st) = Map.empty" "Z s (statusKey q st) = Map.empty"
  using assms unfolding rd_typed_def by (metis key_families)+

lemma typedI:
  assumes "rd_typed H Z S s" and "\<And>k. (\<forall>i. k \<noteq> jobKey i) \<Longrightarrow> H s' k = H s k"
    and "\<And>k. (\<forall>q. k \<noteq> queueKey q) \<Longrightarrow> Z s' k = Z s k"
    and "\<And>k. (\<forall>q st. k \<noteq> statusKey q st) \<Longrightarrow> S s' k = S s k"
  shows "rd_typed H Z S s'"
  using assms unfolding rd_typed_def by metis

context redis_server
begin

abbreviation typed :: "'s \<Rightarrow> bool" where
  "typed \<equiv> rd_typed H Z S"

text \<open>Each command on a key of its family succeeds, changes that key only and keeps the
  keyspace typed.\<close>

lemma job_hset:
  assumes "typed s" "kvs \<noteq> []"
  obtains s' where "rHSet R (jobKey i) kvs s = (Ret (), s')"
    "H s' = (H s)(jobKey i := H s (jobKey i) ++ map_of (rev kvs))" "Z s' = Z s" "S s' = S s" "typed s'"
proof -
  note k = typed_families(1,2) [OF assms(1), of i]
  let ?s' = "snd (rHSet R (jobKey i) kvs s)"
  have "rHSet R (jobKey i) kvs s = (Ret (), ?s')"
    using hset_ret [OF k assms(2)] by (metis prod.collapse)
  moreover note hset_H [OF k assms(2)] hset_Z [OF k assms(2)] hset_S [OF k assms(2)]
  moreover from this have "typed ?s'" using assms(1) by (auto intro: typedI)
  ultimately show thesis by (rule that)
qed

lemma job_hset_Cons:
  assumes "typed s"
  obtains s' where "rHSet R (jobKey i) (kv # kvs) s = (Ret (), s')"
    "H s' = (H s)(jobKey i := H s (jobKey i) ++ map_of (rev (kv # kvs)))" "Z s' = Z s" "S s' = S s"
    "typed s'"
  by (rule job_hset [OF assms, of "kv # kvs" i]) (simp, rule that)

lemma job_del:
  assumes "typed s"
  obtains s' where "rDel R (jobKey i) s = (Ret (), s')"
    "H s' = (H s)(jobKey i := Map.empty)" "Z s' = Z s" "S s' = S s" "typed s'"
proof -
  note k = typed_families(1,2) [OF assms, of i]
  let ?s' = "snd (rDel R (jobKey i) s)"
  have "rDel R (jobKey i) s = (Ret (), ?s')" using del_ret by (metis prod.collapse)
  moreover have "H ?s' = (H s)(jobKey i := Map.empty)" by (rule del_H)
  moreover have "Z ?s' = Z s" "S ?s' = S s"
    using del_Z [of "jobKey i" s] del_S [of "jobKey i" s] k by (metis fun_upd_idem)+
  moreover from calculation have "typed ?s'" using assms by (auto intro: typedI)
  ultimately show thesis by (rule that)
qed

lemma queue_zadd:
  assumes "typed s"
  obtains s' where "rZAdd R (queueKey q) sc m s = (Ret (), s')" "H s' = H s"
    "Z s' = (Z s)(queueKey q := (Z s (queueKey q))(m \<mapsto> sc))" "S s' = S s" "typed s'"
proof -
  note k = typed_families(3,4) [OF assms, of q]
  let ?s' = "snd (rZAdd R (queueKey q) sc m s)"
  have "rZAdd R (queueKey q) sc m s = (Ret (), ?s')"
    using zadd_ret [OF k] by (metis prod.collapse)
  moreover note zadd_H [OF k] zadd_Z [OF k] zadd_S [OF k]
  moreover from this have "typed ?s'" using assms by (auto intro: typedI)
  ultimately show thesis by (rule that)
qed

lemma queue_zrem:
  assumes "typed s"
  obtains s' where "rZRem R (queueKey q) m s = (Ret (), s')" "H s' = H s"
    "Z s' = (Z s)(queueKey q := (Z s (queueKey q))(m := None))" "S s' = S s" "typed s'"
proof -
  note k = typed_families(3,4) [OF assms, of q]
  let ?s' = "snd (rZRem R (queueKey q) m s)"
  have "rZRem R (queueKey q) m s = (Ret (), ?s')"
    using zrem_ret [OF k] by (metis prod.collapse)
  moreover note zrem_H [OF k] zrem_Z [OF k] zrem_S [OF k]
  moreover from this have "typed ?s'" using assms by (auto intro: typedI)
  ultimately show thesis by (rule that)
qed

lemma status_sadd:
  assumes "typed s"
  obtains s' where "rSAdd R (statusKey q st) m s = (Ret (), s')" "H s' = H s" "Z s' = Z s"
    "S s' = (S s)(statusKey q st := insert m (S s (statusKey q st)))" "typed s'"
proof -
  note k = typed_families(5,6) [OF assms, of q st]
  let ?s' = "snd (rSAdd R (statusKey q st) m s)"
  have "rSAdd R (statusKey q st) m s = (Ret (), ?s')"
    using sadd_ret [OF k] by (metis prod.collapse)
  moreover note sadd_H [OF k] sadd_Z [OF k] sadd_S [OF k]
  moreover from this have "typed ?s'" using assms by (auto intro: typedI)
  ultimately show thesis by (rule that)
qed

lemma status_srem:
  assumes "typed s"
  obtains s' where "rSRem R (statusKey q st) m s = (Ret (), s')" "H s' = H s" "Z s' = Z s"
    "S s' = (S s)(statusKey q st := S s (statusKey q st) - {m})" "typed s'"
proof -
  note k = typed_families(5,6) [OF assms, of q st]
  let ?s' = "snd (rSRem R (statusKey q st) m s)"
  have "rSRem R (statusKey q st) m s = (Ret (), ?s')"
    using srem_ret [OF k] by (metis prod.collapse)
  moreover note srem_H [OF k] srem_Z [OF k] srem_S [OF k]
  moreover from this have "typed ?s'" using assms by (auto intro: typedI)
  ultimately show thesis by (rule that)
qed

lemma job_hget: "typed s \<Longrightarrow> rHGet R (jobKey i) f s = Ret (H s (jobKey i) f)"
  by (rule hget) (rule typed_families, assumption)+

lemma job_hgetall:
  assumes "typed s"
  obtains kvs where "rHGetAll R (jobKey i) s = Ret kvs" "map_of kvs = H s (jobKey i)"
    "distinct (map fst kvs)"
  using hgetall [of s "jobKey i"] typed_families(1,2) [OF assms, of i] by blast

end

section \<open>The effect of each method\<close>

text \<open>Each method of the interface in a calm environment and a typed keyspace: its result and
  the three views of the keyspace it leaves.\<close>

context redis_server
begin

lemma rdEnqueue_effect:
  assumes t: "typed s" and e: "calm e" and v: "Validate j = None"
  obtains s' where "rdEnqueue R e j s = (Ret (), s')" "typed s'"
    "H s' = (H s)(jobKey (jID j) := H s (jobKey (jID j)) ++ map_of (rev (jobData j)))"
    "Z s' = (Z s)(queueKey (jQueue j) :=
       (Z s (queueKey (jQueue j)))(jID j \<mapsto> f64_of_int (unix (jScheduledAt j))))"
    "S s' = (S s)(statusKey (jQueue j) (jStatus j) :=
       insert (jID j) (S s (statusKey (jQueue j) (jStatus j))))"
proof -
  obtain s1 where 1: "rHSet R (jobKey (jID j)) (jobData j) s = (Ret (), s1)"
    "H s1 = (H s)(jobKey (jID j) := H s (jobKey (jID j)) ++ map_of (rev (jobData j)))"
    "Z s1 = Z s" "S s1 = S s" "typed s1"
    by (rule job_hset [OF t, of "jobData j" "jID j"]) (simp add: jobData_def)
  obtain s2 where 2: "rZAdd R (queueKey (jQueue j)) (f64_of_int (unix (jScheduledAt j))) (jID j) s1
      = (Ret (), s2)" "H s2 = H s1"
    "Z s2 = (Z s1)(queueKey (jQueue j) :=
       (Z s1 (queueKey (jQueue j)))(jID j \<mapsto> f64_of_int (unix (jScheduledAt j))))"
    "S s2 = S s1" "typed s2"
    by (rule queue_zadd [OF 1(5)])
  obtain s3 where 3: "rSAdd R (statusKey (jQueue j) (jStatus j)) (jID j) s2 = (Ret (), s3)"
    "H s3 = H s2" "Z s3 = Z s2" "S s3 = (S s2)(statusKey (jQueue j) (jStatus j) :=
       insert (jID j) (S s2 (statusKey (jQueue j) (jStatus j))))" "typed s3"
    by (rule status_sadd [OF 2(5)])
  show thesis
  proof (rule that)
    show "rdEnqueue R e j s = (Ret (), s3)"
      using 1(1) 2(1) 3(1) e v by (simp add: rdEnqueue_def calm_io)
  qed (simp_all add: 1 2 3)
qed

text \<open>The part of the reservation script after the choice of the first ready entry.\<close>

lemma reserve_script_stale:
  assumes t: "typed s" and f: "rZRangeByScoreFirst R (queueKey q) mx s = Ret [i]"
    and st: "H s (jobKey i) ''status'' \<noteq> Some ''pending''"
  obtains s' where "reserveScript R (queueKey q) ''job:'' mx run up s = (Ret None, s')" "typed s'"
    "H s' = H s" "Z s' = (Z s)(queueKey q := (Z s (queueKey q))(i := None))" "S s' = S s"
proof -
  obtain s' where z: "rZRem R (queueKey q) i s = (Ret (), s')" "H s' = H s"
    "Z s' = (Z s)(queueKey q := (Z s (queueKey q))(i := None))" "S s' = S s" "typed s'"
    by (rule queue_zrem [OF t])
  show thesis
    by (rule that [of s'], unfold reserveScript_def script_keys)
      (use t f st z in \<open>simp_all add: go_simps job_hget\<close>)
qed

lemma reserve_script_take:
  assumes t: "typed s" and f: "rZRangeByScoreFirst R (queueKey q) mx s = Ret [i]"
    and st: "H s (jobKey i) ''status'' = Some ''pending''"
  obtains s' kvs where "reserveScript R (queueKey q) ''job:'' mx run up s = (Ret (Some kvs), s')"
    "typed s'" "map_of kvs = (H s (jobKey i))(''status'' \<mapsto> run, ''updated_at'' \<mapsto> up)"
    "distinct (map fst kvs)"
    "H s' = (H s)(jobKey i := (H s (jobKey i))(''status'' \<mapsto> run, ''updated_at'' \<mapsto> up))"
    "Z s' = (Z s)(queueKey q := (Z s (queueKey q))(i := None))"
    "S s' = (S s)(statusKey q StatusRunning := insert i (S s (statusKey q StatusRunning)),
                  statusKey q StatusPending := S s (statusKey q StatusPending) - {i})"
proof -
  obtain s1 where 1: "rHSet R (jobKey i) [(''status'', run), (''updated_at'', up)] s = (Ret (), s1)"
    "H s1 = (H s)(jobKey i := H s (jobKey i) ++ map_of (rev [(''status'', run), (''updated_at'', up)]))"
    "Z s1 = Z s" "S s1 = S s" "typed s1"
    by (rule job_hset_Cons [OF t])
  obtain s2 where 2: "rZRem R (queueKey q) i s1 = (Ret (), s2)" "H s2 = H s1"
    "Z s2 = (Z s1)(queueKey q := (Z s1 (queueKey q))(i := None))" "S s2 = S s1" "typed s2"
    by (rule queue_zrem [OF 1(5)])
  obtain s3 where 3: "rSAdd R (statusKey q StatusRunning) i s2 = (Ret (), s3)" "H s3 = H s2"
    "Z s3 = Z s2"
    "S s3 = (S s2)(statusKey q StatusRunning := insert i (S s2 (statusKey q StatusRunning)))" "typed s3"
    by (rule status_sadd [OF 2(5)])
  obtain s4 where 4: "rSRem R (statusKey q StatusPending) i s3 = (Ret (), s4)" "H s4 = H s3"
    "Z s4 = Z s3"
    "S s4 = (S s3)(statusKey q StatusPending := S s3 (statusKey q StatusPending) - {i})" "typed s4"
    by (rule status_srem [OF 3(5)])
  obtain kvs where 5: "rHGetAll R (jobKey i) s4 = Ret kvs" "map_of kvs = H s4 (jobKey i)"
    "distinct (map fst kvs)"
    by (rule job_hgetall [OF 4(5)])
  have ne: "statusKey q StatusPending \<noteq> statusKey q StatusRunning"
    by (simp add: statusKey_inj known_status_no_colon)
  show thesis
  proof (rule that)
    show "reserveScript R (queueKey q) ''job:'' mx run up s = (Ret (Some kvs), s4)"
      unfolding reserveScript_def script_keys using t f st 1(1) 2(1) 3(1) 4(1) 5(1)
      by (simp add: go_simps job_hget)
  qed (simp_all add: 1 2 3 4 5 ne)
qed

lemma rdAck_effect:
  assumes t: "typed s" and e: "calm e" and q: "H s (jobKey i) ''queue'' = Some q"
  obtains s' where "rdAck R e i s = (Ret (), s')" "typed s'"
    "H s' = (H s)(jobKey i := (H s (jobKey i))(''status'' \<mapsto> StatusCompleted,
       ''completed_at'' \<mapsto> itoa (unix (clk e 0)), ''updated_at'' \<mapsto> itoa (unix (clk e 0))))"
    "Z s' = Z s"
    "S s' = (S s)(statusKey q StatusRunning := S s (statusKey q StatusRunning) - {i},
                  statusKey q StatusCompleted := insert i (S s (statusKey q StatusCompleted)))"
proof -
  let ?kvs = "[(''status'', StatusCompleted), (''completed_at'', itoa (unix (clk e 0))),
    (''updated_at'', itoa (unix (clk e 0)))]"
  obtain s1 where 1: "rHSet R (jobKey i) ?kvs s = (Ret (), s1)"
    "H s1 = (H s)(jobKey i := H s (jobKey i) ++ map_of (rev ?kvs))"
    "Z s1 = Z s" "S s1 = S s" "typed s1"
    by (rule job_hset_Cons [OF t])
  obtain s2 where 2: "rSRem R (statusKey q StatusRunning) i s1 = (Ret (), s2)" "H s2 = H s1"
    "Z s2 = Z s1"
    "S s2 = (S s1)(statusKey q StatusRunning := S s1 (statusKey q StatusRunning) - {i})" "typed s2"
    by (rule status_srem [OF 1(5)])
  obtain s3 where 3: "rSAdd R (statusKey q StatusCompleted) i s2 = (Ret (), s3)" "H s3 = H s2"
    "Z s3 = Z s2"
    "S s3 = (S s2)(statusKey q StatusCompleted := insert i (S s2 (statusKey q StatusCompleted)))"
    "typed s3"
    by (rule status_sadd [OF 2(5)])
  have ne: "statusKey q StatusCompleted \<noteq> statusKey q StatusRunning"
    by (simp add: statusKey_inj known_status_no_colon)
  show thesis
  proof (rule that)
    show "rdAck R e i s = (Ret (), s3)"
      using t e q 1(1) 2(1) 3(1)
      by (simp add: rdAck_def ack_pipe_def hget_cmd_def calm_io job_hget)
  qed (simp_all add: 1 2 3 ne)
qed

lemma rdMoveToDLQ_effect:
  assumes t: "typed s" and e: "calm e" and q: "H s (jobKey i) ''queue'' = Some q"
  obtains s' where "rdMoveToDLQ R e i s = (Ret (), s')" "typed s'"
    "H s' = (H s)(jobKey i := (H s (jobKey i))(''status'' \<mapsto> StatusDead,
       ''updated_at'' \<mapsto> itoa (unix (clk e 0))))"
    "Z s' = (Z s)(queueKey q := (Z s (queueKey q))(i := None))"
    "S s' = (S s)(statusKey q StatusRunning := S s (statusKey q StatusRunning) - {i},
       statusKey q StatusFailed := S s (statusKey q StatusFailed) - {i},
       statusKey q StatusDead := insert i (S s (statusKey q StatusDead)))"
proof -
  let ?kvs = "[(''status'', StatusDead), (''updated_at'', itoa (unix (clk e 0)))]"
  obtain s1 where 1: "rHSet R (jobKey i) ?kvs s = (Ret (), s1)"
    "H s1 = (H s)(jobKey i := H s (jobKey i) ++ map_of (rev ?kvs))"
    "Z s1 = Z s" "S s1 = S s" "typed s1"
    by (rule job_hset_Cons [OF t])
  obtain s2 where 2: "rZRem R (queueKey q) i s1 = (Ret (), s2)" "H s2 = H s1"
    "Z s2 = (Z s1)(queueKey q := (Z s1 (queueKey q))(i := None))" "S s2 = S s1" "typed s2"
    by (rule queue_zrem [OF 1(5)])
  obtain s3 where 3: "rSRem R (statusKey q StatusRunning) i s2 = (Ret (), s3)" "H s3 = H s2"
    "Z s3 = Z s2"
    "S s3 = (S s2)(statusKey q StatusRunning := S s2 (statusKey q StatusRunning) - {i})" "typed s3"
    by (rule status_srem [OF 2(5)])
  obtain s4 where 4: "rSRem R (statusKey q StatusFailed) i s3 = (Ret (), s4)" "H s4 = H s3"
    "Z s4 = Z s3"
    "S s4 = (S s3)(statusKey q StatusFailed := S s3 (statusKey q StatusFailed) - {i})" "typed s4"
    by (rule status_srem [OF 3(5)])
  obtain s5 where 5: "rSAdd R (statusKey q StatusDead) i s4 = (Ret (), s5)" "H s5 = H s4"
    "Z s5 = Z s4"
    "S s5 = (S s4)(statusKey q StatusDead := insert i (S s4 (statusKey q StatusDead)))" "typed s5"
    by (rule status_sadd [OF 4(5)])
  have ne: "statusKey q StatusFailed \<noteq> statusKey q StatusRunning"
    "statusKey q StatusDead \<noteq> statusKey q StatusRunning"
    "statusKey q StatusDead \<noteq> statusKey q StatusFailed"
    by (simp_all add: statusKey_inj known_status_no_colon)
  show thesis
  proof (rule that)
    show "rdMoveToDLQ R e i s = (Ret (), s5)"
      using t e q 1(1) 2(1) 3(1) 4(1) 5(1)
      by (simp add: rdMoveToDLQ_def hget_cmd_def calm_io job_hget)
  qed (simp_all add: 1 2 3 4 5 ne)
qed

lemma rdDeleteJob_effect:
  assumes t: "typed s" and e: "calm e" and q: "H s (jobKey i) ''queue'' = Some q"
    and st: "H s (jobKey i) ''status'' = Some st"
  obtains s' where "rdDeleteJob R e i s = (Ret (), s')" "typed s'"
    "H s' = (H s)(jobKey i := Map.empty)"
    "Z s' = (Z s)(queueKey q := (Z s (queueKey q))(i := None))"
    "S s' = (S s)(statusKey q st := S s (statusKey q st) - {i})"
proof -
  obtain kvs where g: "rHGetAll R (jobKey i) s = Ret kvs" "map_of kvs = H s (jobKey i)"
    by (rule job_hgetall [OF t])
  then have "map_of kvs ''queue'' = Some q" using q by simp
  then have "kvs \<noteq> []" by auto
  obtain s1 where 1: "rDel R (jobKey i) s = (Ret (), s1)" "H s1 = (H s)(jobKey i := Map.empty)"
    "Z s1 = Z s" "S s1 = S s" "typed s1"
    by (rule job_del [OF t])
  obtain s2 where 2: "rZRem R (queueKey q) i s1 = (Ret (), s2)" "H s2 = H s1"
    "Z s2 = (Z s1)(queueKey q := (Z s1 (queueKey q))(i := None))" "S s2 = S s1" "typed s2"
    by (rule queue_zrem [OF 1(5)])
  obtain s3 where 3: "rSRem R (statusKey q st) i s2 = (Ret (), s3)" "H s3 = H s2" "Z s3 = Z s2"
    "S s3 = (S s2)(statusKey q st := S s2 (statusKey q st) - {i})" "typed s3"
    by (rule status_srem [OF 2(5)])
  show thesis
  proof (rule that)
    show "rdDeleteJob R e i s = (Ret (), s3)"
      using e q st g \<open>kvs \<noteq> []\<close> 1(1) 2(1) 3(1)
      by (simp add: rdDeleteJob_def calm_io field_def)
  qed (simp_all add: 1 2 3)
qed

end

lemma unix_add_bound:
  assumes "1 \<le> unix t" "unix t < 2 ^ 52" "int64_ok d"
  shows "\<bar>unix (time_add t d)\<bar> \<le> 2 ^ 53"
proof -
  have t: "second \<le> t" "t < 2 ^ 52 * second" using assms(1,2) by (simp_all add: unix_def second_def)
  then have "- (2 ^ 63) \<le> t + d" "t + d < 2 ^ 52 * second + 2 ^ 63"
    using assms(3) by (simp_all add: int64_ok_def second_def)
  then have "- (2 ^ 53) \<le> (t + d) div second" "(t + d) div second \<le> 2 ^ 53"
    by (simp_all add: second_def)
  then show ?thesis by (simp add: unix_def time_add_def abs_le_iff)
qed

text \<open>The fields \<open>Nack\<close> writes.\<close>

definition nack_fields ::
    "time \<Rightarrow> goerr option \<Rightarrow> int \<Rightarrow> int \<Rightarrow> int \<Rightarrow> (string \<rightharpoonup> string) \<Rightarrow> (string \<rightharpoonup> string)" where
  "nack_fields now err d a m h =
     (let h1 = h(''attempts'' \<mapsto> itoa (a + 1), ''last_error'' \<mapsto> err_text err,
                 ''failed_at'' \<mapsto> itoa (unix now), ''updated_at'' \<mapsto> itoa (unix now))
      in if m \<le> a + 1 then h1(''status'' \<mapsto> ''dead'')
         else h1(''status'' \<mapsto> ''pending'', ''scheduled_at'' \<mapsto> itoa (unix (time_add now d))))"

context redis_server
begin

lemma nack_script_effect:
  assumes t: "typed s" and id: "H s (jobKey i) ''id'' = Some i"
    and a: "0 \<le> a" "a < 2 ^ 31 - 1" and m: "1 \<le> m" "m < 2 ^ 31"
    and u: "\<bar>unix (time_add now d)\<bar> \<le> 2 ^ 53"
  obtains s' r where "nackScript R (jobKey i) q a m (err_text err) (itoa (unix now))
      (unix (time_add now d)) s = (Ret r, s')" "typed s'"
    "H s' = (H s)(jobKey i := nack_fields now err d a m (H s (jobKey i)))"
    "Z s' = (if m \<le> a + 1 then Z s else (Z s)(queueKey q :=
       (Z s (queueKey q))(i \<mapsto> unix (time_add now d))))"
    "S s' = (S s)(statusKey q StatusRunning := S s (statusKey q StatusRunning) - {i},
       statusKey q (if m \<le> a + 1 then StatusDead else StatusPending) := insert i
         (S s (statusKey q (if m \<le> a + 1 then StatusDead else StatusPending))))"
proof -
  have exact: "f64_of_int a = a" "f64_of_int (a + 1) = a + 1" "f64_of_int m = m"
    "f64_of_int (unix (time_add now d)) = unix (time_add now d)"
    using a m u by (simp_all add: f64_of_int_exact)
  have nums: "rNum R (a + 1) = itoa (a + 1)"
    "rNum R (unix (time_add now d)) = itoa (unix (time_add now d))"
    using a u by (simp_all add: num)
  let ?kvs = "[(''attempts'', itoa (a + 1)), (''last_error'', err_text err),
    (''failed_at'', itoa (unix now)), (''updated_at'', itoa (unix now))]"
  obtain s1 where 1: "rHSet R (jobKey i) ?kvs s = (Ret (), s1)"
    "H s1 = (H s)(jobKey i := H s (jobKey i) ++ map_of (rev ?kvs))"
    "Z s1 = Z s" "S s1 = S s" "typed s1"
    by (rule job_hset_Cons [OF t])
  obtain s2 where 2: "rSRem R (statusKey q StatusRunning) i s1 = (Ret (), s2)" "H s2 = H s1"
    "Z s2 = Z s1"
    "S s2 = (S s1)(statusKey q StatusRunning := S s1 (statusKey q StatusRunning) - {i})" "typed s2"
    by (rule status_srem [OF 1(5)])
  have ne: "statusKey q StatusDead \<noteq> statusKey q StatusRunning"
    "statusKey q StatusPending \<noteq> statusKey q StatusRunning"
    by (simp_all add: statusKey_inj known_status_no_colon)
  show thesis
  proof (cases "m \<le> a + 1")
    case True
    obtain s3 where 3: "rHSet R (jobKey i) [(''status'', ''dead'')] s2 = (Ret (), s3)"
      "H s3 = (H s2)(jobKey i := H s2 (jobKey i) ++ map_of (rev [(''status'', ''dead'')]))"
      "Z s3 = Z s2" "S s3 = S s2" "typed s3"
      by (rule job_hset_Cons [OF 2(5)])
    obtain s4 where 4: "rSAdd R (statusKey q StatusDead) i s3 = (Ret (), s4)" "H s4 = H s3"
      "Z s4 = Z s3"
      "S s4 = (S s3)(statusKey q StatusDead := insert i (S s3 (statusKey q StatusDead)))" "typed s4"
      by (rule status_sadd [OF 3(5)])
    show thesis
    proof (rule that)
      show "nackScript R (jobKey i) q a m (err_text err) (itoa (unix now))
          (unix (time_add now d)) s = (Ret ''dead'', s4)"
        unfolding nackScript_def script_keys Let_def exact nums
        using True t id 1(1) 2(1) 3(1) 4(1) by (simp add: go_simps job_hget)
    qed (use True in \<open>simp_all add: 1 2 3 4 ne nack_fields_def\<close>)
  next
    case False
    let ?kv2 = "[(''status'', ''pending''), (''scheduled_at'', itoa (unix (time_add now d)))]"
    obtain s3 where 3: "rHSet R (jobKey i) ?kv2 s2 = (Ret (), s3)"
      "H s3 = (H s2)(jobKey i := H s2 (jobKey i) ++ map_of (rev ?kv2))"
      "Z s3 = Z s2" "S s3 = S s2" "typed s3"
      by (rule job_hset_Cons [OF 2(5)])
    obtain s4 where 4: "rZAdd R (queueKey q) (unix (time_add now d)) i s3 = (Ret (), s4)"
      "H s4 = H s3" "Z s4 = (Z s3)(queueKey q := (Z s3 (queueKey q))(i \<mapsto> unix (time_add now d)))"
      "S s4 = S s3" "typed s4"
      by (rule queue_zadd [OF 3(5)])
    obtain s5 where 5: "rSAdd R (statusKey q StatusPending) i s4 = (Ret (), s5)" "H s5 = H s4"
      "Z s5 = Z s4"
      "S s5 = (S s4)(statusKey q StatusPending := insert i (S s4 (statusKey q StatusPending)))"
      "typed s5"
      by (rule status_sadd [OF 4(5)])
    show thesis
    proof (rule that)
      show "nackScript R (jobKey i) q a m (err_text err) (itoa (unix now))
          (unix (time_add now d)) s = (Ret ''pending'', s5)"
        unfolding nackScript_def script_keys Let_def exact nums
        using False t id 1(1) 2(1) 3(1) 4(1) 5(1) by (simp add: go_simps job_hget)
    qed (use False in \<open>simp_all add: 1 2 3 4 5 ne nack_fields_def\<close>)
  qed
qed

lemma rdNack_effect:
  assumes t: "typed s" and e: "calm e" and id: "H s (jobKey i) ''id'' = Some i"
    and q: "H s (jobKey i) ''queue'' = Some q"
    and a: "parse_int (field (H s (jobKey i)) ''attempts'') = Some a" "0 \<le> a" "a < 2 ^ 31 - 1"
    and m: "parse_int (field (H s (jobKey i)) ''max_attempts'') = Some m" "1 \<le> m" "m < 2 ^ 31"
    and d: "int64_ok d"
  obtains s' where "rdNack R e i err d s = (Ret (), s')" "typed s'"
    "H s' = (H s)(jobKey i := nack_fields (clk e 0) err d a m (H s (jobKey i)))"
    "Z s' = (if m \<le> a + 1 then Z s else (Z s)(queueKey q :=
       (Z s (queueKey q))(i \<mapsto> unix (time_add (clk e 0) d))))"
    "S s' = (S s)(statusKey q StatusRunning := S s (statusKey q StatusRunning) - {i},
       statusKey q (if m \<le> a + 1 then StatusDead else StatusPending) := insert i
         (S s (statusKey q (if m \<le> a + 1 then StatusDead else StatusPending))))"
proof -
  have u: "\<bar>unix (time_add (clk e 0) d)\<bar> \<le> 2 ^ 53"
    using e d unix_add_bound [of "clk e 0" d] by (simp add: calm_def)
  obtain kvs where g: "rHGetAll R (jobKey i) s = Ret kvs" "map_of kvs = H s (jobKey i)"
    by (rule job_hgetall [OF t])
  then have "map_of kvs ''queue'' = Some q" using q by simp
  then have "kvs \<noteq> []" by auto
  obtain s' r where n: "nackScript R (jobKey i) q a m (err_text err) (itoa (unix (clk e 0)))
      (unix (time_add (clk e 0) d)) s = (Ret r, s')"
    and post: "typed s'" "H s' = (H s)(jobKey i := nack_fields (clk e 0) err d a m (H s (jobKey i)))"
    "Z s' = (if m \<le> a + 1 then Z s else (Z s)(queueKey q :=
       (Z s (queueKey q))(i \<mapsto> unix (time_add (clk e 0) d))))"
    "S s' = (S s)(statusKey q StatusRunning := S s (statusKey q StatusRunning) - {i},
       statusKey q (if m \<le> a + 1 then StatusDead else StatusPending) := insert i
         (S s (statusKey q (if m \<le> a + 1 then StatusDead else StatusPending))))"
    by (rule nack_script_effect [OF t id a(2,3) m(2,3) u])
  have "field (map_of kvs) ''queue'' = q" using g(2) q by (simp add: field_def)
  then have "rdNack R e i err d s = (Ret (), s')"
    using e g \<open>kvs \<noteq> []\<close> a(1) m(1) n
    by (simp add: rdNack_def calm_io go_simps err_text_def Let_def)
  then show thesis using post by (rule that)
qed

lemma missing_job:
  assumes "typed s" "calm e" "H s (jobKey i) = Map.empty"
  shows "rdNack R e i err d s = (Err (notFoundError i), s)"
    and "rdMoveToDLQ R e i s = (Err (notFoundError i), s)"
    and "rdDeleteJob R e i s = (Err (notFoundError i), s)"
    and "rdGetJob R e i s = (Err (notFoundError i), s)"
proof -
  obtain kvs where g: "rHGetAll R (jobKey i) s = Ret kvs" "map_of kvs = H s (jobKey i)"
    by (rule job_hgetall [OF assms(1)])
  then have [simp]: "kvs = []" using assms(3) by (metis map_of_eq_empty_iff)
  from g assms show "rdNack R e i err d s = (Err (notFoundError i), s)"
    and "rdMoveToDLQ R e i s = (Err (notFoundError i), s)"
    and "rdDeleteJob R e i s = (Err (notFoundError i), s)"
    and "rdGetJob R e i s = (Err (notFoundError i), s)"
    by (simp_all add: rdNack_def rdMoveToDLQ_def hget_cmd_def rdDeleteJob_def rdGetJob_def
        rdGetJobAt_def calm_io go_simps job_hget)
qed

lemma rdGetJob_effect:
  assumes "typed s" "calm e" "H s (jobKey i) \<noteq> Map.empty"
  shows "rdGetJob R e i s = (Ret (parseJobFromMap (H s (jobKey i))), s)"
proof -
  obtain kvs where g: "rHGetAll R (jobKey i) s = Ret kvs" "map_of kvs = H s (jobKey i)"
    by (rule job_hgetall [OF assms(1)])
  then have "kvs \<noteq> []" using assms(3) by auto
  with g assms(2) show ?thesis by (simp add: rdGetJob_def rdGetJobAt_def calm_io)
qed

end

end
