(* ===== verification/RedisContract.thy ===== *)
theory RedisContract
  imports RedisStore
begin

text \<open>
  The invariant of the keyspace under the Redis backend, its preservation by every method,
  and the proof that the backend implements the contract of the \<open>Backend\<close> interface.
\<close>

section \<open>The invariant\<close>

definition hash_ok :: "string \<Rightarrow> (string \<rightharpoonup> string) \<Rightarrow> bool" where
  "hash_ok i h \<longleftrightarrow> h ''id'' = Some i \<and> h ''queue'' \<noteq> None \<and> h ''status'' \<noteq> None \<and>
     parse_int (field h ''attempts'') \<noteq> None \<and> parse_int (field h ''max_attempts'') \<noteq> None"

text \<open>An entry of a queue's sorted set: the job belongs to the queue and its score is the
  second it is scheduled at.\<close>

definition entry_ok :: "string \<Rightarrow> int \<Rightarrow> (string \<rightharpoonup> string) \<Rightarrow> bool" where
  "entry_ok q sc h \<longleftrightarrow> h ''queue'' = Some q \<and> h ''scheduled_at'' = Some (itoa sc) \<and> \<bar>sc\<bar> \<le> 2 ^ 53"

definition rd_inv :: "'s obs_hash \<Rightarrow> 's obs_zset \<Rightarrow> 's obs_set \<Rightarrow> 's \<Rightarrow> bool" where
  "rd_inv H Z S s \<longleftrightarrow> rd_typed H Z S s \<and>
     (\<forall>i. H s (jobKey i) \<noteq> Map.empty \<longrightarrow> hash_ok i (H s (jobKey i))) \<and>
     (\<forall>q i sc. Z s (queueKey q) i = Some sc \<longrightarrow> entry_ok q sc (H s (jobKey i))) \<and>
     (\<forall>q i. H s (jobKey i) ''queue'' = Some q \<longrightarrow> H s (jobKey i) ''status'' = Some StatusPending \<longrightarrow>
        Z s (queueKey q) i \<noteq> None)"

definition rd_view :: "'s obs_hash \<Rightarrow> 's \<Rightarrow> string \<Rightarrow> job option" where
  "rd_view H s i =
     (if H s (jobKey i) = Map.empty then None else Some (parseJobFromMap (H s (jobKey i))))"

lemma rd_invD:
  assumes "rd_inv H Z S s"
  shows "rd_typed H Z S s"
    and "H s (jobKey i) \<noteq> Map.empty \<Longrightarrow> hash_ok i (H s (jobKey i))"
    and "Z s (queueKey q) i = Some sc \<Longrightarrow> entry_ok q sc (H s (jobKey i))"
    and "H s (jobKey i) ''queue'' = Some q \<Longrightarrow> H s (jobKey i) ''status'' = Some StatusPending \<Longrightarrow>
      Z s (queueKey q) i \<noteq> None"
  using assms unfolding rd_inv_def by blast+

text \<open>A change of one job's hash and of that job's entries.\<close>

lemma rd_inv_update:
  assumes inv: "rd_inv H Z S s" and "rd_typed H Z S s'" and h: "H s' = (H s)(jobKey i := h')"
    and "h' = Map.empty \<or> hash_ok i h'"
    and "\<And>q i'. i' \<noteq> i \<Longrightarrow> Z s' (queueKey q) i' = Z s (queueKey q) i'"
    and "\<And>q sc. Z s' (queueKey q) i = Some sc \<Longrightarrow> entry_ok q sc h'"
    and "\<And>q. h' ''queue'' = Some q \<Longrightarrow> h' ''status'' = Some StatusPending \<Longrightarrow>
      Z s' (queueKey q) i \<noteq> None"
  shows "rd_inv H Z S s'" and "rd_view H s' = (rd_view H s)(i := if h' = Map.empty then None
      else Some (parseJobFromMap h'))"
proof -
  have other: "i' \<noteq> i \<Longrightarrow> H s' (jobKey i') = H s (jobKey i')" for i' using h by (simp add: key_simps)
  have self: "H s' (jobKey i) = h'" using h by simp
  show "rd_inv H Z S s'"
    unfolding rd_inv_def
  proof (intro conjI allI impI)
    fix i' assume "H s' (jobKey i') \<noteq> Map.empty"
    then show "hash_ok i' (H s' (jobKey i'))"
      using assms(4) self other rd_invD(2) [OF inv] by (cases "i' = i") auto
  next
    fix q i' sc assume "Z s' (queueKey q) i' = Some sc"
    then show "entry_ok q sc (H s' (jobKey i'))"
      using assms(5,6) self other rd_invD(3) [OF inv] by (cases "i' = i") auto
  next
    fix q i' assume "H s' (jobKey i') ''queue'' = Some q" "H s' (jobKey i') ''status'' = Some StatusPending"
    then show "Z s' (queueKey q) i' \<noteq> None"
      using assms(5,7) self other rd_invD(4) [OF inv] by (cases "i' = i") auto
  qed fact
  show "rd_view H s' = (rd_view H s)(i := if h' = Map.empty then None else Some (parseJobFromMap h'))"
    by (rule ext) (simp add: rd_view_def self other)
qed

lemma rd_inv_set:
  assumes "rd_inv H Z S s" "rd_typed H Z S s'" "H s' = (H s)(jobKey i := h')" "hash_ok i h'"
    and "\<And>q i'. i' \<noteq> i \<Longrightarrow> Z s' (queueKey q) i' = Z s (queueKey q) i'"
    and "\<And>q sc. Z s' (queueKey q) i = Some sc \<Longrightarrow> entry_ok q sc h'"
    and "\<And>q. h' ''queue'' = Some q \<Longrightarrow> h' ''status'' = Some StatusPending \<Longrightarrow>
      Z s' (queueKey q) i \<noteq> None"
  shows "rd_inv H Z S s'" and "rd_view H s' = (rd_view H s)(i \<mapsto> parseJobFromMap h')"
proof -
  have "h' \<noteq> Map.empty" using assms(4) by (auto simp: hash_ok_def)
  then show "rd_inv H Z S s'" and "rd_view H s' = (rd_view H s)(i \<mapsto> parseJobFromMap h')"
    using rd_inv_update [OF assms(1-3) disjI2 [OF assms(4)] assms(5-7)] by simp_all
qed

lemma hash_ok_upd [simp]:
  "k \<notin> {''id'', ''queue'', ''status'', ''attempts'', ''max_attempts''} \<Longrightarrow> hash_ok i (h(k \<mapsto> v)) \<longleftrightarrow> hash_ok i h"
  by (auto simp: hash_ok_def)

lemma hash_ok_status: "hash_ok i h \<Longrightarrow> hash_ok i (h(''status'' \<mapsto> v))"
  by (auto simp: hash_ok_def)

lemma hash_ok_attempts: "hash_ok i h \<Longrightarrow> int64_ok n \<Longrightarrow> hash_ok i (h(''attempts'' \<mapsto> itoa n))"
  by (auto simp: hash_ok_def)

lemma hash_okE:
  assumes "hash_ok i h"
  obtains q st a m where "h ''id'' = Some i" "h ''queue'' = Some q" "h ''status'' = Some st"
    "parse_int (field h ''attempts'') = Some a" "parse_int (field h ''max_attempts'') = Some m"
    "jID (parseJobFromMap h) = i" "jQueue (parseJobFromMap h) = q" "jStatus (parseJobFromMap h) = st"
    "jAttempts (parseJobFromMap h) = a" "jMaxAttempts (parseJobFromMap h) = m"
  using assms that by (auto simp: hash_ok_def parseJobFromMap_def field_def parse_or_def)

lemma rd_view_SomeE:
  assumes "rd_view H s i = Some j"
  obtains "H s (jobKey i) \<noteq> Map.empty" "j = parseJobFromMap (H s (jobKey i))"
  using assms by (auto simp: rd_view_def split: if_splits)

lemma rd_view_None: "rd_view H s i = None \<longleftrightarrow> H s (jobKey i) = Map.empty"
  by (simp add: rd_view_def)

section \<open>Each method keeps the invariant and does what the contract says\<close>

lemma calm_unix: "calm e \<Longrightarrow> 0 < unix (clk e n)" "calm e \<Longrightarrow> \<bar>unix (clk e n)\<bar> \<le> 2 ^ 53"
  "calm e \<Longrightarrow> int64_ok (unix (clk e n))" "calm e \<Longrightarrow> int64_ok (unix (clk e n)) \<and> 0 < unix (clk e n)"
proof -
  assume "calm e"
  then have "1 \<le> unix (clk e n)" "unix (clk e n) < 2 ^ 52" by (simp_all add: calm_def)
  then show "0 < unix (clk e n)" "\<bar>unix (clk e n)\<bar> \<le> 2 ^ 53" "int64_ok (unix (clk e n))"
    "int64_ok (unix (clk e n)) \<and> 0 < unix (clk e n)"
    by (simp_all add: int64_ok_def)
qed

lemma from_unix_le: "from_unix (unix t) \<le> t"
  by (simp add: from_unix_def unix_def second_def)

lemma unix_from_unix_le: "n \<le> unix t \<Longrightarrow> from_unix n \<le> t"
  using from_unix_le [of t] by (simp add: from_unix_def second_def)

lemma jobData_hash_ok: "rd_storable j \<Longrightarrow> hash_ok (jID j) (map_of (rev (jobData j)))"
  by (simp add: hash_ok_def jobData_def field_def rd_storable_def)

context redis_server
begin

abbreviation rinv :: "'s \<Rightarrow> bool" where
  "rinv \<equiv> rd_inv H Z S"

lemma rd_enqueue_law:
  assumes inv: "rinv s" and e: "calm e" and v: "Validate j = None"
    and new: "rd_view H s (jID j) = None" and st: "rd_storable j"
  shows "\<exists>s'. rdEnqueue R e j s = (Ret (), s') \<and> rinv s' \<and>
           rd_view H s' = (rd_view H s)(jID j \<mapsto> rd_norm j)"
proof -
  let ?h = "map_of (rev (jobData j))"
  let ?sc = "unix (jScheduledAt j)"
  have sc: "\<bar>?sc\<bar> \<le> 2 ^ 53" "f64_of_int ?sc = ?sc"
    using st by (simp_all add: rd_storable_def f64_of_int_exact)
  have none: "H s (jobKey (jID j)) = Map.empty" using new by (simp add: rd_view_None)
  then have noz: "Z s (queueKey q) (jID j) = None" for q
    using rd_invD(3) [OF inv, of q "jID j"] by (cases "Z s (queueKey q) (jID j)") (auto simp: entry_ok_def)
  obtain s' where r: "rdEnqueue R e j s = (Ret (), s')" and t: "typed s'"
    and h: "H s' = (H s)(jobKey (jID j) := H s (jobKey (jID j)) ++ ?h)"
    and z: "Z s' = (Z s)(queueKey (jQueue j) :=
       (Z s (queueKey (jQueue j)))(jID j \<mapsto> f64_of_int ?sc))"
    by (rule rdEnqueue_effect [OF rd_invD(1) [OF inv] e v])
  have ne: "?h \<noteq> Map.empty" by (simp add: jobData_def)
  have ok: "hash_ok (jID j) ?h" by (rule jobData_hash_ok [OF st])
  have h': "H s' = (H s)(jobKey (jID j) := ?h)" using h none by simp
  note up = rd_inv_update [OF inv t h']
  have entry: "entry_ok q sc ?h" if "Z s' (queueKey q) (jID j) = Some sc" for q sc
    using that z noz sc by (simp add: entry_ok_def key_simps jobData_def split: if_splits)
  have pend: "Z s' (queueKey q) (jID j) \<noteq> None" if "?h ''queue'' = Some q" for q
    using that z by (simp add: jobData_def)
  have rest: "i' \<noteq> jID j \<Longrightarrow> Z s' (queueKey q) i' = Z s (queueKey q) i'" for q i'
    using z by (simp add: key_simps)
  have "rinv s'" and "rd_view H s' = (rd_view H s)(jID j \<mapsto> rd_norm j)"
    using up ok rest entry pend ne st by (simp_all add: parse_jobData del: map_of.simps)
  with r show ?thesis by blast
qed

lemma rd_reserve_law:
  assumes inv: "rinv s" and e: "calm e"
  shows "\<exists>r s'. rdReserve R e q s = (r, s') \<and> rinv s' \<and>
           reserve_outcome (clk e 0) q (rd_view H s) r (rd_view H s')"
proof -
  let ?mx = "unix (clk e 0)"
  have mx: "f64_of_int ?mx = ?mx" using calm_unix(2) [OF e] by (simp add: f64_of_int_exact)
  note t = rd_invD(1) [OF inv]
  note k = typed_families(3,4) [OF t, of q]
  show ?thesis
  proof (cases "\<exists>m sc. Z s (queueKey q) m = Some sc \<and> sc \<le> ?mx")
    case False
    then have "rZRangeByScoreFirst R (queueKey q) ?mx s = Ret []"
      by (intro zfirst_none [OF k]) (meson not_less)
    then have "rdReserve R e q s = (Ret None, s)"
      using e by (simp add: rdReserve_def calm_io mx reserveScript_def reserve_reply_def go_simps)
    with inv show ?thesis by (simp add: reserve_outcome_def)
  next
    case True
    then obtain i sc where f: "rZRangeByScoreFirst R (queueKey q) ?mx s = Ret [i]"
      and zi: "Z s (queueKey q) i = Some sc" and le: "sc \<le> ?mx"
      using zfirst_some [OF k] by blast
    have en: "entry_ok q sc (H s (jobKey i))" by (rule rd_invD(3) [OF inv zi])
    then have ne: "H s (jobKey i) \<noteq> Map.empty" by (auto simp: entry_ok_def)
    have ok: "hash_ok i (H s (jobKey i))" by (rule rd_invD(2) [OF inv ne])
    show ?thesis
    proof (cases "H s (jobKey i) ''status'' = Some ''pending''")
      case False
      obtain s' where s: "reserveScript R (queueKey q) ''job:'' ?mx StatusRunning (itoa ?mx) s = (Ret None, s')"
        and t': "typed s'" and h: "H s' = H s"
        and z: "Z s' = (Z s)(queueKey q := (Z s (queueKey q))(i := None))"
        by (rule reserve_script_stale [OF t f False])
      have h': "H s' = (H s)(jobKey i := H s (jobKey i))" using h by simp
      have pend: "Z s' (queueKey q') i \<noteq> None"
        if "H s (jobKey i) ''queue'' = Some q'" "H s (jobKey i) ''status'' = Some StatusPending" for q'
        using that False by (simp add: status_defs)
      have "entry_ok q' sc' (H s (jobKey i))" if "Z s' (queueKey q') i = Some sc'" for q' sc'
        using that z rd_invD(3) [OF inv, of q' i sc'] by (simp add: key_simps split: if_splits)
      then have "rinv s'" "rd_view H s' = rd_view H s"
        using rd_inv_update [OF inv t' h'] ok z pend h
        by (simp_all add: key_simps rd_view_def fun_eq_iff)
      moreover have "rdReserve R e q s = (Ret None, s')"
        using e s by (simp add: rdReserve_def calm_io mx reserve_reply_def)
      ultimately show ?thesis by (simp add: reserve_outcome_def)
    next
      case True
      let ?h = "(H s (jobKey i))(''status'' \<mapsto> StatusRunning, ''updated_at'' \<mapsto> itoa ?mx)"
      let ?j = "parseJobFromMap (H s (jobKey i))"
      let ?j' = "?j\<lparr>jStatus := StatusRunning, jUpdatedAt := from_unix ?mx\<rparr>"
      obtain s' kvs where s: "reserveScript R (queueKey q) ''job:'' ?mx StatusRunning (itoa ?mx) s
          = (Ret (Some kvs), s')"
        and t': "typed s'" and kvs: "map_of kvs = ?h" "distinct (map fst kvs)"
        and h: "H s' = (H s)(jobKey i := ?h)"
        and z: "Z s' = (Z s)(queueKey q := (Z s (queueKey q))(i := None))"
        by (rule reserve_script_take [OF t f True])
      have parse: "parseJobFromMap ?h = ?j'"
        using calm_unix(3) [OF e] by (simp add: parse_simps)
      have q1: "q' = q" if "Z s (queueKey q') i = Some sc'" for q' sc'
        using rd_invD(3) [OF inv that] en by (simp add: entry_ok_def)
      have rest: "Z s' (queueKey q') i' = Z s (queueKey q') i'" if "i' \<noteq> i" for q' i'
        using that z by (simp add: key_simps)
      have gone: "Z s' (queueKey q') i = None" for q'
        using z q1 [of q'] by (cases "Z s (queueKey q') i") (auto simp: key_simps)
      have okh: "hash_ok i ?h" using ok by (simp add: hash_ok_status)
      have en': "entry_ok q' sc' ?h" if "Z s' (queueKey q') i = Some sc'" for q' sc'
        using that gone by simp
      have pend: "Z s' (queueKey q') i \<noteq> None"
        if "?h ''queue'' = Some q'" "?h ''status'' = Some StatusPending" for q'
        using that by (simp add: status_defs)
      note inv' = rd_inv_set [OF inv t' h okh rest en' pend]
      note view' = inv'(2) [unfolded parse]
      have r: "rdReserve R e q s = (Ret (Some ?j'), s')"
        using e s kvs parse
        by (simp add: rdReserve_def calm_io mx reserve_reply_def parseJobFromHash_flat)
      from ok en True have j: "jID ?j = i" "jQueue ?j = q" "jStatus ?j = StatusPending"
        by (auto elim!: hash_okE simp: entry_ok_def status_defs)
      have "jScheduledAt ?j = from_unix sc"
        using en int64_of_53 by (simp add: entry_ok_def parseJobFromMap_def field_def)
      then have due: "jScheduledAt ?j \<le> clk e 0" using le by (simp add: unix_from_unix_le)
      have "reserve_outcome (clk e 0) q (rd_view H s) (Ret (Some ?j')) (rd_view H s')"
        using j due view' ne unfolding reserve_outcome_def
        by (auto simp: rd_view_def intro!: exI [of _ ?j])
      with r inv'(1) show ?thesis by blast
    qed
  qed
qed

lemma acked_hash:
  fixes i :: string and s :: 's and now :: time
  defines "h \<equiv> (H s (jobKey i))(''status'' \<mapsto> StatusCompleted, ''completed_at'' \<mapsto> itoa (unix now),
    ''updated_at'' \<mapsto> itoa (unix now))"
  assumes inv: "rinv s" and ne: "H s (jobKey i) \<noteq> Map.empty"
    and t': "typed s'" and h: "H s' = (H s)(jobKey i := h)" and z: "Z s' = Z s"
  shows "rinv s'" and "rd_view H s' = (rd_view H s)(i \<mapsto> parseJobFromMap h)"
proof -
  have ok: "hash_ok i (H s (jobKey i))" by (rule rd_invD(2) [OF inv ne])
  have okh: "hash_ok i h" using ok by (simp add: h_def hash_ok_status)
  have rest: "Z s' (queueKey q') i' = Z s (queueKey q') i'" if "i' \<noteq> i" for q' i' using z by simp
  have en: "entry_ok q' sc h" if "Z s' (queueKey q') i = Some sc" for q' sc
    using rd_invD(3) [OF inv, of q' i sc] that z by (simp add: h_def entry_ok_def)
  have pend: "Z s' (queueKey q') i \<noteq> None"
    if "h ''queue'' = Some q'" "h ''status'' = Some StatusPending" for q'
    using that by (simp add: h_def status_defs)
  note inv' = rd_inv_set [OF inv t' h okh rest en pend]
  show "rinv s'" by (rule inv'(1))
  show "rd_view H s' = (rd_view H s)(i \<mapsto> parseJobFromMap h)" by (rule inv'(2))
qed

lemma rd_ack_law:
  assumes inv: "rinv s" and e: "calm e" and v: "rd_view H s i = Some j"
  shows "\<exists>s'. rdAck R e i s = (Ret (), s') \<and> rinv s' \<and>
           rd_view H s' = (rd_view H s)(i \<mapsto> acked rd_stamp (clk e 0) j)"
proof -
  let ?n = "unix (clk e 0)"
  let ?h = "(H s (jobKey i))(''status'' \<mapsto> StatusCompleted, ''completed_at'' \<mapsto> itoa ?n,
    ''updated_at'' \<mapsto> itoa ?n)"
  have ne: "H s (jobKey i) \<noteq> Map.empty" and j: "j = parseJobFromMap (H s (jobKey i))"
    using v by (auto elim: rd_view_SomeE)
  obtain q where q: "H s (jobKey i) ''queue'' = Some q"
    using rd_invD(2) [OF inv ne] by (rule hash_okE)
  obtain s' where r: "rdAck R e i s = (Ret (), s')" and t': "typed s'"
    and h: "H s' = (H s)(jobKey i := ?h)" and z: "Z s' = Z s"
    by (rule rdAck_effect [OF rd_invD(1) [OF inv] e q])
  have parse: "parseJobFromMap ?h = acked rd_stamp (clk e 0) j"
    using calm_unix(1,3) [OF e] j by (simp add: parse_simps acked_def rd_stamp_def)
  note inv' = acked_hash [OF inv ne t' h z]
  from r inv'(1) inv'(2) [unfolded parse] show ?thesis by blast
qed

lemma rd_nack_law:
  assumes inv: "rinv s" and e: "calm e" and v: "rd_view H s i = Some j" and c: "counters_ok j"
    and d: "int64_ok d"
  shows "\<exists>s'. rdNack R e i err d s = (Ret (), s') \<and> rinv s' \<and>
           rd_view H s' = (rd_view H s)(i \<mapsto> nacked rd_stamp (clk e 0) err d j)"
proof -
  let ?now = "clk e 0"
  let ?h0 = "H s (jobKey i)"
  have ne: "?h0 \<noteq> Map.empty" and j: "j = parseJobFromMap ?h0"
    using v by (auto elim: rd_view_SomeE)
  have ok: "hash_ok i ?h0" by (rule rd_invD(2) [OF inv ne])
  then obtain q a m where id: "?h0 ''id'' = Some i" and q: "?h0 ''queue'' = Some q"
    and a: "parse_int (field ?h0 ''attempts'') = Some a" "jAttempts j = a"
    and m: "parse_int (field ?h0 ''max_attempts'') = Some m" "jMaxAttempts j = m"
    using j by (auto elim: hash_okE)
  have ab: "0 \<le> a" "a < 2 ^ 31 - 1" "1 \<le> m" "m < 2 ^ 31" using c a(2) m(2) by (simp_all add: counters_ok_def)
  have sched: "\<bar>unix (time_add ?now d)\<bar> \<le> 2 ^ 53"
    using e d unix_add_bound [of ?now d] by (simp add: calm_def)
  let ?h = "nack_fields ?now err d a m ?h0"
  obtain s' where r: "rdNack R e i err d s = (Ret (), s')" and t': "typed s'"
    and h: "H s' = (H s)(jobKey i := ?h)"
    and z: "Z s' = (if m \<le> a + 1 then Z s else (Z s)(queueKey q :=
       (Z s (queueKey q))(i \<mapsto> unix (time_add ?now d))))"
    by (rule rdNack_effect [OF rd_invD(1) [OF inv] e id q a(1) ab(1,2) m(1) ab(3,4) d])
  have a64: "int64_ok (a + 1)" using ab by (simp add: int64_ok_def)
  have okh: "hash_ok i ?h"
    using hash_ok_attempts [OF ok a64] by (simp add: nack_fields_def Let_def hash_ok_status)
  have rest: "Z s' (queueKey q') i' = Z s (queueKey q') i'" if "i' \<noteq> i" for q' i'
    using that z by (simp add: key_simps)
  have en: "entry_ok q' sc ?h" if "Z s' (queueKey q') i = Some sc" for q' sc
    using that z q sched rd_invD(3) [OF inv, of q' i sc]
    by (auto simp: nack_fields_def Let_def entry_ok_def key_simps split: if_splits)
  have pend: "Z s' (queueKey q') i \<noteq> None"
    if "?h ''queue'' = Some q'" "?h ''status'' = Some StatusPending" for q'
    using that z q by (auto simp: nack_fields_def Let_def status_defs split: if_splits)
  have parse: "parseJobFromMap ?h = nacked rd_stamp ?now err d j"
    using calm_unix(1,3) [OF e] a64 int64_of_53 [OF sched] a(2) m(2) j
    by (simp add: nack_fields_def nacked_def Let_def parse_simps rd_stamp_def status_defs)
  note inv' = rd_inv_set [OF inv t' h okh rest en pend]
  from r inv'(1) inv'(2) [unfolded parse] show ?thesis by blast
qed

lemma rd_bury_law:
  assumes inv: "rinv s" and e: "calm e" and v: "rd_view H s i = Some j"
  shows "\<exists>s'. rdMoveToDLQ R e i s = (Ret (), s') \<and> rinv s' \<and>
           rd_view H s' = (rd_view H s)(i \<mapsto> buried rd_stamp (clk e 0) j)"
proof -
  let ?n = "unix (clk e 0)"
  let ?h = "(H s (jobKey i))(''status'' \<mapsto> StatusDead, ''updated_at'' \<mapsto> itoa ?n)"
  have ne: "H s (jobKey i) \<noteq> Map.empty" and j: "j = parseJobFromMap (H s (jobKey i))"
    using v by (auto elim: rd_view_SomeE)
  have ok: "hash_ok i (H s (jobKey i))" by (rule rd_invD(2) [OF inv ne])
  then obtain q where q: "H s (jobKey i) ''queue'' = Some q" by (rule hash_okE)
  obtain s' where r: "rdMoveToDLQ R e i s = (Ret (), s')" and t': "typed s'"
    and h: "H s' = (H s)(jobKey i := ?h)"
    and z: "Z s' = (Z s)(queueKey q := (Z s (queueKey q))(i := None))"
    by (rule rdMoveToDLQ_effect [OF rd_invD(1) [OF inv] e q])
  have okh: "hash_ok i ?h" using ok by (simp add: hash_ok_status)
  have rest: "Z s' (queueKey q') i' = Z s (queueKey q') i'" if "i' \<noteq> i" for q' i'
    using that z by (simp add: key_simps)
  have en: "entry_ok q' sc ?h" if "Z s' (queueKey q') i = Some sc" for q' sc
    using rd_invD(3) [OF inv, of q' i sc] that z by (simp add: entry_ok_def key_simps split: if_splits)
  have pend: "Z s' (queueKey q') i \<noteq> None"
    if "?h ''queue'' = Some q'" "?h ''status'' = Some StatusPending" for q'
    using that by (simp add: status_defs)
  have parse: "parseJobFromMap ?h = buried rd_stamp (clk e 0) j"
    using calm_unix(3) [OF e] j by (simp add: parse_simps buried_def rd_stamp_def)
  note inv' = rd_inv_set [OF inv t' h okh rest en pend]
  from r inv'(1) inv'(2) [unfolded parse] show ?thesis by blast
qed

lemma rd_delete_law:
  assumes inv: "rinv s" and e: "calm e" and v: "rd_view H s i = Some j"
  shows "\<exists>s'. rdDeleteJob R e i s = (Ret (), s') \<and> rinv s' \<and>
           rd_view H s' = (rd_view H s)(i := None)"
proof -
  have ne: "H s (jobKey i) \<noteq> Map.empty" using v by (auto elim: rd_view_SomeE)
  have ok: "hash_ok i (H s (jobKey i))" by (rule rd_invD(2) [OF inv ne])
  then obtain q st where q: "H s (jobKey i) ''queue'' = Some q" and st: "H s (jobKey i) ''status'' = Some st"
    by (rule hash_okE)
  obtain s' where r: "rdDeleteJob R e i s = (Ret (), s')" and t': "typed s'"
    and h: "H s' = (H s)(jobKey i := Map.empty)"
    and z: "Z s' = (Z s)(queueKey q := (Z s (queueKey q))(i := None))"
    by (rule rdDeleteJob_effect [OF rd_invD(1) [OF inv] e q st])
  have rest: "Z s' (queueKey q') i' = Z s (queueKey q') i'" if "i' \<noteq> i" for q' i'
    using that z by (simp add: key_simps)
  have gone: "Z s' (queueKey q') i = None" for q'
    using rd_invD(3) [OF inv, of q' i] q z
    by (cases "Z s (queueKey q') i") (auto simp: entry_ok_def key_simps)
  have "rinv s' \<and> rd_view H s' = (rd_view H s)(i := None)"
    using rd_inv_update [OF inv t' h, OF disjI1 [OF refl] rest] gone by simp
  with r show ?thesis by blast
qed

lemma rd_get_law:
  "rinv s \<Longrightarrow> calm e \<Longrightarrow> rd_view H s i = Some j \<Longrightarrow> rdGetJob R e i s = (Ret j, s)"
  by (auto elim!: rd_view_SomeE intro!: rdGetJob_effect dest: rd_invD(1))

lemma rd_view_id: "rinv s \<Longrightarrow> rd_view H s i = Some j \<Longrightarrow> jID j = i"
  by (auto elim!: rd_view_SomeE dest!: rd_invD(2) elim!: hash_okE)

end

section \<open>The contract holds\<close>

lemma rd_norm_fields:
  "jID (rd_norm j) = jID j" "jType (rd_norm j) = jType j" "jQueue (rd_norm j) = jQueue j"
  "jStatus (rd_norm j) = jStatus j" "jPriority (rd_norm j) = jPriority j"
  "jAttempts (rd_norm j) = jAttempts j" "jMaxAttempts (rd_norm j) = jMaxAttempts j"
  by (simp_all add: rd_norm_def)

sublocale redis_server \<subseteq> rd: job_store "RedisBackend R" "rd_inv H Z S" "rd_view H" rd_stamp rd_norm
    "\<lambda>_. rd_storable" "\<lambda>_ _. True"
proof unfold_locales
  fix e j x s assume "Validate j = Some x"
  then show "beEnqueue (RedisBackend R) e j s = (Err (ErrWrap ''invalid job'' x), s)"
    by (simp add: RedisBackend_def rdEnqueue_def)
qed (simp_all add: RedisBackend_def rd_norm_fields rd_enqueue_law rd_reserve_law rd_ack_law rd_nack_law
      rd_bury_law rd_delete_law rd_get_law rd_view_id missing_job rd_view_None rd_invD(1))

context redis_server
begin

lemma contract:
  "job_store (RedisBackend R) (rd_inv H Z S) (rd_view H) rd_stamp rd_norm (\<lambda>_. rd_storable) (\<lambda>_ _. True)"
  by unfold_locales

end

end
