(* ===== verification/RedisProps.thy ===== *)
theory RedisProps
  imports RedisContract
begin

text \<open>
  The Redis backend on a network that may fail, and the properties of its methods: what no
  failure can break, what a reservation finds, the statistics, the paging of listings, and
  the cases where the key families drift apart.
\<close>

section \<open>Failing exchanges\<close>

definition clock_ok :: "env \<Rightarrow> bool" where
  "clock_ok e \<longleftrightarrow> (\<forall>n. 1 \<le> unix (clk e n) \<and> unix (clk e n) < 2 ^ 52)"

definition calmed :: "env \<Rightarrow> env" where
  "calmed e = e\<lparr>io := (\<lambda>n. Up)\<rparr>"

lemma calmed_simps [simp]: "clk (calmed e) = clk e" "io (calmed e) n = Up"
  by (simp_all add: calmed_def)

lemma calm_calmed: "clock_ok e \<Longrightarrow> calm (calmed e)"
  by (simp add: clock_ok_def calm_def quiet_def)

lemma snd_wrap_err [simp]: "snd (wrap_err p x) = snd x"
  by (cases x; cases "fst x") auto

lemma wrap_err_state: "wrap_err p x = (r, s') \<Longrightarrow> s' = snd x"
  by (metis snd_conv snd_wrap_err)

lemma snd_exchange: "snd (exchange f m s) = s \<or> snd (exchange f m s) = snd (m s)"
  by (cases f) auto

text \<open>Apart from \<open>Ack\<close>, a method leaves the state it found or the state it leaves when
  nothing fails.\<close>

lemma rdEnqueue_faults:
  "snd (rdEnqueue R e j s) = s \<or> snd (rdEnqueue R e j s) = snd (rdEnqueue R (calmed e) j s)"
  using snd_exchange [of "io e 0" "pipeline
    [rHSet R (jobKey (jID j)) (jobData j),
     rZAdd R (queueKey (jQueue j)) (f64_of_int (unix (jScheduledAt j))) (jID j),
     rSAdd R (statusKey (jQueue j) (jStatus j)) (jID j)]" s]
  by (auto simp: rdEnqueue_def split: option.splits)

lemma rdReserve_state:
  "snd (rdReserve R e q s) = snd (exchange (io e 0)
     (\<lambda>s. reserve_reply (reserveScript R (queueKey q) ''job:'' (f64_of_int (unix (clk e 0)))
        StatusRunning (itoa (unix (clk e 0))) s)) s)"
  by (simp add: rdReserve_def Let_def split: prod.split res.split reply.split)

lemma rdReserve_faults:
  "snd (rdReserve R e q s) = s \<or> snd (rdReserve R e q s) = snd (rdReserve R (calmed e) q s)"
  unfolding rdReserve_state calmed_simps exchange.simps by (rule snd_exchange)

lemma rdNack_faults:
  "snd (rdNack R e i err d s) = s \<or> snd (rdNack R e i err d s) = snd (rdNack R (calmed e) i err d s)"
  by (cases "io e 0"; cases "io e 1")
    (auto simp: rdNack_def go_simps Let_def split: res.split option.split prod.split
      dest!: wrap_err_state)

lemma rdMoveToDLQ_faults:
  "snd (rdMoveToDLQ R e i s) = s \<or> snd (rdMoveToDLQ R e i s) = snd (rdMoveToDLQ R (calmed e) i s)"
  by (cases "io e 0"; cases "io e 1") (auto simp: rdMoveToDLQ_def Let_def split: res.split)

lemma rdDeleteJob_faults:
  "snd (rdDeleteJob R e i s) = s \<or> snd (rdDeleteJob R e i s) = snd (rdDeleteJob R (calmed e) i s)"
  by (cases "io e 0"; cases "io e 1") (auto simp: rdDeleteJob_def Let_def split: res.split)

text \<open>\<open>Ack\<close> can also stop between its two pipelines.\<close>

lemma rdAck_faults:
  "snd (rdAck R e i s) = s \<or> snd (rdAck R e i s) = snd (ack_pipe R i (itoa (unix (clk e 0))) s) \<or>
   snd (rdAck R e i s) = snd (rdAck R (calmed e) i s)"
  by (cases "io e 0"; cases "io e 1") (auto simp: rdAck_def split: res.split prod.split dest!: wrap_err_state)

text \<open>The readers change nothing.\<close>

lemma queueStats_state: "snd (queueStatsScript R q s) = s"
  by (simp add: queueStatsScript_def go_simps split: res.split)

lemma snd_exchange_same: "snd (m s) = s \<Longrightarrow> snd (exchange f m s) = s"
  by (cases f) auto

lemma list_queues_state: "snd (list_queues_loop R f ks s) = s"
proof (induction R f ks s rule: list_queues_loop.induct)
  case (2 R f key ks s)
  obtain r s1 where x: "wrap_err ''failed to get queue stats''
      (exchange (f 0) (queueStatsScript R (drop 6 key)) s) = (r, s1)" by (cases rule: prod.exhaust)
  have s1: "s1 = s" using arg_cong [OF x, of snd] by (simp add: snd_exchange_same queueStats_state)
  obtain r2 s2 where y: "list_queues_loop R (\<lambda>n. f (Suc n)) ks s = (r2, s2)"
    by (cases rule: prod.exhaust)
  have "s2 = s" if "\<not> length key < 6" using 2 [OF that] arg_cong [OF y, of snd] by simp
  with x y s1 show ?case
    by (auto simp: go_simps split: res.split prod.split reply.split)
qed simp

section \<open>The invariant survives every failure of the network\<close>

text \<open>
  The calls of a client that keeps to the rules: the clock is set, new jobs have fresh ids
  and values Redis can hold, \<open>Ack\<close> names a stored job, and counters stay in range. Nothing
  is assumed about the exchanges.
\<close>

fun rd_call_ok :: "('s \<Rightarrow> string \<Rightarrow> job option) \<Rightarrow> 's \<Rightarrow> call \<Rightarrow> bool" where
  "rd_call_ok V s (CallEnqueue e j) \<longleftrightarrow>
     clock_ok e \<and> (Validate j = None \<longrightarrow> V s (jID j) = None \<and> rd_storable j)"
| "rd_call_ok V s (CallAck e i) \<longleftrightarrow> clock_ok e \<and> V s i \<noteq> None"
| "rd_call_ok V s (CallNack e i err d) \<longleftrightarrow>
     clock_ok e \<and> int64_ok d \<and> (\<forall>j. V s i = Some j \<longrightarrow> counters_ok j)"
| "rd_call_ok V s c \<longleftrightarrow> clock_ok (call_env c)"

fun rd_calls_ok :: "'s redis \<Rightarrow> ('s \<Rightarrow> string \<Rightarrow> job option) \<Rightarrow> 's \<Rightarrow> call list \<Rightarrow> bool" where
  "rd_calls_ok R V s [] \<longleftrightarrow> True"
| "rd_calls_ok R V s (c # cs) \<longleftrightarrow>
     rd_call_ok V s c \<and> rd_calls_ok R V (call_state (RedisBackend R) c s) cs"

context redis_server
begin

lemma ack_pipe_inv:
  assumes inv: "rinv s" and v: "rd_view H s i \<noteq> None"
  shows "rinv (snd (ack_pipe R i (itoa (unix now)) s))"
proof -
  have ne: "H s (jobKey i) \<noteq> Map.empty" using v by (simp add: rd_view_None)
  let ?kvs = "[(''status'', StatusCompleted), (''completed_at'', itoa (unix now)),
    (''updated_at'', itoa (unix now))]"
  obtain s1 where 1: "rHSet R (jobKey i) ?kvs s = (Ret (), s1)"
    "H s1 = (H s)(jobKey i := H s (jobKey i) ++ map_of (rev ?kvs))" "Z s1 = Z s" "typed s1"
    by (rule job_hset_Cons [OF rd_invD(1) [OF inv]])
  have h: "H s1 = (H s)(jobKey i := (H s (jobKey i))(''status'' \<mapsto> StatusCompleted,
      ''completed_at'' \<mapsto> itoa (unix now), ''updated_at'' \<mapsto> itoa (unix now)))"
    using 1(2) by simp
  have "rinv s1" by (rule acked_hash(1) [OF inv ne 1(4) h 1(3)])
  then show ?thesis using 1(1) by (simp add: ack_pipe_def Let_def)
qed

lemma rd_inv_step:
  assumes inv: "rinv s" and ok: "rd_call_ok (rd_view H) s c"
  shows "rinv (call_state (RedisBackend R) c s)"
proof (cases c)
  case (CallEnqueue e j)
  show ?thesis
  proof (cases "Validate j")
    case None
    then have "rinv (snd (rdEnqueue R (calmed e) j s))"
      using rd_enqueue_law [OF inv calm_calmed None] ok CallEnqueue by fastforce
    with rdEnqueue_faults [of R e j s] inv CallEnqueue show ?thesis
      by (auto simp: RedisBackend_def)
  qed (use inv CallEnqueue in \<open>simp add: RedisBackend_def rdEnqueue_def\<close>)
next
  case (CallReserve e q)
  then have "rinv (snd (rdReserve R (calmed e) q s))"
    using rd_reserve_law [OF inv calm_calmed, of e q] ok by fastforce
  with rdReserve_faults [of R e q s] inv CallReserve show ?thesis by (auto simp: RedisBackend_def)
next
  case (CallAck e i)
  then obtain j where j: "rd_view H s i = Some j" using ok by auto
  have "rinv (snd (rdAck R (calmed e) i s))"
    using rd_ack_law [OF inv calm_calmed j, of e] ok CallAck by fastforce
  with rdAck_faults [of R e i s] inv ack_pipe_inv [OF inv, of i] j CallAck show ?thesis
    by (auto simp: RedisBackend_def)
next
  case (CallNack e i err d)
  have "rinv (snd (rdNack R (calmed e) i err d s))"
  proof (cases "rd_view H s i")
    case None
    then show ?thesis
      using missing_job(1) [OF rd_invD(1) [OF inv], of "calmed e" i err d] calm_calmed [of e] ok inv CallNack
      by (simp add: rd_view_None)
  next
    case (Some j)
    then show ?thesis
      using rd_nack_law [OF inv calm_calmed Some, of e d err] ok CallNack by fastforce
  qed
  with rdNack_faults [of R e i err d s] inv CallNack show ?thesis by (auto simp: RedisBackend_def)
next
  case (CallMoveToDLQ e i)
  have "rinv (snd (rdMoveToDLQ R (calmed e) i s))"
  proof (cases "rd_view H s i")
    case None
    then show ?thesis
      using missing_job(2) [OF rd_invD(1) [OF inv], of "calmed e" i] calm_calmed [of e] ok inv CallMoveToDLQ
      by (simp add: rd_view_None)
  next
    case (Some j)
    then show ?thesis using rd_bury_law [OF inv calm_calmed Some, of e] ok CallMoveToDLQ by fastforce
  qed
  with rdMoveToDLQ_faults [of R e i s] inv CallMoveToDLQ show ?thesis by (auto simp: RedisBackend_def)
next
  case (CallDeleteJob e i)
  have "rinv (snd (rdDeleteJob R (calmed e) i s))"
  proof (cases "rd_view H s i")
    case None
    then show ?thesis
      using missing_job(3) [OF rd_invD(1) [OF inv], of "calmed e" i] calm_calmed [of e] ok inv CallDeleteJob
      by (simp add: rd_view_None)
  next
    case (Some j)
    then show ?thesis using rd_delete_law [OF inv calm_calmed Some, of e] ok CallDeleteJob by fastforce
  qed
  with rdDeleteJob_faults [of R e i s] inv CallDeleteJob show ?thesis by (auto simp: RedisBackend_def)
next
  case (CallListQueues e)
  obtain r s1 where x: "wrap_err ''failed to list queue keys''
      (exchange (io e 0) (readS (rKeys R ''queue:*'')) s) = (r, s1)" by (cases rule: prod.exhaust)
  have "s1 = s" using arg_cong [OF x, of snd] by (simp add: exchange_read)
  then have "snd (rdListQueues R e s) = s"
    using x list_queues_state [of R "\<lambda>n. io e (Suc n)"]
    by (auto simp: rdListQueues_def retS_def split: res.split prod.split dest!: arg_cong [of _ _ snd])
  with inv CallListQueues show ?thesis by (simp add: RedisBackend_def)
next
  case (CallListJobs e q st l off)
  with inv show ?thesis by (simp add: RedisBackend_def rdListJobs_def go_simps split: res.split)
next
  case (CallGetJob e i)
  with inv show ?thesis by (simp add: RedisBackend_def rdGetJob_def)
qed

lemma rd_inv_run:
  "rinv s \<Longrightarrow> rd_calls_ok R (rd_view H) s cs \<Longrightarrow> rinv (run_calls (RedisBackend R) cs s)"
  by (induction cs arbitrary: s) (auto intro: rd_inv_step)

end

section \<open>Sample data for the witnesses\<close>

definition sampleJob :: "string \<Rightarrow> int \<Rightarrow> int \<Rightarrow> job" where
  "sampleJob i prio due =
     (NewJob i 0 ''mail'' ''q'' ''{}'')\<lparr>jPriority := prio, jScheduledAt := due * second\<rparr>"

text \<open>Two waiting jobs: an ordinary one that is due first, and a critical one.\<close>

definition twoJobs :: mem where
  "twoJobs = run_calls (RedisBackend memRedis)
     [CallEnqueue (envAt (10 * second)) (sampleJob ''a'' PriorityNormal 3),
      CallEnqueue (envAt (10 * second)) (sampleJob ''b'' PriorityCritical 5)] emptyMem"

lemmas sampleJob_defs = sampleJob_def NewJob_def status_defs PriorityNormal_def PriorityCritical_def

lemma sampleJob_fields [simp]:
  "jID (sampleJob i p d) = i" "jQueue (sampleJob i p d) = ''q''" "jStatus (sampleJob i p d) = StatusPending"
  "jScheduledAt (sampleJob i p d) = d * second" "jAttempts (sampleJob i p d) = 0"
  "jMaxAttempts (sampleJob i p d) = 3" "jPriority (sampleJob i p d) = p"
  by (simp_all add: sampleJob_def NewJob_def)

lemma sampleJob_valid: "i \<noteq> '''' \<Longrightarrow> Validate (sampleJob i p d) = None"
  by (simp add: Validate_None_iff sampleJob_def NewJob_def)

lemma sampleJob_storable: "int64_ok p \<Longrightarrow> \<bar>d\<bar> \<le> 2 ^ 53 \<Longrightarrow> rd_storable (sampleJob i p d)"
  by (simp add: rd_storable_def sampleJob_def NewJob_def unix_def second_def int64_ok_def)

lemma prio_ok [simp]: "int64_ok PriorityNormal" "int64_ok PriorityCritical"
  by (simp_all add: PriorityNormal_def PriorityCritical_def int64_ok_def)

lemma emptyMem_views [simp]:
  "memH emptyMem = (\<lambda>k. Map.empty)" "memZ emptyMem = (\<lambda>k. Map.empty)" "memS emptyMem = (\<lambda>k. {})"
  by (simp_all add: emptyMem_def memH_def memZ_def memS_def lookup_list_def fun_eq_iff)

lemma rd_inv_empty: "H s = (\<lambda>k. Map.empty) \<Longrightarrow> Z s = (\<lambda>k. Map.empty) \<Longrightarrow> S s = (\<lambda>k. {}) \<Longrightarrow> rd_inv H Z S s"
  by (simp add: rd_inv_def rd_typed_def)

lemma clock_ok_10: "clock_ok (envAt (10 * second))"
  by (simp add: clock_ok_def unix_def second_def)

lemma enqueue_sample:
  assumes "rd_inv memH memZ memS s" "i \<noteq> ''''" "rd_view memH s i = None" "int64_ok p" "\<bar>d\<bar> \<le> 2 ^ 53"
  obtains s' where "rdEnqueue memRedis (envAt (10 * second)) (sampleJob i p d) s = (Ret (), s')"
    "rd_inv memH memZ memS s'" "rd_view memH s' = (rd_view memH s)(i \<mapsto> rd_norm (sampleJob i p d))"
  using mem_redis.rd_enqueue_law [OF assms(1) calm_10 sampleJob_valid [OF assms(2)], of p d] assms(3)
    sampleJob_storable [OF assms(4,5)] by auto

lemma twoJobs:
  "rd_inv memH memZ memS twoJobs"
  "rd_view memH twoJobs = [''a'' \<mapsto> rd_norm (sampleJob ''a'' PriorityNormal 3),
     ''b'' \<mapsto> rd_norm (sampleJob ''b'' PriorityCritical 5)]"
proof -
  have inv0: "rd_inv memH memZ memS emptyMem" by (rule rd_inv_empty) simp_all
  have v0: "rd_view memH emptyMem = Map.empty" by (simp add: rd_view_def fun_eq_iff)
  obtain s1 where 1: "rdEnqueue memRedis (envAt (10 * second)) (sampleJob ''a'' PriorityNormal 3) emptyMem
      = (Ret (), s1)" "rd_inv memH memZ memS s1"
    "rd_view memH s1 = (rd_view memH emptyMem)(''a'' \<mapsto> rd_norm (sampleJob ''a'' PriorityNormal 3))"
    by (rule enqueue_sample [OF inv0, of "''a''" PriorityNormal 3]) (simp_all add: v0)
  obtain s2 where 2: "rdEnqueue memRedis (envAt (10 * second)) (sampleJob ''b'' PriorityCritical 5) s1
      = (Ret (), s2)" "rd_inv memH memZ memS s2"
    "rd_view memH s2 = (rd_view memH s1)(''b'' \<mapsto> rd_norm (sampleJob ''b'' PriorityCritical 5))"
    by (rule enqueue_sample [OF 1(2), of "''b''" PriorityCritical 5]) (simp_all add: 1(3) v0)
  have "twoJobs = s2" using 1(1) 2(1) by (simp add: twoJobs_def RedisBackend_def)
  then show "rd_inv memH memZ memS twoJobs"
    and "rd_view memH twoJobs = [''a'' \<mapsto> rd_norm (sampleJob ''a'' PriorityNormal 3),
     ''b'' \<mapsto> rd_norm (sampleJob ''b'' PriorityCritical 5)]"
    using 1 2 v0 by simp_all
qed

section \<open>Refinement and the invariant of a run\<close>





section \<open>Reservation\<close>

context redis_server
begin

text \<open>With an entry that is due, a reservation either returns the job that is due first, or
  drops a stale entry: one of a job that is no longer pending.\<close>

lemma rd_reserve_ready:
  assumes inv: "rinv s" and e: "calm e" and m: "Z s (queueKey q) m = Some sc" "sc \<le> unix (clk e 0)"
  obtains (job) i j s' where "Z s (queueKey q) i \<noteq> None" "rd_view H s i = Some j"
      "rdReserve R e q s = (Ret (Some (j\<lparr>jStatus := StatusRunning, jUpdatedAt := rd_stamp (clk e 0)\<rparr>)), s')"
      "\<And>m' sc'. Z s (queueKey q) m' = Some sc' \<Longrightarrow> jScheduledAt j \<le> from_unix sc'"
      "Z s' (queueKey q) = (Z s (queueKey q))(i := None)"
    | (stale) i s' where "Z s (queueKey q) i \<noteq> None" "rdReserve R e q s = (Ret None, s')"
      "rd_view H s' = rd_view H s" "Z s' (queueKey q) = (Z s (queueKey q))(i := None)"
      "\<And>j. rd_view H s i = Some j \<Longrightarrow> jStatus j \<noteq> StatusPending"
proof -
  let ?mx = "unix (clk e 0)"
  have mx: "f64_of_int ?mx = ?mx" using calm_unix(2) [OF e] by (simp add: f64_of_int_exact)
  note t = rd_invD(1) [OF inv]
  obtain i sc0 where f: "rZRangeByScoreFirst R (queueKey q) ?mx s = Ret [i]"
    and zi: "Z s (queueKey q) i = Some sc0"
    and least: "\<And>m' sc'. Z s (queueKey q) m' = Some sc' \<Longrightarrow> sc0 \<le> sc'"
    using zfirst_some [OF typed_families(3,4) [OF t] m] by blast
  have en: "entry_ok q sc0 (H s (jobKey i))" by (rule rd_invD(3) [OF inv zi])
  then have ne: "H s (jobKey i) \<noteq> Map.empty" by (auto simp: entry_ok_def)
  have v: "rd_view H s i = Some (parseJobFromMap (H s (jobKey i)))" using ne by (simp add: rd_view_def)
  show thesis
  proof (cases "H s (jobKey i) ''status'' = Some ''pending''")
    case True
    obtain s' kvs where s: "reserveScript R (queueKey q) ''job:'' ?mx StatusRunning (itoa ?mx) s
        = (Ret (Some kvs), s')"
      and kvs: "map_of kvs = (H s (jobKey i))(''status'' \<mapsto> StatusRunning, ''updated_at'' \<mapsto> itoa ?mx)"
        "distinct (map fst kvs)"
      and z: "Z s' = (Z s)(queueKey q := (Z s (queueKey q))(i := None))"
      by (rule reserve_script_take [OF t f True])
    have "rdReserve R e q s = (Ret (Some ((parseJobFromMap (H s (jobKey i)))
        \<lparr>jStatus := StatusRunning, jUpdatedAt := rd_stamp (clk e 0)\<rparr>)), s')"
      using e s kvs calm_unix(3) [OF e]
      by (simp add: rdReserve_def calm_io mx reserve_reply_def parseJobFromHash_flat parse_simps
          rd_stamp_def)
    moreover have "jScheduledAt (parseJobFromMap (H s (jobKey i))) = from_unix sc0"
      using en int64_of_53 by (simp add: entry_ok_def parseJobFromMap_def field_def)
    ultimately show thesis
      using job [of i "parseJobFromMap (H s (jobKey i))" s'] zi v least z
      by (simp add: from_unix_def second_def)
  next
    case False
    obtain s' where s: "reserveScript R (queueKey q) ''job:'' ?mx StatusRunning (itoa ?mx) s = (Ret None, s')"
      and h: "H s' = H s" and z: "Z s' = (Z s)(queueKey q := (Z s (queueKey q))(i := None))"
      by (rule reserve_script_stale [OF t f False])
    have "jStatus (parseJobFromMap (H s (jobKey i))) \<noteq> StatusPending"
      using False rd_invD(2) [OF inv ne] by (auto elim!: hash_okE simp: status_defs)
    moreover have "rdReserve R e q s = (Ret None, s')"
      using e s by (simp add: rdReserve_def calm_io mx reserve_reply_def)
    moreover have "rd_view H s' = rd_view H s" by (rule ext) (simp add: rd_view_def h)
    ultimately show thesis using stale [of i s'] zi z v by simp
  qed
qed

lemma pending_entry:
  assumes inv: "rinv s" and v: "rd_view H s i = Some j" and st: "jStatus j = StatusPending"
  obtains sc where "Z s (queueKey (jQueue j)) i = Some sc" "jScheduledAt j = from_unix sc"
proof -
  have ne: "H s (jobKey i) \<noteq> Map.empty" and j: "j = parseJobFromMap (H s (jobKey i))"
    using v by (auto elim: rd_view_SomeE)
  obtain sc where sc: "Z s (queueKey (jQueue j)) i = Some sc"
    using rd_invD(2) [OF inv ne] rd_invD(4) [OF inv, of i] st j by (auto elim!: hash_okE)
  moreover have "jScheduledAt j = from_unix sc"
    using rd_invD(3) [OF inv sc] j int64_of_53 by (simp add: entry_ok_def parseJobFromMap_def field_def)
  ultimately show thesis by (rule that)
qed

lemma due_score: "from_unix sc \<le> t \<Longrightarrow> sc \<le> unix t"
  by (simp add: from_unix_def unix_def second_def)

lemma reserve_none_due:
  assumes inv: "rinv s" and e: "calm e" and r: "rdReserve R e q s = (Ret (Some j'), s')"
  obtains m sc where "Z s (queueKey q) m = Some sc" "sc \<le> unix (clk e 0)"
proof (rule ccontr)
  assume no: "\<not> thesis"
  have mx: "f64_of_int (unix (clk e 0)) = unix (clk e 0)"
    using calm_unix(2) [OF e] by (simp add: f64_of_int_exact)
  have "rZRangeByScoreFirst R (queueKey q) (unix (clk e 0)) s = Ret []"
    using no that by (intro zfirst_none [OF typed_families(3,4) [OF rd_invD(1) [OF inv]]]) (meson not_less)
  then have "rdReserve R e q s = (Ret None, s)"
    using e by (simp add: rdReserve_def calm_io mx reserveScript_def reserve_reply_def go_simps)
  with r show False by simp
qed

lemma reserve_progress:
  assumes "rinv s" "calm e" "rd_view H s i = Some j" "jStatus j = StatusPending" "jQueue j = q"
    "jScheduledAt j \<le> clk e 0"
  shows "\<exists>k < card (dom (Z s (queueKey q))). \<exists>j' s'.
    rdReserve R e q (run_calls (RedisBackend R) (replicate k (CallReserve e q)) s) = (Ret (Some j'), s')"
  using assms
proof (induction "card (dom (Z s (queueKey q)))" arbitrary: s rule: less_induct)
  case less
  obtain sc where sc: "Z s (queueKey q) i = Some sc" "jScheduledAt j = from_unix sc"
    by (rule pending_entry [OF less.prems(1,3,4)]) (use less.prems(5) in auto)
  then have due: "sc \<le> unix (clk e 0)" using less.prems(6) by (simp add: due_score)
  have pos: "0 < card (dom (Z s (queueKey q)))" using z_finite sc(1) by (auto simp: card_gt_0_iff)
  show ?case
  proof (rule rd_reserve_ready [OF less.prems(1,2) sc(1) due])
    fix i0 j0 s'
    assume "rdReserve R e q s =
      (Ret (Some (j0\<lparr>jStatus := StatusRunning, jUpdatedAt := rd_stamp (clk e 0)\<rparr>)), s')"
    with pos show ?case by (intro exI [of _ 0]) auto
  next
    fix i0 s'
    assume z: "Z s (queueKey q) i0 \<noteq> None" and r: "rdReserve R e q s = (Ret None, s')"
      and v: "rd_view H s' = rd_view H s" and z': "Z s' (queueKey q) = (Z s (queueKey q))(i0 := None)"
    have inv': "rinv s'" using rd_reserve_law [OF less.prems(1,2), of q] r by auto
    have card: "card (dom (Z s' (queueKey q))) < card (dom (Z s (queueKey q)))"
      unfolding z' using z z_finite by (auto intro: psubset_card_mono)
    obtain k j' s'' where k: "k < card (dom (Z s' (queueKey q)))"
      and rk: "rdReserve R e q (run_calls (RedisBackend R) (replicate k (CallReserve e q)) s')
        = (Ret (Some j'), s'')"
      using less.hyps [OF card inv' less.prems(2)] v less.prems(3-6) by auto
    have "run_calls (RedisBackend R) (replicate (Suc k) (CallReserve e q)) s =
        run_calls (RedisBackend R) (replicate k (CallReserve e q)) s'"
      using r by (simp add: RedisBackend_def)
    with rk k card show ?case by (intro exI [of _ "Suc k"]) auto
  qed
qed

end

text \<open>C9. On an undisturbed network a reservation hands out the pending job of the queue that
  is due first, to the second; the priority of the jobs has no say in it.\<close>

theorem redis_reserve_earliest:
  assumes "redis_server R H Z S" and "rd_inv H Z S s" and "calm e"
    and "rdReserve R e q s = (Ret (Some j'), s')"
  shows "\<exists>j. rd_view H s (jID j') = Some j \<and> jStatus j = StatusPending \<and> jQueue j = q \<and>
    jScheduledAt j \<le> clk e 0 \<and>
    j' = j\<lparr>jStatus := StatusRunning, jUpdatedAt := rd_stamp (clk e 0)\<rparr> \<and>
    (\<forall>i2 j2. rd_view H s i2 = Some j2 \<longrightarrow> jStatus j2 = StatusPending \<longrightarrow> jQueue j2 = q \<longrightarrow>
       jScheduledAt j \<le> jScheduledAt j2)"
proof -
  obtain m sc where "Z s (queueKey q) m = Some sc" "sc \<le> unix (clk e 0)"
    by (rule redis_server.reserve_none_due [OF assms])
  then show ?thesis
  proof (rule redis_server.rd_reserve_ready [OF assms(1-3)])
    fix i j s1
    assume v: "rd_view H s i = Some j"
      and r: "rdReserve R e q s = (Ret (Some (j\<lparr>jStatus := StatusRunning, jUpdatedAt := rd_stamp (clk e 0)\<rparr>)), s1)"
      and least: "\<And>m' sc'. Z s (queueKey q) m' = Some sc' \<Longrightarrow> jScheduledAt j \<le> from_unix sc'"
    have j': "j' = j\<lparr>jStatus := StatusRunning, jUpdatedAt := rd_stamp (clk e 0)\<rparr>" using r assms(4) by simp
    have id: "jID j = i" by (rule redis_server.rd_view_id [OF assms(1,2) v])
    obtain r1 s2 where "rdReserve R e q s = (r1, s2)"
      and out: "reserve_outcome (clk e 0) q (rd_view H s) r1 (rd_view H s2)"
      using redis_server.rd_reserve_law [OF assms(1-3)] by blast
    then have "r1 = Ret (Some j')" using assms(4) by simp
    with out obtain j0 where "rd_view H s (jID j') = Some j0" "jQueue j0 = q"
      "jStatus j0 = StatusPending" "jScheduledAt j0 \<le> clk e 0"
      by (auto simp: reserve_outcome_def)
    then have j0: "jQueue j = q" "jStatus j = StatusPending" "jScheduledAt j \<le> clk e 0"
      using v id by (auto simp: j')
    have "jScheduledAt j \<le> jScheduledAt j2"
      if "rd_view H s i2 = Some j2" "jStatus j2 = StatusPending" "jQueue j2 = q" for i2 j2
      by (rule redis_server.pending_entry [OF assms(1,2) that(1,2)]) (use least that(3) in auto)
    with v id j0 show ?thesis by (auto simp: j' intro!: exI [of _ j])
  next
    fix i0 s1 assume "rdReserve R e q s = (Ret None, s1)"
    with assms(4) show ?thesis by simp
  qed
qed

text \<open>The critical job, due two seconds later, has to wait.\<close>

lemma twoJobs_reserve:
  "\<exists>j' s'. rdReserve memRedis (envAt (10 * second)) ''q'' twoJobs = (Ret (Some j'), s') \<and> jID j' = ''a''"
proof -
  have "(case rdReserve memRedis (envAt (10 * second)) ''q'' twoJobs of
      (Ret (Some j'), s') \<Rightarrow> jID j' = ''a'' | _ \<Rightarrow> False)" by code_simp
  then show ?thesis by (auto split: prod.splits res.splits option.splits)
qed

theorem redis_reserve_earliest_witness:
  "\<exists>j' s'. rdReserve memRedis (envAt (10 * second)) ''q'' twoJobs = (Ret (Some j'), s') \<and>
    jPriority j' = PriorityNormal \<and> jStatus j' = StatusRunning \<and> jScheduledAt j' \<le> 5 * second"
proof -
  obtain j' s' where r: "rdReserve memRedis (envAt (10 * second)) ''q'' twoJobs = (Ret (Some j'), s')"
    and a: "jID j' = ''a''" using twoJobs_reserve by blast
  from redis_reserve_earliest [OF mem_redis.redis_server_axioms twoJobs(1) calm_10 r] a r
  show ?thesis by (auto simp: twoJobs(2) rd_norm_def rd_stamp_def from_unix_def unix_def second_def)
qed

text \<open>C10. No waiting job is out of reach: while a pending job of the queue is due, fewer
  reservations than the queue has entries are enough for one to return a job; the others
  only drop stale entries.\<close>

theorem redis_reserve_progress:
  assumes "redis_server R H Z S" and "rd_inv H Z S s" and "calm e"
    and "rd_view H s i = Some j" "jStatus j = StatusPending" "jQueue j = q" "jScheduledAt j \<le> clk e 0"
  shows "\<exists>k < card (dom (Z s (queueKey q))). \<exists>j' s'.
    rdReserve R e q (run_calls (RedisBackend R) (replicate k (CallReserve e q)) s) = (Ret (Some j'), s')"
  using assms by (rule redis_server.reserve_progress)

theorem redis_reserve_progress_witness:
  "\<exists>k j' s'. rdReserve memRedis (envAt (10 * second)) ''q''
      (run_calls (RedisBackend memRedis) (replicate k (CallReserve (envAt (10 * second)) ''q'')) twoJobs)
     = (Ret (Some j'), s')"
  using redis_reserve_progress [OF mem_redis.redis_server_axioms twoJobs(1) calm_10, of "''b''"
      "rd_norm (sampleJob ''b'' PriorityCritical 5)" "''q''"] twoJobs(2)
  by (auto simp: rd_norm_def rd_stamp_def from_unix_def unix_def second_def)

section \<open>The statistics of the queues\<close>

definition rd_stats :: "'s obs_zset \<Rightarrow> 's obs_set \<Rightarrow> 's \<Rightarrow> string \<Rightarrow> queue_stats" where
  "rd_stats Z S s q =
     \<lparr>qName = q, qSize = int (card (dom (Z s (queueKey q)))),
      qProcessingCount = int (card (S s (statusKey q StatusRunning))),
      qCompletedCount = int (card (S s (statusKey q StatusCompleted))),
      qFailedCount = int (card (S s (statusKey q StatusFailed))),
      qDeadCount = int (card (S s (statusKey q StatusDead)))\<rparr>"

lemma has_prefix_key: "has_prefix k ''queue:'' \<longleftrightarrow> (\<exists>q. k = queueKey q)"
  by (auto simp: queueKey_def has_prefix_iff prefix_def)

lemma no_queue_prefix [simp]: "\<not> has_prefix (jobKey i) ''queue:''" "\<not> has_prefix (statusKey q st) ''queue:''"
  by (simp_all add: has_prefix_key key_families)

context redis_server
begin

lemma stats_script:
  assumes "typed s"
  obtains flds where "queueStatsScript R q s = (Ret (RArr flds), s)" "parseQueueStats flds = rd_stats Z S s q"
proof (rule that)
  show "queueStatsScript R q s = (Ret (RArr
      [RStr ''name'', RStr q, RStr ''size'', RInt (int (card (dom (Z s (queueKey q))))),
       RStr ''processing_count'', RInt (int (card (S s (statusKey q StatusRunning)))),
       RStr ''completed_count'', RInt (int (card (S s (statusKey q StatusCompleted)))),
       RStr ''failed_count'', RInt (int (card (S s (statusKey q StatusFailed)))),
       RStr ''dead_count'', RInt (int (card (S s (statusKey q StatusDead))))]), s)"
    unfolding queueStatsScript_def script_keys
    using typed_families [OF assms] by (simp add: go_simps zcard scard)
qed (simp add: parseQueueStats_def set_stat_def rd_stats_def)

lemma list_queues_loop_all:
  assumes "typed s" and "\<And>n. f n = Up" and "\<forall>k \<in> set ks. \<exists>q. k = queueKey q"
  shows "list_queues_loop R f ks s = (Ret (map (\<lambda>k. rd_stats Z S s (drop 6 k)) ks), s)"
  using assms(2,3)
proof (induction ks arbitrary: f)
  case (Cons k ks)
  then obtain q where q: "k = queueKey q" by auto
  obtain flds where flds: "queueStatsScript R q s = (Ret (RArr flds), s)"
    "parseQueueStats flds = rd_stats Z S s q" by (rule stats_script [OF assms(1)])
  have "list_queues_loop R (\<lambda>n. f (Suc n)) ks s = (Ret (map (\<lambda>k. rd_stats Z S s (drop 6 k)) ks), s)"
    by (rule Cons.IH) (use Cons.prems in auto)
  with flds Cons.prems(1) q show ?case by (simp add: queueKey_def go_simps)
qed simp

lemma list_queues_effect:
  assumes t: "typed s" and e: "calm e"
  obtains qs where "rdListQueues R e s = (Ret (Some (map (rd_stats Z S s) qs)), s)" "distinct qs"
    "set qs = {q. Z s (queueKey q) \<noteq> Map.empty}"
proof -
  have "plain_pattern ''queue:''" by (simp add: plain_pattern_def)
  then obtain ks where ks: "rKeys R (''queue:'' @ ''*'') s = Ret ks" "distinct ks"
    "set ks = {k. has_prefix k ''queue:'' \<and> (H s k \<noteq> Map.empty \<or> Z s k \<noteq> Map.empty \<or> S s k \<noteq> {})}"
    using keys by blast
  have all: "\<forall>k \<in> set ks. \<exists>q. k = queueKey q" unfolding ks(3) by (auto simp: has_prefix_key)
  have "set (map (drop 6) ks) = {q. queueKey q \<in> set ks}"
    using all by (force simp: queueKey_def)
  also have "\<dots> = {q. Z s (queueKey q) \<noteq> Map.empty}"
    unfolding ks(3) using typed_families(3,4) [OF t] by (auto simp: has_prefix_key)
  finally have set: "set (map (drop 6) ks) = {q. Z s (queueKey q) \<noteq> Map.empty}" .
  have "x = y" if x: "x \<in> set ks" and y: "y \<in> set ks" and eq: "drop 6 x = drop 6 y" for x y
  proof -
    obtain q q' where "x = queueKey q" "y = queueKey q'" using all x y by blast
    with eq show ?thesis by (simp add: queueKey_def)
  qed
  then have "inj_on (drop 6) (set ks)" by (rule inj_onI)
  then have "distinct (map (drop 6) ks)" using ks(2) by (simp add: distinct_map)
  moreover have "rdListQueues R e s = (Ret (Some (map (rd_stats Z S s) (map (drop 6) ks))), s)"
    using ks(1) e list_queues_loop_all [OF t _ all, of "\<lambda>n. io e (Suc n)"]
    by (simp add: rdListQueues_def calm_io go_simps comp_def)
  ultimately show thesis using set by (intro that)
qed

end

text \<open>\<open>ListQueues\<close> reports exactly the queues whose sorted set is not empty, each once,
  with the number of entries and of ids in each status set: a queue all of whose jobs are
  running, completed or dead is not reported.\<close>

lemma redis_list_queues_waiting_only:
  assumes "redis_server R H Z S" and "rd_inv H Z S s" and "calm e"
  shows "\<exists>qs. rdListQueues R e s = (Ret (Some (map (rd_stats Z S s) qs)), s) \<and> distinct qs \<and>
    set qs = {q. Z s (queueKey q) \<noteq> Map.empty}"
  by (rule redis_server.list_queues_effect [OF assms(1) rd_invD(1) [OF assms(2)] assms(3)]) blast

text \<open>Once its only job runs, the queue is gone from the list.\<close>

definition oneRunning :: mem where
  "oneRunning = run_calls (RedisBackend memRedis)
     [CallEnqueue (envAt (10 * second)) (sampleJob ''a'' PriorityNormal 3),
      CallReserve (envAt (10 * second)) ''q''] emptyMem"

lemma redis_list_queues_waiting_only_witness:
  "rdListQueues memRedis (envAt (10 * second)) oneRunning = (Ret (Some []), oneRunning) \<and>
   memH oneRunning (jobKey ''a'') ''status'' = Some StatusRunning"
proof -
  have ok: "rd_calls_ok memRedis (rd_view memH) emptyMem
      [CallEnqueue (envAt (10 * second)) (sampleJob ''a'' PriorityNormal 3),
       CallReserve (envAt (10 * second)) ''q'']"
    using clock_ok_10 sampleJob_storable by (simp add: rd_view_def)
  have inv: "rd_inv memH memZ memS oneRunning"
    unfolding oneRunning_def by (rule mem_redis.rd_inv_run [OF rd_inv_empty ok]) simp_all
  have "list_all (\<lambda>(k, v). v = []) (mZSet oneRunning)" by code_simp
  then have "lookup_list (mZSet oneRunning) k = []" for k
    by (auto simp: lookup_list_def list_all_iff split: option.split dest!: map_of_SomeD)
  with redis_list_queues_waiting_only [OF mem_redis.redis_server_axioms inv calm_10]
  have "rdListQueues memRedis (envAt (10 * second)) oneRunning = (Ret (Some []), oneRunning)"
    by simp
  moreover have "memH oneRunning (jobKey ''a'') ''status'' = Some StatusRunning"
    by code_simp
  ultimately show ?thesis by blast
qed

section \<open>Paging\<close>

lemma paginate_result:
  assumes "int64_ok limit" and "int64_ok offset" and "int (length jobIDs) < 2 ^ 63"
  shows "paginate limit offset jobIDs =
    (if int (length jobIDs) \<le> offset then Ret []
     else if offset < 0 \<or> (0 < limit \<and> 2 ^ 63 \<le> offset + limit)
       then Panic ''slice bounds out of range''
     else if limit \<le> 0 then Ret (drop (nat offset) jobIDs)
     else Ret (take (nat limit) (drop (nat offset) jobIDs)))"
proof (cases "int (length jobIDs) \<le> offset \<or> offset < 0 \<or> limit \<le> 0")
  case True
  then show ?thesis by (auto simp: paginate_def Let_def)
next
  case False
  then have in_range: "0 \<le> offset" "offset < int (length jobIDs)" "0 < limit" by auto
  show ?thesis
  proof (cases "2 ^ 63 \<le> offset + limit")
    case True
    have "wrap64 (offset + limit) = offset + limit - 2 ^ 64"
      using True assms(1,2) by (intro wrap64_over) (simp_all add: int64_ok_def)
    then have "wrap64 (offset + limit) < 0" using assms(1,2) by (simp add: int64_ok_def)
    with True in_range show ?thesis by (auto simp: paginate_def Let_def)
  next
    case False
    then have w: "wrap64 (offset + limit) = offset + limit"
      using in_range assms(2) by (intro wrap64_id) (simp add: int64_ok_def)
    have "drop (nat offset) (take (nat (offset + limit)) jobIDs) =
        take (nat limit) (drop (nat offset) jobIDs)"
      using in_range by (simp add: drop_take nat_diff_distrib [symmetric])
    moreover have "take (nat limit) (drop (nat offset) jobIDs) = drop (nat offset) jobIDs"
      if "int (length jobIDs) < offset + limit"
      using in_range that by (intro take_all) (simp add: nat_le_iff)
    ultimately show ?thesis using in_range False w by (auto simp: paginate_def Let_def)
  qed
qed

text \<open>C31. The page \<open>ListJobs\<close> cuts out: all ids after the offset when there is no limit, at
  most \<open>limit\<close> of them otherwise; nothing at or after the end. It panics exactly for a
  negative offset, or for a limit so large that \<open>offset + limit\<close> overflows.\<close>

theorem paginate_page:
  assumes "int64_ok limit" and "int64_ok offset" and "int (length jobIDs) < 2 ^ 63"
  shows "paginate limit offset jobIDs =
    (if int (length jobIDs) \<le> offset then Ret []
     else if offset < 0 \<or> (0 < limit \<and> 2 ^ 63 \<le> offset + limit)
       then Panic ''slice bounds out of range''
     else if limit \<le> 0 then Ret (drop (nat offset) jobIDs)
     else Ret (take (nat limit) (drop (nat offset) jobIDs)))"
  using assms by (rule paginate_result)

theorem paginate_page_witness:
  "paginate 2 1 [''a'', ''b'', ''c'', ''d''] = Ret [''b'', ''c''] \<and>
   paginate (2 ^ 63 - 1) 1 [''a'', ''b''] = Panic ''slice bounds out of range''"
  by (subst paginate_page, simp_all add: int64_ok_def)+

section \<open>Reading back and listing\<close>

text \<open>C30. A job that was enqueued is read back as it was written, except that its times are
  cut to whole seconds and its completion and failure times are dropped.\<close>

theorem redis_enqueue_get:
  assumes "redis_server R H Z S" and "rd_inv H Z S s" and "calm e" and "calm e'"
    and "Validate j = None" and "rd_view H s (jID j) = None" and "rd_storable j"
  shows "\<exists>s'. rdEnqueue R e j s = (Ret (), s') \<and> rdGetJob R e' (jID j) s' =
    (Ret (j\<lparr>jScheduledAt := from_unix (unix (jScheduledAt j)),
            jCreatedAt := from_unix (unix (jCreatedAt j)),
            jUpdatedAt := from_unix (unix (jUpdatedAt j)),
            jCompletedAt := None, jFailedAt := None\<rparr>), s')"
  using job_store.enqueue_then_get [OF redis_server.contract [OF assms(1)] assms(2-7)]
  by (simp add: RedisBackend_def rd_norm_def rd_stamp_def)

theorem redis_enqueue_get_witness:
  "\<exists>s'. rdEnqueue memRedis (envAt (10 * second)) (sampleJob ''c'' PriorityNormal 7) twoJobs = (Ret (), s') \<and>
    rdGetJob memRedis (envAt (10 * second)) ''c'' s' = (Ret (sampleJob ''c'' PriorityNormal 7), s')"
  using redis_enqueue_get [OF mem_redis.redis_server_axioms twoJobs(1) calm_10 calm_10
      sampleJob_valid [of "''c''" PriorityNormal 7]] sampleJob_storable [of PriorityNormal 7 "''c''"]
  by (simp add: twoJobs(2) sampleJob_def NewJob_def from_unix_def unix_def second_def)

context redis_server
begin

lemma list_status_members:
  assumes t: "typed s" and e: "calm e" and st: "st \<noteq> ''''"
  obtains ids where "list_ids R (io e 0) q st s = Ret ids" "distinct ids" "set ids = S s (statusKey q st)"
proof -
  obtain ms where "rSMembers R (statusKey q st) s = Ret ms" "distinct ms" "set ms = S s (statusKey q st)"
    using smembers [OF typed_families(5,6) [OF t]] by blast
  with st e show thesis by (intro that [of ms]) (simp_all add: list_ids_def calm_io)
qed

lemma list_jobs_empty:
  assumes "typed s" "calm e" "st \<noteq> ''''" "S s (statusKey q st) = {}" "0 \<le> off"
  shows "rdListJobs R e q st l off s = (Ret (Some []), s)"
  by (rule list_status_members [OF assms(1-3), of q])
    (use assms(4,5) in \<open>simp add: rdListJobs_def go_simps paginate_def\<close>)

end

text \<open>Listing the jobs of all queues by status finds none of them: the key read for the
  empty queue name is one that \<open>Enqueue\<close> never writes. The job that was just enqueued is
  stored with the status, and the listing is empty.\<close>

lemma redis_list_all_queues_misses:
  assumes "redis_server R H Z S" and "rd_inv H Z S s" and "calm e" and "calm e'"
    and "Validate j = None" and "rd_view H s (jID j) = None" and "rd_storable j"
    and "known_status (jStatus j)" and "S s (statusKey '''' (jStatus j)) = {}" and "0 \<le> off"
  shows "\<exists>s'. rdEnqueue R e j s = (Ret (), s') \<and> rd_view H s' (jID j) = Some (rd_norm j) \<and>
    S s' (statusKey '''' (jStatus j)) = {} \<and>
    rdListJobs R e' '''' (jStatus j) cnt off s' = (Ret (Some []), s')"
proof -
  obtain s' where r: "rdEnqueue R e j s = (Ret (), s')" and inv: "rd_inv H Z S s'"
    and v: "rd_view H s' = (rd_view H s)(jID j \<mapsto> rd_norm j)"
    using redis_server.rd_enqueue_law [OF assms(1-3,5-7)] by blast
  obtain s2 where "rdEnqueue R e j s = (Ret (), s2)" and
    "S s2 = (S s)(statusKey (jQueue j) (jStatus j) := insert (jID j) (S s (statusKey (jQueue j) (jStatus j))))"
    by (rule redis_server.rdEnqueue_effect [OF assms(1) rd_invD(1) [OF assms(2)] assms(3,5)])
  with r have S: "S s' = (S s)(statusKey (jQueue j) (jStatus j) :=
      insert (jID j) (S s (statusKey (jQueue j) (jStatus j))))" by simp
  have "jQueue j \<noteq> ''''" using assms(5) by (simp add: Validate_None_iff)
  then have "statusKey (jQueue j) (jStatus j) \<noteq> statusKey '''' (jStatus j)"
    using statusKey_inj known_status_no_colon [OF assms(8)] by blast
  then have none: "S s' (statusKey '''' (jStatus j)) = {}" using S assms(9) by simp
  have "jStatus j \<noteq> ''''" using assms(8) by (auto simp: known_status_def status_defs)
  then have "rdListJobs R e' '''' (jStatus j) cnt off s' = (Ret (Some []), s')"
    by (rule redis_server.list_jobs_empty [OF assms(1) rd_invD(1) [OF inv] assms(4) _ none assms(10)])
  with r v none show ?thesis by simp
qed

lemma redis_list_all_queues_misses_witness:
  "\<exists>s'. rdEnqueue memRedis (envAt (10 * second)) (sampleJob ''a'' PriorityNormal 3) emptyMem = (Ret (), s') \<and>
    rd_view memH s' ''a'' \<noteq> None \<and>
    rdListJobs memRedis (envAt (10 * second)) '''' StatusPending 0 0 s' = (Ret (Some []), s')"
proof -
  have inv: "rd_inv memH memZ memS emptyMem" by (rule rd_inv_empty) simp_all
  have new: "rd_view memH emptyMem ''a'' = None" by (simp add: rd_view_def)
  have "known_status StatusPending" by (simp add: known_status_def)
  then show ?thesis
    using redis_list_all_queues_misses [OF mem_redis.redis_server_axioms inv calm_10 calm_10
        sampleJob_valid [of "''a''" PriorityNormal 3], of 0 0] sampleJob_storable [of PriorityNormal 3 "''a''"]
    by (auto simp: new)
qed

section \<open>Where the keys drift apart\<close>

text \<open>C37. \<open>Ack\<close> of an id that does not exist reports an error and still writes: from then on
  \<open>GetJob\<close> returns a completed job with an empty id, type and queue.\<close>

theorem redis_ack_missing_ghost:
  assumes "redis_server R H Z S" and "rd_inv H Z S s" and "calm e" and "calm e'"
    and "rd_view H s i = None"
  shows "\<exists>s' j. rdAck R e i s = (Err (ErrWrap ''failed to ack job'' ErrRedisNil), s') \<and>
    rdGetJob R e' i s' = (Ret j, s') \<and> jID j = '''' \<and> jType j = '''' \<and> jQueue j = '''' \<and>
    jStatus j = StatusCompleted"
proof -
  note t = rd_invD(1) [OF assms(2)]
  let ?n = "itoa (unix (clk e 0))"
  let ?kvs = "[(''status'', StatusCompleted), (''completed_at'', ?n), (''updated_at'', ?n)]"
  have none: "H s (jobKey i) = Map.empty" using assms(5) by (simp add: rd_view_None)
  obtain s1 where 1: "rHSet R (jobKey i) ?kvs s = (Ret (), s1)"
    "H s1 = (H s)(jobKey i := H s (jobKey i) ++ map_of (rev ?kvs))" "rd_typed H Z S s1"
    by (rule redis_server.job_hset_Cons [OF assms(1) t])
  have "rHGet R (jobKey i) ''queue'' s = Ret None"
    using redis_server.job_hget [OF assms(1) t] none by simp
  then have r: "rdAck R e i s = (Err (ErrWrap ''failed to ack job'' ErrRedisNil), s1)"
    using 1(1) assms(3) by (simp add: rdAck_def ack_pipe_def hget_cmd_def calm_io)
  have h: "H s1 (jobKey i) = [''status'' \<mapsto> StatusCompleted, ''completed_at'' \<mapsto> ?n, ''updated_at'' \<mapsto> ?n]"
    using 1(2) none by simp
  then have "H s1 (jobKey i) ''status'' \<noteq> None" by simp
  then have "H s1 (jobKey i) \<noteq> Map.empty" by auto
  from redis_server.rdGetJob_effect [OF assms(1) 1(3) assms(4) this] r show ?thesis
    by (simp add: h parseJobFromMap_def field_def)
qed

theorem redis_ack_missing_ghost_witness:
  "\<exists>s' j. rdAck memRedis (envAt (10 * second)) ''z'' twoJobs
      = (Err (ErrWrap ''failed to ack job'' ErrRedisNil), s') \<and>
    rdGetJob memRedis (envAt (10 * second)) ''z'' s' = (Ret j, s') \<and> jID j = ''''"
  using redis_ack_missing_ghost [OF mem_redis.redis_server_axioms twoJobs(1) calm_10 calm_10, of "''z''"]
  by (auto simp: twoJobs(2))

text \<open>\<open>Nack\<close> reads the attempt counter before its script runs, so two overlapping calls
  count one attempt: when both have read \<open>a\<close>, the counter is \<open>a + 1\<close> after both scripts.\<close>

lemma redis_nack_lost_update:
  assumes "redis_server R H Z S" and "rd_inv H Z S s" and "H s (jobKey i) ''id'' = Some i"
    and "0 \<le> a" "a < 2 ^ 31 - 1" and "1 \<le> m" "m < 2 ^ 31"
    and "\<bar>unix (time_add t1 d1)\<bar> \<le> 2 ^ 53" and "\<bar>unix (time_add t2 d2)\<bar> \<le> 2 ^ 53"
  shows "\<exists>r1 s1 r2 s2.
    nackScript R (jobKey i) q a m (err_text err1) (itoa (unix t1)) (unix (time_add t1 d1)) s = (Ret r1, s1) \<and>
    nackScript R (jobKey i) q a m (err_text err2) (itoa (unix t2)) (unix (time_add t2 d2)) s1 = (Ret r2, s2) \<and>
    H s2 (jobKey i) ''attempts'' = Some (itoa (a + 1))"
proof -
  obtain s1 r1 where 1: "nackScript R (jobKey i) q a m (err_text err1) (itoa (unix t1))
      (unix (time_add t1 d1)) s = (Ret r1, s1)" "rd_typed H Z S s1"
    "H s1 = (H s)(jobKey i := nack_fields t1 err1 d1 a m (H s (jobKey i)))"
    by (rule redis_server.nack_script_effect [OF assms(1) rd_invD(1) [OF assms(2)] assms(3-8)])
  have id: "H s1 (jobKey i) ''id'' = Some i" using 1(3) assms(3) by (simp add: nack_fields_def Let_def)
  obtain s2 r2 where 2: "nackScript R (jobKey i) q a m (err_text err2) (itoa (unix t2))
      (unix (time_add t2 d2)) s1 = (Ret r2, s2)"
    "H s2 = (H s1)(jobKey i := nack_fields t2 err2 d2 a m (H s1 (jobKey i)))"
    by (rule redis_server.nack_script_effect [OF assms(1) 1(2) id assms(4-7,9)])
  from 1(1) 2 show ?thesis by (auto simp: nack_fields_def Let_def)
qed

lemma redis_nack_lost_update_witness:
  "\<exists>s1 s2 r1 r2. nackScript memRedis (jobKey ''a'') ''q'' 0 3 '''' (itoa 10) 12 twoJobs = (Ret r1, s1) \<and>
    nackScript memRedis (jobKey ''a'') ''q'' 0 3 '''' (itoa 10) 12 s1 = (Ret r2, s2) \<and>
    memH s2 (jobKey ''a'') ''attempts'' = Some (itoa 1)"
proof -
  have "memH twoJobs (jobKey ''a'') ''id'' = Some ''a''" by code_simp
  from redis_nack_lost_update [OF mem_redis.redis_server_axioms twoJobs(1) this, where a = 0 and m = 3
      and q = "''q''" and ?t1.0 = "10 * second" and ?d1.0 = "2 * second" and ?t2.0 = "10 * second"
      and ?d2.0 = "2 * second" and ?err1.0 = None and ?err2.0 = None]
  show ?thesis by (simp add: time_add_def unix_def second_def err_text_def) blast
qed

end
