(* ===== verification/QueueStats.thy ===== *)
theory QueueStats
  imports RedisProps PostgresProps System
begin

text \<open>
  The statistics of a queue as a function of the stored jobs, and what the two backends
  report. The Redis backend counts the members of its status sets, which it maintains beside
  the hashes: as long as jobs are only settled by the worker that runs them, each set holds
  exactly the jobs with its status.
\<close>

section \<open>The specification\<close>



section \<open>The status sets of Redis\<close>






section \<open>The counts of PostgreSQL\<close>





section \<open>What the backends report\<close>







end
