(* ===== verification/WorkerLive.thy ===== *)
theory WorkerLive
  imports WorkerContract
begin

text \<open>
  A worker on a store that makes progress empties its queue: every tick that finds a due job
  lowers a measure made of the attempts the waiting jobs have left and of the backlog.
\<close>

section \<open>The attempts that are left\<close>

definition attempts_left :: "job \<Rightarrow> nat" where
  "attempts_left j = nat (jMaxAttempts j - jAttempts j)"

definition effort :: "(string \<rightharpoonup> job) \<Rightarrow> string \<Rightarrow> nat" where
  "effort V q = (\<Sum>i \<in> waiting V q. attempts_left (the (V i)))"

lemma settled_cases:
  obtains "settled stamp now oc b j' j = acked stamp now j"
  | err d where "settled stamp now oc b j' j = nacked stamp now err d j"
  unfolding settled_def
  by (cases "oc (jType j')"; cases "the (oc (jType j')) j'") auto

lemma attempts_left_settled:
  assumes "attempts_sane j" "jStatus j = StatusPending"
  shows "(if jStatus (settled stamp now oc b j' j) = StatusPending
          then attempts_left (settled stamp now oc b j' j) else 0) < attempts_left j"
  using assms
  by (cases rule: settled_cases [of stamp now oc b j' j])
    (auto simp: attempts_left_def attempts_sane_def nacked_status status_defs)

lemma settled_queue [simp]: "jQueue (settled stamp now oc b j' j) = jQueue j"
  by (simp add: settled_def split: option.split)

text \<open>Settling a waiting job uses up at least one attempt.\<close>

lemma effort_settled:
  assumes "finite (waiting V q)" "V i = Some j" "jStatus j = StatusPending" "jQueue j = q" "attempts_sane j"
  shows "effort (V(i \<mapsto> settled stamp now oc b j' j)) q < effort V q"
proof -
  let ?k = "settled stamp now oc b j' j"
  let ?W = "waiting V q - {i}"
  have i: "i \<in> waiting V q" using assms(2-4) by (simp add: waiting_def)
  have same: "(\<Sum>n \<in> ?W. attempts_left (the ((V(i \<mapsto> ?k)) n))) = (\<Sum>n \<in> ?W. attempts_left (the (V n)))"
    by (rule sum.cong) auto
  have "effort V q = attempts_left j + (\<Sum>n \<in> ?W. attempts_left (the (V n)))"
    unfolding effort_def using sum.remove [OF assms(1) i, of "\<lambda>n. attempts_left (the (V n))"] assms(2) by simp
  moreover have "effort (V(i \<mapsto> ?k)) q = (if jStatus ?k = StatusPending then attempts_left ?k else 0)
      + (\<Sum>n \<in> ?W. attempts_left (the (V n)))"
  proof (cases "jStatus ?k = StatusPending")
    case True
    then have W: "waiting (V(i \<mapsto> ?k)) q = insert i ?W" using assms(4) by (auto simp: waiting_upd)
    have "i \<notin> ?W" "finite ?W" using assms(1) by simp_all
    from sum.insert [OF this(2,1), of "\<lambda>n. attempts_left (the ((V(i \<mapsto> ?k)) n))"]
    show ?thesis unfolding effort_def W same using True by (simp only: fun_upd_same option.sel if_True refl simp_thms)
  next
    case False
    then show ?thesis unfolding effort_def waiting_upd using same by simp
  qed
  ultimately show ?thesis using attempts_left_settled [OF assms(5,3), of stamp now oc b j'] by simp
qed

section \<open>A tick\<close>

context live_store
begin

lemma run_handler_live:
  assumes "live s" "calm_tick we" "pure_registry reg oc" "backoff_ok b"
    and j: "view s (jID j') = Some j" "jStatus j = StatusRunning" "counters_ok j"
    and r: "run_handler B reg b we j' s = (r, s')"
  shows "live s' \<and> backlog q s' \<le> Suc (backlog q s)"
proof -
  let ?e = "weSettle we"
  have e: "calm ?e" using assms(2) by (simp add: calm_tick_def)
  have nack: "live (snd (beNack B ?e (jID j') x d s)) \<and> backlog q (snd (beNack B ?e (jID j') x d s)) \<le> Suc (backlog q s)"
    if "int64_ok d" for x d
    using nack_live [OF assms(1) e j that, of x "fst (beNack B ?e (jID j') x d s)"] by simp
  have ack: "live (snd (beAck B ?e (jID j') s)) \<and> backlog q (snd (beAck B ?e (jID j') s)) \<le> backlog q s"
    using ack_live [OF assms(1) e j(1,2), of "fst (beAck B ?e (jID j') s)"] by simp
  have snd_wrap: "snd (wrap_err p x) = snd x" for p and x :: "unit res \<times> 'a"
    by (cases "(p, x)" rule: wrap_err.cases) auto
  have s': "s' = snd (run_handler B reg b we j' s)" using r by simp
  show ?thesis
  proof (cases "Get (jType j') reg")
    case None
    then show ?thesis using nack [of 0] unfolding s' run_handler_def by (simp add: snd_wrap int64_ok_def)
  next
    case (Some h)
    then obtain f where "pure_handler h f" using pure_registry_Some [OF assms(3)] by blast
    then show ?thesis using Some nack ack assms(4) unfolding s' run_handler_def
      by (cases "f j'") (auto simp: pure_handler_def snd_wrap Let_def backoff_ok_def)
  qed
qed

text \<open>A tick keeps the store live, and when a job of the queue is due the measure goes down.\<close>

lemma tick_live:
  assumes live: "live s" and tick: "calm_tick we" and reg: "pure_registry reg oc"
    and b: "backoff_ok (wBackoff w)" and sane: "\<forall>i j. view s i = Some j \<longrightarrow> attempts_sane j"
    and p: "processNext B reg we w s = (r, w', s')"
    and due: "view s i = Some j" "jStatus j = StatusPending" "jQueue j = wQueueName w"
      "jScheduledAt j \<le> stamp (clk (weReserve we) 0)"
  shows "r = Ret () \<and> live s' \<and>
    2 * effort (view s') (wQueueName w) + backlog (wQueueName w) s' <
    2 * effort (view s) (wQueueName w) + backlog (wQueueName w) s"
proof -
  let ?q = "wQueueName w"
  have e: "calm (weReserve we)" using tick by (simp add: calm_tick_def)
  obtain r1 s1 where r1: "beReserve B (weReserve we) ?q s = (r1, s1)" by (cases rule: prod.exhaust)
  have 1: "live s1" "backlog ?q s1 < backlog ?q s" "\<exists>x. r1 = Ret x"
    using reserve_live [OF live e r1] reserve_progress [OF live e due r1] by auto
  have out: "reserve_outcome (clk (weReserve we) 0) ?q (view s) r1 (view s1)"
    using reserve_law [OF live_inv [OF live] e, of ?q] r1 by auto
  show ?thesis
  proof (cases "r1 = Ret None")
    case True
    then show ?thesis using p r1 1 out by (auto simp: processNext_def reserve_outcome_def)
  next
    case False
    then obtain j' where j': "r1 = Ret (Some j')" using 1(3) by (metis not_Some_eq)
    with out obtain j0 t where j0: "view s (jID j') = Some j0" "jQueue j0 = ?q" "jStatus j0 = StatusPending"
      and v1: "view s1 = (view s)(jID j' \<mapsto> j0\<lparr>jStatus := StatusRunning, jUpdatedAt := t\<rparr>)"
      by (auto simp: reserve_outcome_def)
    let ?j1 = "j0\<lparr>jStatus := StatusRunning, jUpdatedAt := t\<rparr>"
    have sane0: "attempts_sane j0" using sane j0(1) by blast
    have j1: "view s1 (jID j') = Some ?j1" "jStatus ?j1 = StatusRunning" "counters_ok ?j1"
      using v1 sane_counters [OF sane0 j0(3)] by simp_all
    obtain s2 where s2: "run_handler B reg (wBackoff w) we j' s1 = (Ret (), s2)"
      "view s2 = (view s1)(jID j' \<mapsto> settled stamp (clk (weSettle we) 0) oc (wBackoff w) j' ?j1)"
      by (rule run_handler_settles [OF live_inv [OF 1(1)] tick reg b j1(1,3)]) blast
    have "live s2 \<and> backlog ?q s2 \<le> Suc (backlog ?q s1)"
      by (rule run_handler_live [OF 1(1) tick reg b j1 s2(1)])
    moreover have "effort (view s2) ?q < effort (view s) ?q"
      using effort_settled [OF waiting_finite [OF live] j0(1,3,2) sane0] s2(2) v1 by simp
    moreover have "r = Ret () \<and> s' = s2"
      using p r1 j' s2(1) by (auto simp: processNext_def execute_def Let_def)
    ultimately show ?thesis using 1(2) by simp
  qed
qed

section \<open>The queue is emptied\<close>

lemma worker_drains:
  assumes "live s" "\<forall>n. calm_tick (we n)" "pure_registry reg oc" "backoff_ok (wBackoff w)"
    "\<forall>i j. view s i = Some j \<longrightarrow> attempts_sane j"
  shows "\<exists>k \<le> 2 * effort (view s) (wQueueName w) + backlog (wQueueName w) s. \<exists>logged w' s'.
    run_loop B reg (map (\<lambda>n. Tick (we n)) [0 ..< k]) w s = (Polling, logged, w', s') \<and>
    dom (view s') = dom (view s) \<and>
    (\<forall>i j. view s' i = Some j \<longrightarrow> attempts_sane j \<and>
      (jStatus j = StatusPending \<longrightarrow> jQueue j = wQueueName w \<longrightarrow>
        stamp (clk (weReserve (we k)) 0) < jScheduledAt j))"
  using assms
proof (induction "2 * effort (view s) (wQueueName w) + backlog (wQueueName w) s" arbitrary: s w we
    rule: less_induct)
  case less
  let ?q = "wQueueName w"
  show ?case
  proof (cases "\<exists>i j. view s i = Some j \<and> jStatus j = StatusPending \<and> jQueue j = ?q \<and>
      jScheduledAt j \<le> stamp (clk (weReserve (we 0)) 0)")
    case False
    then show ?thesis using less.prems(5) by (intro exI [of _ 0]) (auto simp: not_le)
  next
    case True
    then obtain i j where due: "view s i = Some j" "jStatus j = StatusPending" "jQueue j = ?q"
      "jScheduledAt j \<le> stamp (clk (weReserve (we 0)) 0)" by blast
    obtain r w1 s1 where p: "processNext B reg (we 0) w s = (r, w1, s1)" by (cases rule: prod_cases3)
    have c: "calm_tick (we 0)" using less.prems(2) by blast
    have 1: "r = Ret ()" "live s1" "2 * effort (view s1) ?q + backlog ?q s1 <
      2 * effort (view s) ?q + backlog ?q s"
      using tick_live [OF less.prems(1) c less.prems(3-5) p due] by simp_all
    have sane: "(\<forall>i j. view s1 i = Some j \<longrightarrow> attempts_sane j)" and dom: "dom (view s1) = dom (view s)"
      using tick_sane [OF live_inv [OF less.prems(1)] c less.prems(3-5) p] by simp_all
    have w1: "wQueueName w1 = ?q" "wBackoff w1 = wBackoff w" using processNext_fixed [OF p] by simp_all
    obtain k logged w' s' where k: "k \<le> 2 * effort (view s1) ?q + backlog ?q s1"
      and run: "run_loop B reg (map (\<lambda>n. Tick (we (Suc n))) [0 ..< k]) w1 s1 = (Polling, logged, w', s')"
      and rest: "dom (view s') = dom (view s1)" "\<forall>i j. view s' i = Some j \<longrightarrow> attempts_sane j \<and>
        (jStatus j = StatusPending \<longrightarrow> jQueue j = ?q \<longrightarrow>
          stamp (clk (weReserve (we (Suc k))) 0) < jScheduledAt j)"
      using less.hyps [of s1 w1 "\<lambda>n. we (Suc n)"] 1 less.prems sane w1 by auto
    have "map (\<lambda>n. Tick (we n)) [0 ..< Suc k] = Tick (we 0) # map (\<lambda>n. Tick (we (Suc n))) [0 ..< k]"
      by (simp add: upt_conv_Cons map_Suc_upt [symmetric] comp_def del: upt_Suc)
    then have "run_loop B reg (map (\<lambda>n. Tick (we n)) [0 ..< Suc k]) w s = (Polling, logged, w', s')"
      using p 1(1) run by simp
    then show ?thesis using k 1(3) rest dom by (intro exI [of _ "Suc k"]) auto
  qed
qed

end

end
