(* ===== verification/WorkerProps.thy ===== *)
theory WorkerProps
  imports WorkerContract RedisProps
begin

text \<open>
  The properties of the worker: what a tick does to a store that keeps the contract, the
  bound on the attempts of every job, and the job that is left running when a worker is shut
  down between the handler and the Ack. The witnesses run on the Redis backend over the
  server in memory.
\<close>

section \<open>A tick\<close>

text \<open>C4. One tick of a worker, over any store that keeps the contract and with handlers that
  leave the store alone, changes nothing or settles exactly one job: a pending one of its
  queue whose time has come. It is acked when its handler succeeds; otherwise it is nacked
  with the handler's error and the back-off for the next attempt, and with the error of the
  missing handler and no delay when there is none.\<close>

theorem worker_tick_settles:
  assumes "job_store B Inv view stamp nm storable readable" and "Inv s" and "calm_tick we"
    and "pure_registry reg oc" and "backoff_ok (wBackoff w)"
    and "\<forall>i j. view s i = Some j \<longrightarrow> jStatus j = StatusPending \<longrightarrow> counters_ok j"
  shows "\<exists>r w' s'. processNext B reg we w s = (r, w', s') \<and> Inv s' \<and> (\<forall>p. r \<noteq> Panic p) \<and>
    (view s' = view s \<or>
     (\<exists>i j t. r = Ret () \<and> view s i = Some j \<and> jStatus j = StatusPending \<and> jQueue j = wQueueName w \<and>
        jScheduledAt j \<le> clk (weReserve we) 0 \<and>
        view s' = (view s)(i \<mapsto> settled stamp (clk (weSettle we) 0) oc (wBackoff w)
          (j\<lparr>jStatus := StatusRunning, jUpdatedAt := t\<rparr>) j)))"
  using job_store.tick_outcome [OF assms(1-5)] assms(6) by blast

definition sampleTick :: wenv where
  "sampleTick = \<lparr>weReserve = envAt (10 * second), weHandle = envAt (10 * second),
     weSettle = envAt (10 * second), weNow = (\<lambda>_. 10 * second)\<rparr>"

definition sampleWorker :: worker where
  "sampleWorker = NewWorker (\<lambda>_. 0) 0 ''worker-0'' ''q'' [WithBackoff (\<lambda>n. second)]"

lemma sampleWorker_simps [simp]: "wQueueName sampleWorker = ''q''" "wBackoff sampleWorker = (\<lambda>n. second)"
  by (simp_all add: sampleWorker_def NewWorker_def WithBackoff_def)

lemma sample_backoff: "backoff_ok (wBackoff sampleWorker)"
  by (simp add: backoff_ok_def int64_ok_def second_def)

lemma sample_calm: "calm_tick sampleTick"
  by (simp add: calm_tick_def sampleTick_def calm_10)

lemma no_handlers: "pure_registry NewRegistry (\<lambda>t. None)"
  by (simp add: pure_registry_def)

lemma twoJobs_sane: "\<forall>i j. rd_view memH twoJobs i = Some j \<longrightarrow> attempts_sane j"
  by (simp add: twoJobs(2) attempts_sane_def rd_norm_def status_defs)

theorem worker_tick_settles_witness:
  "\<exists>r w' s'. processNext (RedisBackend memRedis) NewRegistry sampleTick sampleWorker twoJobs = (r, w', s') \<and>
    rd_inv memH memZ memS s' \<and> (\<forall>p. r \<noteq> Panic p)"
proof -
  have c: "\<forall>i j. rd_view memH twoJobs i = Some j \<longrightarrow> jStatus j = StatusPending \<longrightarrow> counters_ok j"
    using twoJobs_sane sane_counters by blast
  show ?thesis
    using worker_tick_settles [OF mem_redis.contract twoJobs(1) sample_calm no_handlers sample_backoff c] by blast
qed

section \<open>The attempts of every job\<close>

text \<open>C6. Whatever sequence of ticks a worker goes through, no job is created or removed, no
  job is ever tried more often than its limit allows, a job that still waits or runs has an
  attempt left, and a job is dead only when it has used all its attempts.\<close>

theorem worker_attempts_bounded:
  assumes "job_store B Inv view stamp nm storable readable" and "Inv s"
    and "pure_registry reg oc" and "backoff_ok (wBackoff w)"
    and "\<forall>we. Tick we \<in> set es \<longrightarrow> calm_tick we"
    and "\<forall>i j. view s i = Some j \<longrightarrow> attempts_sane j"
    and "run_loop B reg es w s = (out, logged, w', s')"
  shows "Inv s' \<and> (\<forall>i j. view s' i = Some j \<longrightarrow> attempts_sane j) \<and> dom (view s') = dom (view s)"
  using assms by (rule job_store.run_sane)

theorem worker_attempts_bounded_witness:
  "\<exists>out logged w' s'. run_loop (RedisBackend memRedis) NewRegistry
      [Tick sampleTick, Tick sampleTick, Tick sampleTick, Done 0] sampleWorker twoJobs = (out, logged, w', s') \<and>
    dom (rd_view memH s') = {''a'', ''b''}"
proof -
  let ?es = "[Tick sampleTick, Tick sampleTick, Tick sampleTick, Done 0]"
  obtain out logged w' s' where r: "run_loop (RedisBackend memRedis) NewRegistry ?es sampleWorker twoJobs
      = (out, logged, w', s')" by (cases rule: prod_cases4)
  have "\<forall>we. Tick we \<in> set ?es \<longrightarrow> calm_tick we" using sample_calm by simp
  from worker_attempts_bounded [OF mem_redis.contract twoJobs(1) no_handlers sample_backoff this
      twoJobs_sane r] have "dom (rd_view memH s') = dom (rd_view memH twoJobs)" by blast
  also have "\<dots> = {''a'', ''b''}" unfolding twoJobs(2) by (auto split: if_splits)
  finally have "dom (rd_view memH s') = {''a'', ''b''}" .
  with r show ?thesis by blast
qed

section \<open>Shutdown\<close>




end
