(* ===== verification/RedisLive.thy ===== *)
theory RedisLive
  imports RedisProps
begin

text \<open>
  The Redis backend makes progress: its backlog is the number of entries in the sorted set of
  a queue, stale ones included.
\<close>

context redis_server
begin

lemma card_remove: "f i \<noteq> None \<Longrightarrow> finite (dom f) \<Longrightarrow> card (dom (f(i := None))) < card (dom f)"
  by (auto intro: psubset_card_mono)

lemma card_insert_dom: "finite (dom f) \<Longrightarrow> card (dom (f(i \<mapsto> v))) \<le> Suc (card (dom f))"
  by (simp add: card_insert_if)

text \<open>A reservation removes at most entries, and one when something is due.\<close>

lemma reserve_backlog:
  assumes inv: "rinv s" and e: "calm e" and r: "rdReserve R e q s = (r, s')"
  shows "card (dom (Z s' (queueKey q))) \<le> card (dom (Z s (queueKey q)))"
    and "Z s (queueKey q) m = Some sc \<Longrightarrow> sc \<le> unix (clk e 0) \<Longrightarrow>
      (\<exists>x. r = Ret x) \<and> card (dom (Z s' (queueKey q))) < card (dom (Z s (queueKey q)))"
proof -
  have strict: "(\<exists>x. r = Ret x) \<and> card (dom (Z s' (queueKey q))) < card (dom (Z s (queueKey q)))"
    if m: "Z s (queueKey q) m = Some sc" "sc \<le> unix (clk e 0)" for m sc
  proof (rule rd_reserve_ready [OF inv e m])
    fix i j s1
    assume "Z s (queueKey q) i \<noteq> None" "Z s1 (queueKey q) = (Z s (queueKey q))(i := None)"
      "rdReserve R e q s = (Ret (Some (j\<lparr>jStatus := StatusRunning, jUpdatedAt := rd_stamp (clk e 0)\<rparr>)), s1)"
    then show ?thesis using r card_remove [OF _ z_finite, of s "queueKey q" i] by simp
  next
    fix i s1
    assume "Z s (queueKey q) i \<noteq> None" "rdReserve R e q s = (Ret None, s1)"
      "Z s1 (queueKey q) = (Z s (queueKey q))(i := None)"
    then show ?thesis using r card_remove [OF _ z_finite, of s "queueKey q" i] by simp
  qed
  then show "Z s (queueKey q) m = Some sc \<Longrightarrow> sc \<le> unix (clk e 0) \<Longrightarrow>
      (\<exists>x. r = Ret x) \<and> card (dom (Z s' (queueKey q))) < card (dom (Z s (queueKey q)))" .
  show "card (dom (Z s' (queueKey q))) \<le> card (dom (Z s (queueKey q)))"
  proof (cases "\<exists>m sc. Z s (queueKey q) m = Some sc \<and> sc \<le> unix (clk e 0)")
    case True
    then show ?thesis using strict by (meson less_imp_le)
  next
    case False
    have mx: "f64_of_int (unix (clk e 0)) = unix (clk e 0)"
      using calm_unix(2) [OF e] by (simp add: f64_of_int_exact)
    have "rZRangeByScoreFirst R (queueKey q) (unix (clk e 0)) s = Ret []"
      using False by (intro zfirst_none [OF typed_families(3,4) [OF rd_invD(1) [OF inv]]]) (meson not_less)
    then have "rdReserve R e q s = (Ret None, s)"
      using e by (simp add: rdReserve_def calm_io mx reserveScript_def reserve_reply_def go_simps)
    with r show ?thesis by simp
  qed
qed

lemma ack_backlog:
  assumes inv: "rinv s" and e: "calm e" and v: "rd_view H s i = Some j"
  shows "Z (snd (rdAck R e i s)) = Z s"
proof -
  have ne: "H s (jobKey i) \<noteq> Map.empty" using v by (auto elim: rd_view_SomeE)
  obtain q where q: "H s (jobKey i) ''queue'' = Some q"
    using rd_invD(2) [OF inv ne] by (rule hash_okE)
  show ?thesis by (rule rdAck_effect [OF rd_invD(1) [OF inv] e q]) simp
qed

lemma nack_backlog:
  assumes inv: "rinv s" and e: "calm e" and v: "rd_view H s i = Some j" and c: "counters_ok j"
    and d: "int64_ok d"
  shows "card (dom (Z (snd (rdNack R e i err d s)) (queueKey q))) \<le> Suc (card (dom (Z s (queueKey q))))"
proof -
  have ne: "H s (jobKey i) \<noteq> Map.empty" and j: "j = parseJobFromMap (H s (jobKey i))"
    using v by (auto elim: rd_view_SomeE)
  obtain q0 a m where id: "H s (jobKey i) ''id'' = Some i" and q: "H s (jobKey i) ''queue'' = Some q0"
    and a: "parse_int (field (H s (jobKey i)) ''attempts'') = Some a" "jAttempts j = a"
    and m: "parse_int (field (H s (jobKey i)) ''max_attempts'') = Some m" "jMaxAttempts j = m"
    using rd_invD(2) [OF inv ne] j by (auto elim: hash_okE)
  have ab: "0 \<le> a" "a < 2 ^ 31 - 1" "1 \<le> m" "m < 2 ^ 31" using c a(2) m(2) by (simp_all add: counters_ok_def)
  obtain s' where r: "rdNack R e i err d s = (Ret (), s')"
    and z: "Z s' = (if m \<le> a + 1 then Z s else (Z s)(queueKey q0 :=
       (Z s (queueKey q0))(i \<mapsto> unix (time_add (clk e 0) d))))"
    by (rule rdNack_effect [OF rd_invD(1) [OF inv] e id q a(1) ab(1,2) m(1) ab(3,4) d, where err = err])
  have "Z s' (queueKey q) = Z s (queueKey q) \<or>
      (\<exists>v. Z s' (queueKey q) = (Z s (queueKey q))(i \<mapsto> v))"
    using z by auto
  then show ?thesis using r card_insert_dom [OF z_finite, of s "queueKey q" i] by auto
qed

lemma waiting_queued: "rinv s \<Longrightarrow> waiting (rd_view H s) q \<subseteq> dom (Z s (queueKey q))"
  by (auto simp: waiting_def elim: pending_entry)

end

sublocale redis_server \<subseteq> rdl: live_store "RedisBackend R" "rd_inv H Z S" "rd_view H" rd_stamp rd_norm
    "\<lambda>_. rd_storable" "\<lambda>_ _. True" "rd_inv H Z S" "\<lambda>q s. card (dom (Z s (queueKey q)))"
proof unfold_locales
  fix s q assume inv: "rd_inv H Z S s"
  then show "finite (waiting (rd_view H s) q)" by (rule finite_subset [OF waiting_queued z_finite])
next
  fix s e q and r :: "job option res" and s'
  assume h: "rd_inv H Z S s" "calm e" "beReserve (RedisBackend R) e q s = (r, s')"
  then show "rd_inv H Z S s' \<and> card (dom (Z s' (queueKey q))) \<le> card (dom (Z s (queueKey q)))"
    using rd_reserve_law [of s e q] reserve_backlog(1) [of s e q] by (auto simp: RedisBackend_def)
next
  fix s e i j and u :: "unit res" and s' q
  assume h: "rd_inv H Z S s" "calm e" "rd_view H s i = Some j" "beAck (RedisBackend R) e i s = (u, s')"
  then show "rd_inv H Z S s' \<and> card (dom (Z s' (queueKey q))) \<le> card (dom (Z s (queueKey q)))"
    using rd_ack_law [of s e i j] ack_backlog [of s e i j] by (auto simp: RedisBackend_def)
next
  fix s e i j d err and u :: "unit res" and s' q
  assume h: "rd_inv H Z S s" "calm e" "rd_view H s i = Some j" "counters_ok j" "int64_ok d"
    "beNack (RedisBackend R) e i err d s = (u, s')"
  then show "rd_inv H Z S s' \<and> card (dom (Z s' (queueKey q))) \<le> Suc (card (dom (Z s (queueKey q))))"
    using rd_nack_law [of s e i j d err] nack_backlog [of s e i j d err q] by (auto simp: RedisBackend_def)
next
  fix s e i j q and r :: "job option res" and s'
  assume h: "rd_inv H Z S s" "calm e" "rd_view H s i = Some j" "jStatus j = StatusPending" "jQueue j = q"
    "jScheduledAt j \<le> rd_stamp (clk e 0)" "beReserve (RedisBackend R) e q s = (r, s')"
  obtain sc where sc: "Z s (queueKey q) i = Some sc" "jScheduledAt j = from_unix sc"
    using pending_entry [OF h(1,3,4)] h(5) by blast
  have "from_unix sc \<le> clk e 0" using sc(2) h(6) from_unix_le [of "clk e 0"] by (simp add: rd_stamp_def)
  then have "sc \<le> unix (clk e 0)" by (rule due_score)
  with reserve_backlog(2) [OF h(1,2) _ sc(1)] h(7)
  show "(\<exists>x. r = Ret x) \<and> card (dom (Z s' (queueKey q))) < card (dom (Z s (queueKey q)))"
    by (simp add: RedisBackend_def)
qed

context redis_server
begin

lemma live: "live_store (RedisBackend R) (rd_inv H Z S) (rd_view H) rd_stamp rd_norm (\<lambda>_. rd_storable)
    (\<lambda>_ _. True) (rd_inv H Z S) (\<lambda>q s. card (dom (Z s (queueKey q))))"
  by unfold_locales

end

end
