(* ===== verification/PostgresLive.thy ===== *)
theory PostgresLive
  imports PostgresProps
begin

text \<open>
  The PostgreSQL backend makes progress when no other transaction holds a row locked and every
  row's \<open>last_error\<close> is a text, so that each row can be scanned. Its backlog is the number of
  pending rows of a queue: a reservation never finds a stale one.
\<close>

locale pg_unlocked = pg_server +
  assumes unlocked: "\<not> pgLocked E i"

interpretation plain_live: pg_unlocked plainEngine
  by unfold_locales simp

definition pg_live :: "table \<Rightarrow> bool" where
  "pg_live s \<longleftrightarrow> table_ok s \<and> (\<forall>r \<in> set s. c_last_error r \<noteq> None)"

lemma texts_update:
  assumes "\<forall>r \<in> set s. c_last_error r \<noteq> None" and "\<And>r. c_last_error r \<noteq> None \<Longrightarrow> c_last_error (f r) \<noteq> None"
  shows "\<forall>r \<in> set (snd (update_where i f s)). c_last_error r \<noteq> None"
  using assms by (auto simp: update_where_def)

lemma texts_nack:
  assumes "\<forall>r \<in> set s. c_last_error r \<noteq> None"
  shows "\<forall>r \<in> set (snd (pgNack E e i err d s)). c_last_error r \<noteq> None"
proof -
  have dead: "nack_dead E a m t i s = Ret s' \<Longrightarrow> \<forall>r \<in> set s'. c_last_error r \<noteq> None" for a m t s'
    using assms by (auto simp: nack_dead_def update_where_def split: if_splits)
  have retry: "nack_retry E a m t u i s = Ret s' \<Longrightarrow> \<forall>r \<in> set s'. c_last_error r \<noteq> None" for a m t u s'
    using assms by (auto simp: nack_retry_def update_where_def split: if_splits)
  show ?thesis
    using pgNack_snd [of E e i err d s] assms dead retry by (metis (no_types, lifting))
qed

lemma texts_exec:
  assumes "\<forall>r \<in> set s. c_last_error r \<noteq> None" and "\<forall>r \<in> set (snd (stmt s)). c_last_error r \<noteq> None"
  shows "\<forall>r \<in> set (snd (exec_one w f i stmt s)). c_last_error r \<noteq> None"
  using exec_one_snd [of w f i stmt s] assms by metis

lemma texts_ack:
  "\<forall>r \<in> set s. c_last_error r \<noteq> None \<Longrightarrow> \<forall>r \<in> set (snd (pgAck E e i s)). c_last_error r \<noteq> None"
  unfolding pgAck_def Let_def by (intro texts_exec texts_update) auto

lemma finite_pg_view: "finite (dom (pg_view s))"
proof (rule finite_subset)
  show "dom (pg_view s) \<subseteq> c_id ` set s"
    by (auto simp: pg_view_def image_iff) (metis select_by_id_in)
qed simp

text \<open>What an update of one job does to the waiting jobs.\<close>

lemma card_waiting_le:
  assumes "finite (dom V)" "jStatus j \<noteq> StatusPending"
  shows "card (waiting (V(i \<mapsto> j)) q) \<le> card (waiting V q)"
  using assms finite_subset [OF waiting_dom assms(1)] by (auto simp: waiting_upd card_mono)

lemma card_waiting_less:
  assumes "finite (dom V)" "jStatus j \<noteq> StatusPending" "i \<in> waiting V q"
  shows "card (waiting (V(i \<mapsto> j)) q) < card (waiting V q)"
proof -
  have "finite (waiting V q)" by (rule finite_subset [OF waiting_dom assms(1)])
  from card_Diff1_less [OF this assms(3)] show ?thesis using assms(2) by (simp add: waiting_upd)
qed

lemma card_waiting_Suc: "finite (dom V) \<Longrightarrow> card (waiting (V(i \<mapsto> j)) q) \<le> Suc (card (waiting V q))"
  using finite_subset [OF waiting_dom, of V q]
  by (auto simp: waiting_upd card_insert_if intro: le_SucI [OF card_Diff1_le])

context pg_unlocked
begin

lemma reserve_outcomes:
  assumes live: "pg_live s" and e: "calm e" and r: "pgReserve E e q s = (r, s')"
  obtains (none) "r = Ret None" "s' = s" "\<forall>r \<in> set s. \<not> candidate E q (pgTime E (clk e 0)) r"
    | (job) i j where "\<exists>j'. r = Ret (Some j')" "pg_live s'" "i \<in> waiting (pg_view s) q"
        "jStatus j \<noteq> StatusPending" "pg_view s' = (pg_view s)(i \<mapsto> j)"
proof (cases "select_next E q (pgTime E (clk e 0)) s")
  case None
  with pgReserve_none [OF e None] r none show thesis by (simp add: select_next_None_iff)
next
  case (Some r0)
  have scans: "c_last_error r0 \<noteq> None"
    using select_next_candidate(1) [OF Some] live by (simp add: pg_live_def)
  note eq = pgReserve_some [OF e Some scans]
  have ok: "table_ok s" using live by (simp add: pg_live_def)
  obtain r2 s2 where r2: "pgReserve E e q s = (r2, s2)" "table_ok s2"
    "reserve_outcome (clk e 0) q (pg_view s) r2 (pg_view s2)"
    using pgReserve_law [OF ok e] by blast
  have "r2 = r" "s2 = s'" using r2(1) r by simp_all
  obtain j' where j': "r = Ret (Some j')" using eq r by simp
  have "reserve_outcome (clk e 0) q (pg_view s) (Ret (Some j')) (pg_view s')"
    using r2(3) unfolding \<open>r2 = r\<close> \<open>s2 = s'\<close> j' .
  then obtain j t' where v: "pg_view s (jID j') = Some j" "jQueue j = q" "jStatus j = StatusPending"
    "pg_view s' = (pg_view s)(jID j' \<mapsto> j\<lparr>jStatus := StatusRunning, jUpdatedAt := t'\<rparr>)"
    unfolding reserve_outcome_def res.case option.case by blast
  have "\<forall>r \<in> set s'. c_last_error r \<noteq> None"
    using eq r live by (auto simp: pg_live_def update_where_def)
  then have "pg_live s'" using r2(2) \<open>s2 = s'\<close> by (simp add: pg_live_def)
  moreover have "jID j' \<in> waiting (pg_view s) q" using v(1-3) by (simp add: waiting_def)
  ultimately show thesis
    using job [of "jID j'" "j\<lparr>jStatus := StatusRunning, jUpdatedAt := t'\<rparr>"] j' v(4)
    by (simp add: status_defs)
qed

lemma due_candidate:
  assumes "pg_view s i = Some j" "jStatus j = StatusPending" "jQueue j = q"
    and "jScheduledAt j \<le> pgTime E (clk e 0)"
  shows "\<exists>r \<in> set s. candidate E q (pgTime E (clk e 0)) r"
proof -
  obtain r where r: "select_by_id i s = Some r" and j: "j = job_of_row r"
    using assms(1) by (rule pg_view_SomeE)
  then show ?thesis
    using assms(2-4) select_by_id_in(1) [OF r] unlocked
    by (auto simp: candidate_def job_of_row_def status_defs)
qed

end

sublocale pg_unlocked \<subseteq> pgl: live_store "PostgresBackend E" table_ok pg_view "pgTime E" "pg_norm E"
    "pg_storable E" pg_readable pg_live "\<lambda>q s. card (waiting (pg_view s) q)"
proof unfold_locales
  fix s q assume "pg_live s"
  then show "table_ok s" and "finite (waiting (pg_view s) q)"
    by (simp_all add: pg_live_def finite_subset [OF waiting_dom finite_pg_view])
next
  fix s e q and r :: "job option res" and s'
  assume h: "pg_live s" "calm e" "beReserve (PostgresBackend E) e q s = (r, s')"
  then have r: "pgReserve E e q s = (r, s')" by (simp add: PostgresBackend_def)
  show "pg_live s' \<and> card (waiting (pg_view s') q) \<le> card (waiting (pg_view s) q)"
    by (rule reserve_outcomes [OF h(1,2) r]) (use h(1) card_waiting_le [OF finite_pg_view] in auto)
next
  fix s e i j and u :: "unit res" and s' q
  assume h: "pg_live s" "calm e" "pg_view s i = Some j" "beAck (PostgresBackend E) e i s = (u, s')"
  have r: "pgAck E e i s = (u, s')" using h(4) by (simp add: PostgresBackend_def)
  have ok: "table_ok s" using h(1) by (simp add: pg_live_def)
  have "table_ok s' \<and> pg_view s' = (pg_view s)(i \<mapsto> acked (pgTime E) (clk e 0) j)"
    using pgAck_law [OF ok h(2,3), of E] r by auto
  moreover have "\<forall>r \<in> set s'. c_last_error r \<noteq> None"
    using texts_ack [of s E e i] h(1) r by (simp add: pg_live_def)
  ultimately show "pg_live s' \<and> card (waiting (pg_view s') q) \<le> card (waiting (pg_view s) q)"
    by (simp add: pg_live_def card_waiting_le [OF finite_pg_view] status_defs)
next
  fix s e i j d err and u :: "unit res" and s' q
  assume h: "pg_live s" "calm e" "pg_view s i = Some j" "counters_ok j"
    "beNack (PostgresBackend E) e i err d s = (u, s')"
  have r: "pgNack E e i err d s = (u, s')" using h(5) by (simp add: PostgresBackend_def)
  have ok: "table_ok s" using h(1) by (simp add: pg_live_def)
  have "table_ok s' \<and> pg_view s' = (pg_view s)(i \<mapsto> nacked (pgTime E) (clk e 0) err d j)"
    using pgNack_law [OF ok h(2-4), of E err d] r by auto
  moreover have "\<forall>r \<in> set s'. c_last_error r \<noteq> None"
    using texts_nack [of s E e i err d] h(1) r by (simp add: pg_live_def)
  ultimately show "pg_live s' \<and> card (waiting (pg_view s') q) \<le> Suc (card (waiting (pg_view s) q))"
    by (simp add: pg_live_def card_waiting_Suc [OF finite_pg_view])
next
  fix s e i j q and r :: "job option res" and s'
  assume h: "pg_live s" "calm e" "pg_view s i = Some j" "jStatus j = StatusPending" "jQueue j = q"
    "jScheduledAt j \<le> pgTime E (clk e 0)" "beReserve (PostgresBackend E) e q s = (r, s')"
  then have r: "pgReserve E e q s = (r, s')" by (simp add: PostgresBackend_def)
  show "(\<exists>x. r = Ret x) \<and> card (waiting (pg_view s') q) < card (waiting (pg_view s) q)"
    by (rule reserve_outcomes [OF h(1,2) r])
      (use due_candidate [OF h(3-6)] card_waiting_less [OF finite_pg_view] in auto)
qed

context pg_unlocked
begin

lemma live: "live_store (PostgresBackend E) table_ok pg_view (pgTime E) (pg_norm E) (pg_storable E)
    pg_readable pg_live (\<lambda>q s. card (waiting (pg_view s) q))"
  by unfold_locales

end

end
