(* ===== verification/QueueHealth.thy ===== *)
theory QueueHealth
  imports Backend Float64
begin

text \<open>\<open>HealthScore\<close> of internal/queue/queue.go, in \<open>float64\<close> arithmetic.\<close>

definition HealthScore :: "queue_stats \<Rightarrow> f64" where
  "HealthScore q =
     (let total = wrap64 (qCompletedCount q + qFailedCount q) in
      if total = 0 then Fin 100
      else f64_mul (f64_div (float64 (qCompletedCount q)) (float64 total)) (Fin 100))"

lemma quotient_unit:
  assumes "0 \<le> c" "c \<le> t" "0 < t"
  obtains r where "f64_div (float64 c) (float64 t) = Fin r" "0 \<le> r" "r \<le> 1"
    "c = t \<longrightarrow> r = 1" "c = 0 \<longrightarrow> r = 0"
proof -
  have pos: "0 < f64_of_int t" using assms(3) by (rule f64_of_int_pos)
  have le: "f64_of_int c \<le> f64_of_int t"
    using assms f64_of_int_mono [of c t] pos by (cases "c = 0") auto
  have nn: "0 \<le> f64_of_int c" using assms(1) f64_of_int_pos [of c] by (cases "c = 0") auto
  let ?x = "of_int (f64_of_int c) / (of_int (f64_of_int t) :: rat)"
  have "0 \<le> ?x" "?x \<le> 1" using pos le nn by (simp_all add: divide_le_eq)
  then obtain r where r: "round64 ?x = Fin r" "0 \<le> r" "r \<le> 1"
    using round64_unit unfolding in_unit_def by blast
  have "round64 1 = Fin 1" using round64_powi [of 0] by simp
  then have "c = t \<longrightarrow> r = 1" using r(1) pos by auto
  moreover have "c = 0 \<longrightarrow> r = 0" using r(1) by (auto simp: round64_def)
  ultimately show thesis using r pos by (intro that [of r]) (simp_all add: float64_def)
qed

lemma health_score_bounds:
  assumes "0 \<le> qCompletedCount q" "0 \<le> qFailedCount q" "qCompletedCount q + qFailedCount q < 2 ^ 63"
  shows "\<exists>r. HealthScore q = Fin r \<and> 0 \<le> r \<and> r \<le> 100 \<and>
    (qFailedCount q = 0 \<longrightarrow> r = 100) \<and> (qCompletedCount q = 0 \<and> 0 < qFailedCount q \<longrightarrow> r = 0)"
proof -
  let ?c = "qCompletedCount q"
  let ?t = "qCompletedCount q + qFailedCount q"
  have w: "wrap64 ?t = ?t" using assms by (intro wrap64_id) (simp add: int64_ok_def)
  show ?thesis
  proof (cases "?t = 0")
    case True
    with assms w show ?thesis by (auto simp: HealthScore_def)
  next
    case False
    with assms obtain r where r: "f64_div (float64 ?c) (float64 ?t) = Fin r" "0 \<le> r" "r \<le> 1"
      "?c = ?t \<longrightarrow> r = 1" "?c = 0 \<longrightarrow> r = 0"
      by (elim quotient_unit [of ?c ?t, rotated -1]) auto
    have grid: "on_grid 100" by (rule on_gridI [of _ 100 0]) simp_all
    have big: "(100::rat) < 2 powi 1024" using power_int_strict_increasing [of 7 1024 "2::rat"] by simp
    obtain v where v: "round64 (r * 100) = Fin v" "0 \<le> v" "v \<le> 100"
      by (rule round64_bounded [of "r * 100" 100]) (use r grid big in auto)
    have "HealthScore q = Fin v" using False w r(1) v(1) by (simp add: HealthScore_def)
    moreover have "v = 100" if "qFailedCount q = 0"
      using r(4) that v(1) round64_grid [OF _ grid big] by simp
    moreover have "v = 0" if "?c = 0" using r(5) that v(1) by (simp add: round64_def)
    ultimately show ?thesis using v by auto
  qed
qed

end
