(* ===== verification/SystemProps.thy ===== *)
theory SystemProps
  imports PoolRun QueueHealth PostgresProps WorkerProps
begin

text \<open>
  Properties that span components: several workers on one store, and the health the
  dashboard shows for the statistics the PostgreSQL backend keeps.
\<close>

section \<open>Rows that failed\<close>

text \<open>A table without a failed row, of at most \<open>n\<close> rows.\<close>

definition unfailed :: "nat \<Rightarrow> table \<Rightarrow> bool" where
  "unfailed n s \<longleftrightarrow> length s \<le> n \<and> (\<forall>r \<in> set s. c_status r \<noteq> ''failed'')"

lemma unfailed_mono: "unfailed n s \<Longrightarrow> n \<le> m \<Longrightarrow> unfailed m s"
  by (simp add: unfailed_def)

lemma unfailed_update:
  "unfailed n s \<Longrightarrow> (\<And>r. c_status r \<noteq> ''failed'' \<Longrightarrow> c_status (f r) \<noteq> ''failed'') \<Longrightarrow>
   unfailed n (snd (update_where i f s))"
  by (auto simp: unfailed_def update_where_def)

lemma unfailed_filter: "unfailed n s \<Longrightarrow> unfailed n (filter P s)"
  by (auto simp: unfailed_def intro: le_trans [OF length_filter_le])

lemma unfailed_exec: "unfailed n s \<Longrightarrow> unfailed n (snd (stmt s)) \<Longrightarrow> unfailed n (snd (exec_one w f i stmt s))"
  using exec_one_snd [of w f i stmt s] by auto

lemma unfailed_commit: "unfailed n s \<Longrightarrow> unfailed n s' \<Longrightarrow> unfailed n (snd (commit f v s' s))"
  using commit_snd [of f v s' s] by auto

lemma unfailed_insert:
  "unfailed n s \<Longrightarrow> jStatus j \<noteq> StatusFailed \<Longrightarrow> unfailed (Suc n) (snd (insert_job E j s))"
  by (auto simp: unfailed_def insert_job_def status_defs split: option.splits)

lemma unfailed_enqueue:
  "unfailed n s \<Longrightarrow> jStatus j \<noteq> StatusFailed \<Longrightarrow> unfailed (Suc n) (snd (pgEnqueue E e j s))"
  using exchange_snd_cases [of "io e 0" "insert_job E j" s] unfailed_insert [of n s j E]
    unfailed_mono [of n s "Suc n"]
  by (auto simp: pgEnqueue_def split: option.split)

lemma unfailed_reserve: "unfailed n s \<Longrightarrow> unfailed n (snd (pgReserve E e q s))"
  unfolding pgReserve_def Let_def
  by (auto split: res.split intro!: unfailed_commit unfailed_update)

lemma unfailed_ack: "unfailed n s \<Longrightarrow> unfailed n (snd (pgAck E e i s))"
  unfolding pgAck_def Let_def by (intro unfailed_exec unfailed_update) auto

lemma unfailed_bury: "unfailed n s \<Longrightarrow> unfailed n (snd (pgMoveToDLQ E e i s))"
  unfolding pgMoveToDLQ_def Let_def by (intro unfailed_exec unfailed_update) auto

lemma unfailed_delete: "unfailed n s \<Longrightarrow> unfailed n (snd (pgDeleteJob e i s))"
  unfolding pgDeleteJob_def by (intro unfailed_exec) (auto intro: unfailed_filter)

lemma unfailed_nack_stmts:
  "unfailed n s \<Longrightarrow> nack_dead E a m t i s = Ret s' \<Longrightarrow> unfailed n s'"
  "unfailed n s \<Longrightarrow> nack_retry E a m t u i s = Ret s' \<Longrightarrow> unfailed n s'"
  by (auto simp: nack_dead_def nack_retry_def split: if_splits intro!: unfailed_update)

lemma unfailed_nack: "unfailed n s \<Longrightarrow> unfailed n (snd (pgNack E e i err d s))"
  using pgNack_snd [of E e i err d s] unfailed_nack_stmts by (metis (no_types, lifting))

lemma unfailed_call:
  assumes "unfailed n s" and "\<And>e j. c = CallEnqueue e j \<Longrightarrow> jStatus j \<noteq> StatusFailed"
  shows "unfailed (Suc n) (call_state (PostgresBackend E) c s)"
  using assms unfailed_mono [of n _ "Suc n"]
  by (cases c) (simp_all add: PostgresBackend_def unfailed_enqueue unfailed_reserve unfailed_ack
      unfailed_bury unfailed_delete unfailed_nack)

lemma unfailed_run:
  assumes "unfailed n s" and "\<forall>e j. CallEnqueue e j \<in> set cs \<longrightarrow> jStatus j \<noteq> StatusFailed"
  shows "unfailed (n + length cs) (run_calls (PostgresBackend E) cs s)"
  using assms
proof (induction cs arbitrary: n s)
  case (Cons c cs)
  have "unfailed (Suc n) (call_state (PostgresBackend E) c s)"
    using Cons.prems by (intro unfailed_call) auto
  then show ?case using Cons.IH [of "Suc n"] Cons.prems(2) by simp
qed simp

lemma scan_rows_Ret: "scan_rows Ret w rs = Ret rs"
  by (induction rs) simp_all

lemma pgListQueues_SomeD: "pgListQueues E e s = (Ret (Some L), s') \<Longrightarrow> L = select_stats E s"
  by (auto simp: pgListQueues_def query_rows_def scan_rows_Ret slice_of_def fetch_Ret_iff
      split: res.splits if_splits)

section \<open>The health of a queue\<close>

text \<open>C36. No method of the backend sets the status failed. So after any sequence of calls in
  any environments, in which no job is enqueued with that status, every queue that
  \<open>ListQueues\<close> reports has the full health score of 100: dead jobs do not lower it.\<close>

theorem pg_health_always_full:
  assumes "\<forall>e j. CallEnqueue e j \<in> set cs \<longrightarrow> jStatus j \<noteq> StatusFailed"
    and "int (length cs) < 2 ^ 63"
    and "pgListQueues E e (run_calls (PostgresBackend E) cs []) = (Ret (Some L), s')"
    and "q \<in> set L"
  shows "qFailedCount q = 0 \<and> HealthScore q = Fin 100"
proof -
  let ?s = "run_calls (PostgresBackend E) cs []"
  have u: "unfailed (length cs) ?s" using unfailed_run [OF _ assms(1), of 0 "[]" E] by (simp add: unfailed_def)
  obtain n where q: "qCompletedCount q = count_status n ''completed'' ?s"
    "qFailedCount q = count_status n ''failed'' ?s"
    using assms(4) unfolding pgListQueues_SomeD [OF assms(3)] by (auto simp: select_stats_def)
  have none: "qFailedCount q = 0"
    using u q(2) by (auto simp: unfailed_def count_status_def filter_empty_conv)
  have "0 \<le> qCompletedCount q" "qCompletedCount q \<le> int (length ?s)"
    using q(1) by (simp_all add: count_status_def)
  with none u assms(2) have "\<exists>r. HealthScore q = Fin r \<and> r = 100"
    using health_score_bounds [of q] by (auto simp: unfailed_def)
  with none show ?thesis by simp
qed

definition deadOnly :: "call list" where
  "deadOnly = [CallEnqueue (envAt (10 * second)) (NewJob ''n1'' (5 * second) ''mail'' ''q'' ''{}''),
     CallMoveToDLQ (envAt (10 * second)) ''n1'']"

theorem pg_health_always_full_witness:
  "\<exists>q s'. pgListQueues plainEngine (envAt (10 * second)) (run_calls (PostgresBackend plainEngine) deadOnly [])
      = (Ret (Some [q]), s') \<and> qDeadCount q = 1 \<and> HealthScore q = Fin 100"
proof -
  have new: "\<forall>e j. CallEnqueue e j \<in> set deadOnly \<longrightarrow> jStatus j \<noteq> StatusFailed"
    by (auto simp: deadOnly_def status_defs)
  have len: "int (length deadOnly) < 2 ^ 63" by (simp add: deadOnly_def)
  obtain q s' where l: "pgListQueues plainEngine (envAt (10 * second))
      (run_calls (PostgresBackend plainEngine) deadOnly []) = (Ret (Some [q]), s')" and "qDeadCount q = 1"
  proof -
    have "(case pgListQueues plainEngine (envAt (10 * second))
        (run_calls (PostgresBackend plainEngine) deadOnly []) of
        (Ret (Some [q]), s') \<Rightarrow> qDeadCount q = 1 | _ \<Rightarrow> False)" by code_simp
    then show thesis
      by (auto split: prod.splits res.splits option.splits list.splits intro: that)
  qed
  with pg_health_always_full [OF new len l] show ?thesis by auto
qed

section \<open>Several workers\<close>

text \<open>Workers and clients that call one store in any order, started with no job in hand:
  two workers never hold the same job, a held job is running in the store, and no job is
  tried more often than it may. It holds for every store that keeps the contract.\<close>

lemma exclusive_holding:
  assumes "job_store B Inv view stamp nm storable readable" and "Inv s"
    and "\<forall>i j. view s i = Some j \<longrightarrow> attempts_sane j"
    and "rtranclp (sys_step B view storable) \<lparr>sysStore = s, sysHeld = (\<lambda>w. None)\<rparr> x"
  shows "(\<forall>w w' j j'. w \<noteq> w' \<and> sysHeld x w = Some j \<and> sysHeld x w' = Some j' \<longrightarrow> jID j \<noteq> jID j') \<and>
    (\<forall>w j. sysHeld x w = Some j \<longrightarrow>
       (\<exists>j0. view (sysStore x) (jID j) = Some j0 \<and> jStatus j0 = StatusRunning)) \<and>
    (\<forall>i j. view (sysStore x) i = Some j \<longrightarrow> attempts_sane j)"
proof -
  have "sys_ok Inv view \<lparr>sysStore = s, sysHeld = (\<lambda>w. None)\<rparr>"
    using assms(2,3) by (simp add: sys_ok_def)
  note ok = sys_okD [OF job_store.sys_reach_ok [OF assms(1,4) this]]
  show ?thesis using ok(2,3,4) by blast
qed



section \<open>The goroutines of a pool\<close>








end
