(* ===== verification/Cli.thy ===== *)
theory Cli
  imports HttpApi
begin

text \<open>
  internal/cli: the configuration of the command line, the HTTP client and the commands. The
  transport is an argument: whether a URL can be parsed, and what a request does to the world
  \<open>'n\<close> behind it and which response it gets. The libraries for flags and settings are
  arguments too: a command takes the values of its flags, \<open>viper\<close> is what has been set up and
  a function from keys to values. A command returns the text it prints, an inspection the
  cells of each row.
\<close>

section \<open>Setting up\<close>

record viper =
  vpConfigFile :: "string option"
  vpConfigPaths :: "string list"
  vpConfigName :: string
  vpConfigType :: string
  vpEnvPrefix :: string
  vpAutomaticEnv :: bool
  vpRead :: bool

definition newViper :: viper where
  "newViper = \<lparr>vpConfigFile = None, vpConfigPaths = [], vpConfigName = ''config'', vpConfigType = '''',
     vpEnvPrefix = '''', vpAutomaticEnv = False, vpRead = False\<rparr>"

text \<open>\<open>home\<close> is the result of \<open>os.UserHomeDir\<close>. When it fails the function returns before the
  environment is set up.\<close>

definition initConfig :: "string \<Rightarrow> string option \<Rightarrow> viper \<Rightarrow> viper" where
  "initConfig cfgFile home v =
     (let finish = (\<lambda>v. v\<lparr>vpEnvPrefix := ''QUEUEKIT'', vpAutomaticEnv := True, vpRead := True\<rparr>)
      in if cfgFile \<noteq> '''' then finish (v\<lparr>vpConfigFile := Some cfgFile\<rparr>)
         else case home of
                None \<Rightarrow> v
              | Some h \<Rightarrow>
                  finish (v\<lparr>vpConfigPaths := vpConfigPaths v @ [h @ ''/.config/queuekit''],
                            vpConfigName := ''config'', vpConfigType := ''yaml''\<rparr>))"

record Client =
  clBaseURL :: string
  clApiKey :: string

definition NewClient :: "string \<Rightarrow> string \<Rightarrow> Client" where
  "NewClient baseURL apiKey = \<lparr>clBaseURL = baseURL, clApiKey = apiKey\<rparr>"

text \<open>The \<open>PersistentPreRunE\<close> of the root command; \<open>getString\<close> is \<open>viper.GetString\<close>.\<close>

definition preRun :: "(string \<Rightarrow> string) \<Rightarrow> Client" where
  "preRun getString =
     (let server = getString ''server''; apiKey = getString ''api_key'';
          server = (if server = '''' then ''http://localhost:8080'' else server)
      in NewClient server apiKey)"

text \<open>\<open>Execute\<close>: what is printed to the error output and the status of the process.\<close>

definition Execute :: "'a res \<Rightarrow> string \<times> int" where
  "Execute r = (case r of Err x \<Rightarrow> (err_msg x @ [CHR 0x0A], 1) | Ret a \<Rightarrow> ('''', 0) | Panic p \<Rightarrow> (p, 2))"

section \<open>The client\<close>

record 'b request =
  rMethod :: string
  rURL :: string
  rAuthorization :: string
  rBody :: "'b option"

text \<open>A response: the status code, the status line, the \<open>error\<close> member of the decoded body
  (\<open>None\<close> if the body cannot be decoded) and the decoded value.\<close>

record 'v http_response =
  rsCode :: int
  rsStatus :: string
  rsError :: "string option"
  rsValue :: "'v res"

record ('b, 'v, 'n) transport =
  trParse :: "string \<Rightarrow> goerr option"
  trSend :: "'b request \<Rightarrow> 'n \<Rightarrow> 'v http_response res \<times> 'n"

text \<open>An empty text is a header that is not set.\<close>

definition auth_header :: "Client \<Rightarrow> string" where
  "auth_header c = (if clApiKey c \<noteq> '''' then ''Bearer '' @ clApiKey c else '''')"

text \<open>The bodies the commands send can always be encoded.\<close>

definition client_do ::
    "('b, 'v, 'n) transport \<Rightarrow> Client \<Rightarrow> string \<Rightarrow> string \<Rightarrow> 'b option \<Rightarrow> 'n \<Rightarrow> 'v http_response res \<times> 'n" where
  "client_do tr c method path body n =
     (case trParse tr (clBaseURL c @ path) of
        Some x \<Rightarrow> (Err (ErrWrap ''create request'' x), n)
      | None \<Rightarrow> wrap_err ''request failed''
          (trSend tr \<lparr>rMethod = method, rURL = clBaseURL c @ path, rAuthorization = auth_header c,
                      rBody = body\<rparr> n))"

definition statusError :: "'v http_response \<Rightarrow> goerr" where
  "statusError resp =
     (case rsError resp of
        Some m \<Rightarrow>
          if m \<noteq> '''' then ErrNew (''server error ('' @ itoa (rsCode resp) @ ''): '' @ m)
          else ErrNew (''server error: '' @ rsStatus resp)
      | None \<Rightarrow> ErrNew (''server error: '' @ rsStatus resp))"

text \<open>\<open>decodeOrError(resp, nil)\<close> and \<open>decodeOrError(resp, v)\<close>.\<close>

definition checkStatus :: "'v http_response \<Rightarrow> unit res" where
  "checkStatus resp = (if 400 \<le> rsCode resp then Err (statusError resp) else Ret ())"

definition decodeOrError :: "'v http_response \<Rightarrow> 'v res" where
  "decodeOrError resp = (if 400 \<le> rsCode resp then Err (statusError resp) else rsValue resp)"

section \<open>The commands\<close>

definition runCancel :: "('b, 'v, 'n) transport \<Rightarrow> Client \<Rightarrow> string \<Rightarrow> 'n \<Rightarrow> string res \<times> 'n" where
  "runCancel tr c i =
     bindS (client_do tr c ''POST'' (''/v1/jobs/'' @ i @ ''/cancel'') None) (\<lambda>resp.
     bindS (readS (\<lambda>n. checkStatus resp)) (\<lambda>_. retS (''Job canceled.'' @ [CHR 0x0A])))"

definition runRetry :: "('b, string, 'n) transport \<Rightarrow> Client \<Rightarrow> string \<Rightarrow> 'n \<Rightarrow> string res \<times> 'n" where
  "runRetry tr c i =
     bindS (client_do tr c ''POST'' (''/v1/jobs/'' @ i @ ''/retry'') None) (\<lambda>resp.
     bindS (readS (\<lambda>n. decodeOrError resp)) (\<lambda>jobID.
       retS (''Job retried. New job ID: '' @ jobID @ [CHR 0x0A])))"

text \<open>The flags of enqueue and their defaults.\<close>

record enqueueFlags =
  efQueue :: string
  efPayload :: string
  efPriority :: int
  efMaxAttempts :: int

definition enqueueDefaults :: enqueueFlags where
  "enqueueDefaults = \<lparr>efQueue = ''default'', efPayload = ''{}'', efPriority = 10, efMaxAttempts = 3\<rparr>"

text \<open>The body has all five members; \<open>json.Valid\<close> is an argument.\<close>

definition enqueue_body :: "enqueueFlags \<Rightarrow> string \<Rightarrow> enqueueRequest" where
  "enqueue_body fl jobType =
     \<lparr>rqType = jobType, rqQueue = efQueue fl, rqPayload = efPayload fl,
      rqPriority = Some (efPriority fl), rqMaxAttempts = Some (efMaxAttempts fl),
      rqScheduledAt = None\<rparr>"

definition runEnqueue ::
    "(string \<Rightarrow> bool) \<Rightarrow> (enqueueRequest, string, 'n) transport \<Rightarrow> Client \<Rightarrow> enqueueFlags \<Rightarrow> string \<Rightarrow> 'n \<Rightarrow>
     string res \<times> 'n" where
  "runEnqueue valid tr c fl jobType =
     (if \<not> valid (efPayload fl)
      then (\<lambda>n. (Err (ErrNew (''invalid JSON payload: '' @ efPayload fl)), n))
      else
        bindS (client_do tr c ''POST'' ''/v1/jobs'' (Some (enqueue_body fl jobType))) (\<lambda>resp.
        bindS (readS (\<lambda>n. decodeOrError resp)) (\<lambda>jobID.
          retS (''Job enqueued: '' @ jobID @ [CHR 0x0A]))))"

definition queue_row :: "queue_stats \<Rightarrow> string list" where
  "queue_row q =
     [qName q, itoa (qSize q), itoa (qProcessingCount q), itoa (qCompletedCount q),
      itoa (qFailedCount q), itoa (qDeadCount q)]"

definition runInspectQueues ::
    "('b, queue_stats list, 'n) transport \<Rightarrow> Client \<Rightarrow> 'n \<Rightarrow> string list list res \<times> 'n" where
  "runInspectQueues tr c =
     bindS (client_do tr c ''GET'' ''/v1/queues'' None) (\<lambda>resp.
     bindS (readS (\<lambda>n. decodeOrError resp)) (\<lambda>queues.
       retS ([''NAME'', ''PENDING'', ''RUNNING'', ''COMPLETED'', ''FAILED'', ''DEAD''] # map queue_row queues)))"

record jobView =
  jvID :: string
  jvType :: string
  jvStatus :: string
  jvAttempts :: int
  jvCreatedAt :: string
  jvLastError :: string

definition job_row :: "jobView \<Rightarrow> string list" where
  "job_row j =
     (let i = (if length (jvID j) > 8 then take 8 (jvID j) else jvID j);
          errMsg = (if length (jvLastError j) > 40 then take 40 (jvLastError j) @ ''...'' else jvLastError j);
          errMsg = (if errMsg = '''' then ''-'' else errMsg)
      in [i, jvType j, jvStatus j, itoa (jvAttempts j), jvCreatedAt j, errMsg])"

text \<open>\<open>url.PathEscape\<close> and \<open>url.QueryEscape\<close>; the members of a query come in the order of
  their names.\<close>

definition unreserved :: "char \<Rightarrow> bool" where
  "unreserved c \<longleftrightarrow> (let n = of_char c :: nat in
     (48 \<le> n \<and> n \<le> 57) \<or> (65 \<le> n \<and> n \<le> 90) \<or> (97 \<le> n \<and> n \<le> 122)) \<or> c \<in> set ''-_.~''"

definition percent :: "char \<Rightarrow> string" where
  "percent c = [CHR ''%'', ''0123456789ABCDEF'' ! (of_char c div 16), ''0123456789ABCDEF'' ! (of_char c mod 16)]"

definition PathEscape :: "string \<Rightarrow> string" where
  "PathEscape s = concat (map (\<lambda>c. if unreserved c \<or> c \<in> set ''$&+:=@'' then [c] else percent c) s)"

definition QueryEscape :: "string \<Rightarrow> string" where
  "QueryEscape s =
     concat (map (\<lambda>c. if unreserved c then [c] else if c = CHR '' '' then ''+'' else percent c) s)"

definition jobs_path :: "string \<Rightarrow> string \<Rightarrow> int \<Rightarrow> string" where
  "jobs_path queueName status limit =
     ''/v1/queues/'' @ PathEscape queueName @ ''/jobs?limit='' @ QueryEscape (itoa limit)
       @ (if status \<noteq> '''' then ''&status='' @ QueryEscape status else '''')"

definition runInspectJobs ::
    "('b, jobView list, 'n) transport \<Rightarrow> Client \<Rightarrow> string \<Rightarrow> string \<Rightarrow> int \<Rightarrow> 'n \<Rightarrow> string list list res \<times> 'n" where
  "runInspectJobs tr c queueName status limit =
     bindS (client_do tr c ''GET'' (jobs_path queueName status limit) None) (\<lambda>resp.
     bindS (readS (\<lambda>n. decodeOrError resp)) (\<lambda>jobs.
       retS ([''ID'', ''TYPE'', ''STATUS'', ''ATTEMPTS'', ''CREATED'', ''ERROR''] # map job_row jobs)))"

section \<open>Authentication\<close>

text \<open>The header the client sends is the one the server asks for: a request of a client is
  let through exactly when the server has no key or the client has the same one.\<close>

lemma cli_auth_accepted:
  "serve srv he (auth_header c) rt s =
     (if srvApiKey srv = '''' \<or> clApiKey c = srvApiKey srv then dispatch (srvBackend srv) he rt s
      else (writeError 401 (if clApiKey c = '''' then ''missing Authorization header'' else ''invalid API key''), s))"
  by (simp add: serve_auth auth_header_def)

end
