(* ===== verification/Dashboard.thy ===== *)
theory Dashboard
  imports HttpApi
begin

text \<open>
  internal/dashboard/dashboard.go: the pages, their handlers and the choice of the template
  that renders them. The HTML itself is left out; what is kept of the templates is which
  file defines the block the layout includes and which fields of the page each one reads.
\<close>

section \<open>Pages\<close>

record queueDetailPage =
  qpTitle :: string
  qpQueueName :: string
  qpStatus :: string
  qpJobs :: "job list"
  qpLimit :: int
  qpOffset :: int
  qpPrevOffset :: int
  qpNextOffset :: int
  qpHasNext :: bool

datatype page =
    QueuesPage string "queue_stats list option"
  | QueueDetailPage queueDetailPage
  | JobDetailPage string job string

section \<open>Templates\<close>

text \<open>The files of the directory templates in the order \<open>ParseFS\<close> reads them, and the blocks
  each defines. A block that is defined again replaces the earlier definition.\<close>

definition template_files :: "(string \<times> string list) list" where
  "template_files =
     [(''job_detail.html'', [''content'']), (''layout.html'', []),
      (''queue_detail.html'', [''content'']), (''queues.html'', [''content''])]"

fun parse_files :: "(string \<times> string list) list \<Rightarrow> (string \<rightharpoonup> string) \<Rightarrow> (string \<rightharpoonup> string)" where
  "parse_files [] m = m"
| "parse_files ((f, blocks) # fs) m =
     parse_files fs (foldl (\<lambda>m b. m(b \<mapsto> f)) (m(f \<mapsto> f)) blocks)"

text \<open>The fields of the page that a file's block reads first; a field the page does not have
  is an error of the execution.\<close>

definition template_reads :: "string \<Rightarrow> string list" where
  "template_reads f =
     (if f = ''job_detail.html'' then [''Job'', ''PayloadPretty'']
      else if f = ''queue_detail.html'' then
        [''QueueName'', ''Status'', ''Jobs'', ''Offset'', ''PrevOffset'', ''NextOffset'', ''Limit'', ''HasNext'']
      else if f = ''queues.html'' then [''Queues''] else [''Title''])"

fun page_fields :: "page \<Rightarrow> string list" where
  "page_fields (QueuesPage t qs) = [''Title'', ''Queues'']"
| "page_fields (QueueDetailPage p) =
     [''Title'', ''QueueName'', ''Status'', ''Jobs'', ''Limit'', ''Offset'', ''PrevOffset'', ''NextOffset'', ''HasNext'']"
| "page_fields (JobDetailPage t j pp) = [''Title'', ''Job'', ''PayloadPretty'']"

text \<open>A response: a rendered page, with the file whose block was executed and whether the
  execution succeeded; a plain error; a redirection; or a handler that panicked.\<close>

datatype dresponse =
    Html string bool page
  | PlainError int string
  | Redirect string
  | DAborted string

definition render :: "string \<Rightarrow> page \<Rightarrow> dresponse" where
  "render name data =
     (case parse_files template_files Map.empty ''content'' of
        None \<Rightarrow> Html '''' False data
      | Some f \<Rightarrow> Html f (list_all (\<lambda>x. x \<in> set (page_fields data)) (template_reads f)) data)"

definition renderError :: "string \<Rightarrow> dresponse" where
  "renderError msg = PlainError 500 msg"

section \<open>Handlers\<close>

definition dashQueues :: "'s backend \<Rightarrow> henv \<Rightarrow> 's \<Rightarrow> dresponse \<times> 's" where
  "dashQueues B he s =
     (case beListQueues B (heBackend he 0) s of
        (Panic p, s1) \<Rightarrow> (DAborted p, s1)
      | (Err x, s1) \<Rightarrow> (renderError ''Failed to list queues'', s1)
      | (Ret queues, s1) \<Rightarrow> (render ''queues.html'' (QueuesPage ''Queues'' queues), s1))"

text \<open>\<open>limit+1\<close>, \<open>offset-limit\<close> and \<open>offset+limit\<close> are sums of \<open>int\<close> values.\<close>

definition queue_page :: "string \<Rightarrow> string \<Rightarrow> int \<Rightarrow> int \<Rightarrow> job list \<Rightarrow> queueDetailPage" where
  "queue_page name status limit offset jobs =
     (let hasNext = int (length jobs) > limit;
          jobs = (if hasNext then take (nat limit) jobs else jobs);
          prevOffset = wrap64 (offset - limit);
          prevOffset = (if prevOffset < 0 then 0 else prevOffset)
      in \<lparr>qpTitle = ''Queue: '' @ name, qpQueueName = name, qpStatus = status, qpJobs = jobs,
          qpLimit = limit, qpOffset = offset, qpPrevOffset = prevOffset,
          qpNextOffset = wrap64 (offset + limit), qpHasNext = hasNext\<rparr>)"

definition dashQueueDetail ::
    "'s backend \<Rightarrow> henv \<Rightarrow> string \<Rightarrow> (string \<Rightarrow> string) \<Rightarrow> 's \<Rightarrow> dresponse \<times> 's" where
  "dashQueueDetail B he name query s =
     (let status = query ''status'';
          limit = query_limit (query ''limit'');
          offset = query_offset (query ''offset'')
      in case beListJobs B (heBackend he 0) name status (wrap64 (limit + 1)) offset s of
           (Panic p, s1) \<Rightarrow> (DAborted p, s1)
         | (Err x, s1) \<Rightarrow> (renderError ''Failed to list jobs'', s1)
         | (Ret jobs, s1) \<Rightarrow>
             (render ''queue_detail.html'' (QueueDetailPage
                (queue_page name status limit offset (case jobs of None \<Rightarrow> [] | Some js \<Rightarrow> js))), s1))"

text \<open>\<open>indent\<close> is \<open>json.Indent\<close>, which leaves nothing behind when it fails. \<open>id[:8]\<close> panics on an
  id of fewer than eight bytes.\<close>

definition payload_pretty :: "(string \<Rightarrow> string option) \<Rightarrow> job \<Rightarrow> string" where
  "payload_pretty indent job = (case indent (jPayload job) of None \<Rightarrow> jPayload job | Some t \<Rightarrow> t)"

definition dashJobDetail ::
    "(string \<Rightarrow> string option) \<Rightarrow> 's backend \<Rightarrow> henv \<Rightarrow> string \<Rightarrow> 's \<Rightarrow> dresponse \<times> 's" where
  "dashJobDetail indent B he i s =
     (case beGetJob B (heBackend he 0) i s of
        (Panic p, s1) \<Rightarrow> (DAborted p, s1)
      | (Err x, s1) \<Rightarrow> (PlainError 404 ''Job not found'', s1)
      | (Ret job, s1) \<Rightarrow>
          (if length i < 8 then (DAborted ''slice bounds out of range'', s1)
           else (render ''job_detail.html''
                   (JobDetailPage (''Job: '' @ take 8 i) job (payload_pretty indent job)), s1)))"

definition dashRetryJob :: "'s backend \<Rightarrow> henv \<Rightarrow> string \<Rightarrow> 's \<Rightarrow> dresponse \<times> 's" where
  "dashRetryJob B he i s =
     (case beGetJob B (heBackend he 0) i s of
        (Panic p, s1) \<Rightarrow> (DAborted p, s1)
      | (Err x, s1) \<Rightarrow> (PlainError 404 ''Job not found'', s1)
      | (Ret job, s1) \<Rightarrow>
          (case beDeleteJob B (heBackend he 1) i s1 of
             (Panic p, s2) \<Rightarrow> (DAborted p, s2)
           | (Err x, s2) \<Rightarrow> (renderError ''Failed to delete old job for retry'', s2)
           | (Ret u, s2) \<Rightarrow>
               (let retried = (NewJob (heUUID he) (heNow he) (jType job) (jQueue job) (jPayload job))
                      \<lparr>jPriority := jPriority job, jMaxAttempts := jMaxAttempts job\<rparr>
                in case beEnqueue B (heBackend he 2) retried s2 of
                     (Panic p, s3) \<Rightarrow> (DAborted p, s3)
                   | (Err x, s3) \<Rightarrow> (renderError ''Failed to enqueue retried job'', s3)
                   | (Ret u', s3) \<Rightarrow> (Redirect (''/dashboard/jobs/'' @ jID retried), s3))))"

datatype droute =
    DashQueues
  | DashQueueDetail string "string \<Rightarrow> string"
  | DashJobDetail string
  | DashRetryJob string

fun dash_dispatch ::
    "(string \<Rightarrow> string option) \<Rightarrow> 's backend \<Rightarrow> henv \<Rightarrow> droute \<Rightarrow> 's \<Rightarrow> dresponse \<times> 's" where
  "dash_dispatch indent B he DashQueues s = dashQueues B he s"
| "dash_dispatch indent B he (DashQueueDetail name query) s = dashQueueDetail B he name query s"
| "dash_dispatch indent B he (DashJobDetail i) s = dashJobDetail indent B he i s"
| "dash_dispatch indent B he (DashRetryJob i) s = dashRetryJob B he i s"

section \<open>Retrying\<close>

text \<open>The two handlers of a retry name the old job differently to \<open>DeleteJob\<close>: by the id of the
  request and by the id of the job that was read. Where the two are one, so are their effects.\<close>

lemma dash_retry_store:
  assumes "\<And>j s1. beGetJob B (heBackend he 0) i s = (Ret j, s1) \<Longrightarrow> jID j = i"
  shows "snd (dashRetryJob B he i s) = snd (handleRetryJob B he i s)"
    and "fst (dashRetryJob B he i s) = Redirect (''/dashboard/jobs/'' @ heUUID he) \<longleftrightarrow>
      (\<exists>j. fst (handleRetryJob B he i s) = Resp 200 (JJob j) \<and> jID j = heUUID he)"
  using assms
  by (auto simp: dashRetryJob_def handleRetryJob_def Let_def renderError_def writeError_def NewJob_def
      split: prod.splits res.splits)

section \<open>The template that is executed\<close>



section \<open>Paging\<close>

lemma query_limit_pos: "0 < query_limit v"
  by (auto simp: query_limit_def split: option.split)

lemma query_offset_nonneg: "0 \<le> query_offset v"
  by (auto simp: query_offset_def split: option.split)

lemma query_limit_int64: "int64_ok (query_limit v)"
  by (auto simp: query_limit_def int64_ok_def split: option.split dest!: parse_int_range)

lemma query_offset_int64: "int64_ok (query_offset v)"
  by (auto simp: query_offset_def int64_ok_def split: option.split dest!: parse_int_range)

text \<open>The page cut out of the complete listing \<open>L\<close>.\<close>

lemma queue_page_cut:
  fixes L :: "job list" and limit offset :: int
  defines "rest \<equiv> drop (nat offset) L"
  assumes "0 < limit" "0 \<le> offset" "int64_ok limit" "int64_ok offset"
    and jobs: "jobs = (if 0 < wrap64 (limit + 1) then take (nat (wrap64 (limit + 1))) rest else rest)"
    and len: "int (length L) < 2 ^ 62"
  shows "qpJobs (queue_page name st limit offset jobs) = take (nat limit) rest"
    and "qpHasNext (queue_page name st limit offset jobs) \<longleftrightarrow> limit < int (length rest)"
    and "qpPrevOffset (queue_page name st limit offset jobs) = max 0 (offset - limit)"
proof -
  have short: "int (length rest) < 2 ^ 62" using len by (simp add: rest_def)
  have jobs': "jobs = (if limit = 2 ^ 63 - 1 then rest else take (nat limit + 1) rest)"
  proof (cases "limit = 2 ^ 63 - 1")
    case True
    then have "wrap64 (limit + 1) = - (2 ^ 63)" using wrap64_over [of "2 ^ 63"] by simp
    with True jobs show ?thesis by simp
  next
    case False
    then have "wrap64 (limit + 1) = limit + 1" using assms(2,4) by (intro wrap64_id) (auto simp: int64_ok_def)
    with False jobs assms(2) show ?thesis by (simp add: nat_add_distrib)
  qed
  have has: "int (length jobs) > limit \<longleftrightarrow> limit < int (length rest)"
    using jobs' assms(2) short by auto
  show "qpHasNext (queue_page name st limit offset jobs) \<longleftrightarrow> limit < int (length rest)"
    using has by (simp add: queue_page_def Let_def)
  have "take (nat limit) jobs = take (nat limit) rest" using jobs' by simp
  moreover have "jobs = take (nat limit) rest" if "\<not> limit < int (length rest)"
    using jobs' that by auto
  ultimately show "qpJobs (queue_page name st limit offset jobs) = take (nat limit) rest"
    using has by (simp add: queue_page_def Let_def)
  have "wrap64 (offset - limit) = offset - limit"
    using assms(2-5) by (intro wrap64_id) (auto simp: int64_ok_def)
  then show "qpPrevOffset (queue_page name st limit offset jobs) = max 0 (offset - limit)"
    by (simp add: queue_page_def Let_def)
qed

end
