(* ===== verification/ApiProps.thy ===== *)
theory ApiProps
  imports Dashboard PostgresProps RedisProps
begin

text \<open>
  The properties of the REST API and of the dashboard over the two stores: the answers for
  jobs that are missing or may not be cancelled, what a retry does and how it can lose the
  job, and the paging of the listings.
\<close>

section \<open>Jobs that are missing, cancelling and retrying\<close>

definition calm_henv :: "henv \<Rightarrow> bool" where
  "calm_henv he \<longleftrightarrow> (\<forall>n. calm (heBackend he n))"

text \<open>Over any store that keeps the contract, reading, retrying, cancelling or deleting a
  job that does not exist is answered with 404 and leaves the store untouched.\<close>

lemma api_missing_job:
  assumes "job_store B Inv view stamp nm storable readable" and "Inv s" and "calm_henv he"
    and "view s i = None" and "rt \<in> {GetJobs i, PostRetry i, PostCancel i, DeleteJobs i}"
  shows "dispatch B he rt s = (writeError 404 ''job not found'', s)"
proof -
  have "\<And>n. calm (heBackend he n)" using assms(3) by (simp add: calm_henv_def)
  from job_store.missing_not_found [OF assms(1,2) this assms(4)] assms(5) show ?thesis by auto
qed

definition sampleHenv :: henv where
  "sampleHenv = \<lparr>heBackend = (\<lambda>n. envAt (10 * second)), heNow = 10 * second, heUUID = ''u1''\<rparr>"

lemma sampleHenv_calm: "calm_henv sampleHenv"
  by (simp add: calm_henv_def sampleHenv_def calm_10)

lemma api_missing_job_witness:
  "dispatch (RedisBackend memRedis) sampleHenv (PostRetry ''z'') twoJobs =
     (writeError 404 ''job not found'', twoJobs)"
  by (rule api_missing_job [OF mem_redis.contract twoJobs(1) sampleHenv_calm, of "''z''"])
    (simp_all add: twoJobs(2))

text \<open>C21. Cancelling removes a job exactly when it is pending; a job in any other state stays
  as it is and the answer is 409.\<close>

theorem api_cancel_pending_only:
  assumes "job_store B Inv view stamp nm storable readable" and "Inv s" and "calm_henv he"
    and "view s i = Some j" and "readable s i"
  shows "\<exists>s'. handleCancelJob B he i s =
      (if jStatus j = StatusPending then Resp 200 (JStatus ''canceled'')
       else writeError 409 ''only pending jobs can be canceled'', s') \<and> Inv s' \<and>
    view s' = (if jStatus j = StatusPending then (view s)(i := None) else view s)"
proof -
  have "\<And>n. calm (heBackend he n)" using assms(3) by (simp add: calm_henv_def)
  from job_store.cancel_outcome [OF assms(1,2) this assms(4,5)] show ?thesis .
qed

theorem api_cancel_pending_only_witness:
  "\<exists>s'. handleCancelJob (RedisBackend memRedis) sampleHenv ''a'' twoJobs =
      (Resp 200 (JStatus ''canceled''), s') \<and> rd_view memH s' ''a'' = None"
  using api_cancel_pending_only [OF mem_redis.contract twoJobs(1) sampleHenv_calm, of "''a''"
      "rd_norm (sampleJob ''a'' PriorityNormal 3)"] twoJobs(2)
  by (auto simp: rd_norm_def)

text \<open>
  The handler makes two calls, and another client may come in between. \<open>interposed m B\<close> is the
  store \<open>B\<close> on which \<open>m\<close> takes place right after every \<open>GetJob\<close>.
\<close>

definition interposed :: "('s \<Rightarrow> 's) \<Rightarrow> 's backend \<Rightarrow> 's backend" where
  "interposed m B =
     B\<lparr>beGetJob := (\<lambda>e i s. case beGetJob B e i s of (r, s1) \<Rightarrow> (r, m s1))\<rparr>"

text \<open>C26. The check for pending and the removal are not one step: when a worker reserves the
  job in between, the handler still answers that the job was cancelled, and removes it while
  the worker runs it; a later Nack of the worker finds no job.\<close>

theorem api_cancel_races_worker:
  assumes "job_store B Inv view stamp nm storable readable" and "Inv s" and "calm_henv he"
    and "calm e" and "beReserve B e q s = (Ret (Some j), s1)" and "readable s (jID j)"
  shows "jStatus j = StatusRunning \<and>
    (\<exists>s2. handleCancelJob (interposed (\<lambda>s. snd (beReserve B e q s)) B) he (jID j) s =
        (Resp 200 (JStatus ''canceled''), s2) \<and>
      Inv s2 \<and> view s2 = (view s)(jID j := None) \<and>
      (\<forall>e' x d. calm e' \<longrightarrow> beNack B e' (jID j) x d s2 = (Err (notFoundError (jID j)), s2)))"
proof -
  have calm: "\<And>n. calm (heBackend he n)" using assms(3) by (simp add: calm_henv_def)
  obtain j0 t where inv1: "Inv s1" and j0: "view s (jID j) = Some j0" "jStatus j0 = StatusPending"
    and st: "jStatus j = StatusRunning"
    and v1: "view s1 = (view s)(jID j \<mapsto> j0\<lparr>jStatus := StatusRunning, jUpdatedAt := t\<rparr>)"
    using job_store.reserve_law [OF assms(1,2,4), of q] assms(5) by (auto simp: reserve_outcome_def)
  have get: "beGetJob B (heBackend he 0) (jID j) s = (Ret j0, s)"
    by (rule job_store.get_law [OF assms(1,2) calm j0(1) assms(6)])
  obtain s2 where s2: "beDeleteJob B (heBackend he 1) (jID j) s1 = (Ret (), s2)" "Inv s2"
    "view s2 = (view s1)(jID j := None)"
    using job_store.delete_law [OF assms(1) inv1 calm, of "jID j" _ 1] v1 by auto
  have "handleCancelJob (interposed (\<lambda>s. snd (beReserve B e q s)) B) he (jID j) s =
      (Resp 200 (JStatus ''canceled''), s2)"
    using get s2(1) j0(2) assms(5) by (simp add: handleCancelJob_def interposed_def)
  moreover have "beNack B e' (jID j) x d s2 = (Err (notFoundError (jID j)), s2)" if "calm e'" for e' x d
    using job_store.nack_missing [OF assms(1) s2(2) that] s2(3) by simp
  ultimately show ?thesis using st s2(2,3) v1 by auto
qed

theorem api_cancel_races_worker_witness:
  "\<exists>s2. handleCancelJob (interposed (\<lambda>s. snd (beReserve (RedisBackend memRedis) (envAt (10 * second)) ''q'' s))
        (RedisBackend memRedis)) sampleHenv ''a'' twoJobs = (Resp 200 (JStatus ''canceled''), s2) \<and>
    rd_view memH s2 ''a'' = None"
proof -
  obtain j s1 where r: "rdReserve memRedis (envAt (10 * second)) ''q'' twoJobs = (Ret (Some j), s1)"
    and a: "jID j = ''a''" using twoJobs_reserve by blast
  have "beReserve (RedisBackend memRedis) (envAt (10 * second)) ''q'' twoJobs = (Ret (Some j), s1)"
    unfolding RedisBackend_def by (simp only: backend.select_convs r)
  from api_cancel_races_worker [OF mem_redis.contract twoJobs(1) sampleHenv_calm calm_10 this] a
  show ?thesis by auto
qed

text \<open>C22. A retry is carried out whatever the state of the job, also while a worker runs it or
  after it was completed: the job is deleted and a fresh pending one with the same type,
  queue, payload, priority and limit, and no attempts, takes its place under a new id.\<close>

theorem api_retry_any_status:
  assumes "job_store B Inv view stamp nm storable readable" and "Inv s" and "calm_henv he"
    and "view s i = Some j" and "readable s i" and "Validate (retried_job he j) = None"
    and "view s (heUUID he) = None" and "\<forall>s. storable s (retried_job he j)"
  shows "\<exists>s'. handleRetryJob B he i s = (Resp 200 (JJob (retried_job he j)), s') \<and> Inv s' \<and>
    view s' = (view s)(i := None, heUUID he \<mapsto> nm (retried_job he j))"
proof -
  have "\<And>n. calm (heBackend he n)" using assms(3) by (simp add: calm_henv_def)
  from job_store.retry_outcome [OF assms(1,2) this assms(4-7)] assms(8) show ?thesis by blast
qed

text \<open>The job \<open>a\<close> of \<open>oneRunning\<close> is in the hands of a worker.\<close>

lemma oneRunning_inv: "rd_inv memH memZ memS oneRunning"
proof -
  have ok: "rd_calls_ok memRedis (rd_view memH) emptyMem
      [CallEnqueue (envAt (10 * second)) (sampleJob ''a'' PriorityNormal 3),
       CallReserve (envAt (10 * second)) ''q'']"
    using clock_ok_10 sampleJob_storable by (simp add: rd_view_def)
  show ?thesis
    unfolding oneRunning_def by (rule mem_redis.rd_inv_run [OF rd_inv_empty ok]) simp_all
qed

lemma oneRunning_job:
  obtains j where "rd_view memH oneRunning ''a'' = Some j" "jStatus j = StatusRunning"
    "Validate (retried_job sampleHenv j) = None" "rd_storable (retried_job sampleHenv j)"
proof -
  let ?h = "memH oneRunning (jobKey ''a'')"
  have f: "?h ''status'' = Some ''running''" "?h ''type'' = Some ''mail''" "?h ''queue'' = Some ''q''"
    "?h ''payload'' = Some ''{}''" "?h ''max_attempts'' = Some (itoa 3)" "?h ''priority'' = Some (itoa 10)"
    by code_simp+
  then have "?h \<noteq> Map.empty" by (auto simp del: mem_empty)
  then have v: "rd_view memH oneRunning ''a'' = Some (parseJobFromMap ?h)" by (simp add: rd_view_def)
  have j: "jStatus (parseJobFromMap ?h) = StatusRunning" "jType (parseJobFromMap ?h) = ''mail''"
    "jQueue (parseJobFromMap ?h) = ''q''" "jPayload (parseJobFromMap ?h) = ''{}''"
    "jMaxAttempts (parseJobFromMap ?h) = 3" "jPriority (parseJobFromMap ?h) = 10"
    using f by (simp_all add: parseJobFromMap_def field_def status_defs int64_ok_def)
  show thesis
    by (rule that [OF v j(1)])
      (simp_all add: j retried_job_def NewJob_def Validate_None_iff rd_storable_def
        sampleHenv_def unix_def second_def int64_ok_def)
qed

theorem api_retry_any_status_witness:
  "\<exists>s' j. handleRetryJob (RedisBackend memRedis) sampleHenv ''a'' oneRunning = (Resp 200 (JJob j), s') \<and>
    rd_view memH s' ''a'' = None \<and> rd_view memH s' ''u1'' \<noteq> None"
proof -
  obtain j where j: "rd_view memH oneRunning ''a'' = Some j" "Validate (retried_job sampleHenv j) = None"
    "rd_storable (retried_job sampleHenv j)" by (rule oneRunning_job)
  have "memH oneRunning (jobKey ''u1'') ''id'' = None" by code_simp
  then have "rd_view memH oneRunning ''u1'' = None"
    using rd_invD(2) [OF oneRunning_inv, of "''u1''"] by (auto simp: rd_view_None hash_ok_def)
  then have new: "rd_view memH oneRunning (heUUID sampleHenv) = None" by (simp add: sampleHenv_def)
  show ?thesis
    using api_retry_any_status [OF mem_redis.contract oneRunning_inv sampleHenv_calm j(1) _ j(2) new] j(3)
    by (auto simp: sampleHenv_def)
qed

text \<open>C27. A retry is not atomic: when the exchange of its final \<open>Enqueue\<close> fails, the answer is
  500 and the job is gone, neither under its old id nor under the new one.\<close>

theorem api_retry_loses_job:
  assumes "redis_server R H Z S" and "rd_inv H Z S s"
    and "calm (heBackend he 0)" and "calm (heBackend he 1)" and "io (heBackend he 2) 0 = Lost x"
    and "rd_view H s i = Some j"
  shows "\<exists>s'. handleRetryJob (RedisBackend R) he i s = (writeError 500 ''failed to retry job'', s') \<and>
    rd_view H s' = (rd_view H s)(i := None)"
proof -
  have g: "rdGetJob R (heBackend he 0) i s = (Ret j, s)"
    by (rule redis_server.rd_get_law [OF assms(1-3,6)])
  have id: "jID j = i" by (rule redis_server.rd_view_id [OF assms(1,2,6)])
  obtain s1 where d: "rdDeleteJob R (heBackend he 1) i s = (Ret (), s1)"
    "rd_view H s1 = (rd_view H s)(i := None)"
    using redis_server.rd_delete_law [OF assms(1,2,4,6)] by blast
  have "\<exists>y. rdEnqueue R (heBackend he 2) k s1 = (Err y, s1)" for k
    using assms(5) by (simp add: rdEnqueue_def split: option.split)
  then obtain y where "rdEnqueue R (heBackend he 2) (retried_job he j) s1 = (Err y, s1)" by blast
  with g d id show ?thesis
    by (simp add: handleRetryJob_def RedisBackend_def retried_job_def)
qed

theorem api_retry_loses_job_witness:
  "\<exists>s'. handleRetryJob (RedisBackend memRedis)
      (sampleHenv\<lparr>heBackend := (\<lambda>n. if n = 2 then (envAt (10 * second))\<lparr>io := (\<lambda>_. Lost ErrCanceled)\<rparr>
         else envAt (10 * second))\<rparr>) ''a'' twoJobs
      = (writeError 500 ''failed to retry job'', s') \<and> rd_view memH s' ''a'' = None"
  by (rule exE [OF api_retry_loses_job [OF mem_redis.redis_server_axioms twoJobs(1), of
      "sampleHenv\<lparr>heBackend := (\<lambda>n. if n = 2 then (envAt (10 * second))\<lparr>io := (\<lambda>_. Lost ErrCanceled)\<rparr>
         else envAt (10 * second))\<rparr>" ErrCanceled "''a''"]])
    (auto simp: calm_10 twoJobs(2))

section \<open>Listings\<close>

text \<open>C38. The listing handler passes on a limit of at least one and an offset of at least zero,
  but nothing bounds them: on the Redis backend a limit so large that the sum with the
  offset overflows makes the handler panic as soon as the queue has more entries than the
  offset.\<close>

theorem api_list_overflow_aborts:
  assumes "redis_server R H Z S" and "rd_inv H Z S s" and "calm (heBackend he 0)"
    and "name \<noteq> ''''" and "query ''status'' = ''''"
    and "query_offset (query ''offset'') < int (card (dom (Z s (queueKey name))))"
    and "int (card (dom (Z s (queueKey name)))) < 2 ^ 63"
    and "2 ^ 63 \<le> query_offset (query ''offset'') + query_limit (query ''limit'')"
  shows "handleListJobs (RedisBackend R) he name query s = (Aborted ''slice bounds out of range'', s)"
proof -
  obtain ms where ms: "rZRangeAll R (queueKey name) s = Ret ms" "distinct ms" "set ms = dom (Z s (queueKey name))"
    using redis_server.zrange [OF assms(1) typed_families(3,4) [OF rd_invD(1) [OF assms(2)]]] by blast
  then have len: "int (length ms) = int (card (dom (Z s (queueKey name))))"
    using distinct_card [of ms] by simp
  let ?l = "query_limit (query ''limit'')"
  let ?o = "query_offset (query ''offset'')"
  have "paginate ?l ?o ms = Panic ''slice bounds out of range''"
    using paginate_result [OF query_limit_int64 query_offset_int64, of ms] len assms(6-8)
      query_limit_pos [of "query ''limit''"] by simp
  moreover have "list_ids R (io (heBackend he 0) 0) name '''' s = Ret ms"
    using ms(1) assms(3,4) by (simp add: list_ids_def calm_io)
  ultimately show ?thesis
    using assms(5) by (simp add: handleListJobs_def RedisBackend_def rdListJobs_def go_simps)
qed

theorem api_list_overflow_aborts_witness:
  "handleListJobs (RedisBackend memRedis) sampleHenv ''q''
     (\<lambda>k. if k = ''limit'' then ''9223372036854775807'' else if k = ''offset'' then ''1'' else '''') twoJobs
     = (Aborted ''slice bounds out of range'', twoJobs)"
proof -
  let ?q = "\<lambda>k. if k = ''limit'' then ''9223372036854775807'' else if k = ''offset'' then ''1'' else ''''"
  have q: "query_limit (?q ''limit'') = 2 ^ 63 - 1" "query_offset (?q ''offset'') = 1" by code_simp+
  have "length (zset_ordered twoJobs (queueKey ''q'')) = 2" by code_simp
  then have c: "int (card (dom (memZ twoJobs (queueKey ''q'')))) = 2" using card_zset [of twoJobs] by simp
  have calm: "calm (heBackend sampleHenv 0)" by (simp add: sampleHenv_def calm_10)
  show ?thesis
    by (rule api_list_overflow_aborts [OF mem_redis.redis_server_axioms twoJobs(1) calm])
      (use q c in simp_all)
qed



end
