(* ===== verification/EndToEnd.thy ===== *)
theory EndToEnd
  imports Cli ApiProps
begin

text \<open>
  The command line client and the REST API put together: a command of internal/cli over a
  transport that hands its request to the server of internal/httpapi, which works on a store
  that keeps the contract. What lies between the two, the HTTP library, the router and the
  JSON codec, is the record \<open>wire\<close>; texts are taken to survive the codec.
\<close>

section \<open>The connection\<close>

text \<open>Whether a URL can be parsed, how the value of a header arrives, the route that a method,
  a URL and a body select (or the status of the answer when there is none), the text of a
  status and the error for a body that cannot be decoded.\<close>

record wire =
  wrParse :: "string \<Rightarrow> goerr option"
  wrHeader :: "string \<Rightarrow> string"
  wrRoute :: "string \<Rightarrow> string \<Rightarrow> enqueueRequest option \<Rightarrow> int + route"
  wrStatus :: "int \<Rightarrow> string"
  wrBadBody :: goerr

text \<open>What the client decodes: the member \<open>error\<close> of a failure, the member \<open>id\<close> of a success.
  A handler that panicked is answered by the recoverer with status 500 and no body.\<close>

fun answer :: "wire \<Rightarrow> response \<Rightarrow> string http_response" where
  "answer W (Aborted p) =
     \<lparr>rsCode = 500, rsStatus = wrStatus W 500, rsError = None, rsValue = Err (wrBadBody W)\<rparr>"
| "answer W (Resp c b) =
     \<lparr>rsCode = c, rsStatus = wrStatus W c,
      rsError = (case b of JError m \<Rightarrow> Some m | JJob j \<Rightarrow> Some '''' | JStatus st \<Rightarrow> Some ''''
                 | JQueues None \<Rightarrow> Some '''' | _ \<Rightarrow> None),
      rsValue = (case b of JError m \<Rightarrow> Ret '''' | JJob j \<Rightarrow> Ret (jID j) | JStatus st \<Rightarrow> Ret ''''
                 | JQueues None \<Rightarrow> Ret '''' | _ \<Rightarrow> Err (wrBadBody W))\<rparr>"

definition over_wire ::
    "wire \<Rightarrow> 's server \<Rightarrow> henv \<Rightarrow> (enqueueRequest, string, 's) transport" where
  "over_wire W srv he =
     \<lparr>trParse = wrParse W,
      trSend = (\<lambda>rq s.
        case wrRoute W (rMethod rq) (rURL rq) (rBody rq) of
          Inl c \<Rightarrow> (Ret (answer W (Resp c NoBody)), s)
        | Inr r \<Rightarrow>
            (case serve srv he (wrHeader W (rAuthorization rq)) r s of
               (resp, s1) \<Rightarrow> (Ret (answer W resp), s1)))\<rparr>"

lemma client_do_over_wire:
  assumes "wrParse W (clBaseURL c @ path) = None" and "wrHeader W (auth_header c) = auth_header c"
    and "wrRoute W method (clBaseURL c @ path) body = Inr r"
  shows "client_do (over_wire W srv he) c method path body s =
    (if srvApiKey srv = '''' \<or> clApiKey c = srvApiKey srv
     then (case dispatch (srvBackend srv) he r s of (resp, s1) \<Rightarrow> (Ret (answer W resp), s1))
     else (Ret (answer W (writeError 401 (if clApiKey c = '''' then ''missing Authorization header''
                                          else ''invalid API key''))), s))"
  using assms by (simp add: client_do_def over_wire_def cli_auth_accepted split: prod.split)

text \<open>Client and server fit: the client's addresses parse and select the routes of the server,
  its header arrives as it was sent, and \<open>decoded\<close> is the request the server reads.\<close>

definition connects :: "wire \<Rightarrow> Client \<Rightarrow> enqueueRequest \<Rightarrow> enqueueRequest \<Rightarrow> string \<Rightarrow> bool" where
  "connects W c sent decoded i \<longleftrightarrow>
     wrHeader W (auth_header c) = auth_header c \<and>
     (\<forall>p \<in> {''/v1/jobs'', ''/v1/jobs/'' @ i @ ''/cancel'', ''/v1/jobs/'' @ i @ ''/retry''}.
        wrParse W (clBaseURL c @ p) = None) \<and>
     wrRoute W ''POST'' (clBaseURL c @ ''/v1/jobs'') (Some sent) = Inr (PostJobs (Some decoded)) \<and>
     wrRoute W ''POST'' (clBaseURL c @ ''/v1/jobs/'' @ i @ ''/cancel'') None = Inr (PostCancel i) \<and>
     wrRoute W ''POST'' (clBaseURL c @ ''/v1/jobs/'' @ i @ ''/retry'') None = Inr (PostRetry i)"

lemma connectsD:
  assumes "connects W c sent decoded i"
  shows "wrHeader W (auth_header c) = auth_header c"
    "wrParse W (clBaseURL c @ ''/v1/jobs'') = None"
    "wrParse W (clBaseURL c @ ''/v1/jobs/'' @ i @ ''/cancel'') = None"
    "wrParse W (clBaseURL c @ ''/v1/jobs/'' @ i @ ''/retry'') = None"
    "wrRoute W ''POST'' (clBaseURL c @ ''/v1/jobs'') (Some sent) = Inr (PostJobs (Some decoded))"
    "wrRoute W ''POST'' (clBaseURL c @ ''/v1/jobs/'' @ i @ ''/cancel'') None = Inr (PostCancel i)"
    "wrRoute W ''POST'' (clBaseURL c @ ''/v1/jobs/'' @ i @ ''/retry'') None = Inr (PostRetry i)"
  using assms unfolding connects_def by blast+

lemma client_do_connected:
  assumes "connects W c sent decoded i"
  shows "client_do (over_wire W srv he) c ''POST'' ''/v1/jobs'' (Some sent) s =
      (if srvApiKey srv = '''' \<or> clApiKey c = srvApiKey srv
       then (case handleEnqueue (srvBackend srv) he (Some decoded) s of (resp, s1) \<Rightarrow> (Ret (answer W resp), s1))
       else (Ret (answer W (writeError 401 (if clApiKey c = '''' then ''missing Authorization header''
                                            else ''invalid API key''))), s))"
    "client_do (over_wire W srv he) c ''POST'' (''/v1/jobs/'' @ i @ ''/cancel'') None s =
      (if srvApiKey srv = '''' \<or> clApiKey c = srvApiKey srv
       then (case handleCancelJob (srvBackend srv) he i s of (resp, s1) \<Rightarrow> (Ret (answer W resp), s1))
       else (Ret (answer W (writeError 401 (if clApiKey c = '''' then ''missing Authorization header''
                                            else ''invalid API key''))), s))"
    "client_do (over_wire W srv he) c ''POST'' (''/v1/jobs/'' @ i @ ''/retry'') None s =
      (if srvApiKey srv = '''' \<or> clApiKey c = srvApiKey srv
       then (case handleRetryJob (srvBackend srv) he i s of (resp, s1) \<Rightarrow> (Ret (answer W resp), s1))
       else (Ret (answer W (writeError 401 (if clApiKey c = '''' then ''missing Authorization header''
                                            else ''invalid API key''))), s))"
  by (rule client_do_over_wire [OF connectsD(2,1,5) [OF assms], unfolded dispatch.simps]
      client_do_over_wire [OF connectsD(3,1,6) [OF assms], unfolded dispatch.simps]
      client_do_over_wire [OF connectsD(4,1,7) [OF assms], unfolded dispatch.simps])+

section \<open>The commands\<close>

text \<open>A client without the server's key.\<close>

definition denied :: "'s server \<Rightarrow> Client \<Rightarrow> bool" where
  "denied srv c \<longleftrightarrow> srvApiKey srv \<noteq> '''' \<and> clApiKey c \<noteq> srvApiKey srv"

definition deniedMessage :: "Client \<Rightarrow> string" where
  "deniedMessage c =
     (if clApiKey c = '''' then ''server error (401): missing Authorization header''
      else ''server error (401): invalid API key'')"

lemma denied_answer:
  "statusError (answer W (writeError 401 (if clApiKey c = '''' then ''missing Authorization header''
     else ''invalid API key''))) = ErrNew (deniedMessage c)"
  by (simp add: writeError_def statusError_def deniedMessage_def itoa_def nat_digits.simps)

text \<open>C18. A client that does not know the key of the server changes nothing: each of its
  commands that would write, to enqueue, retry or cancel, ends with the error 401 the server
  gave, and the store is as it was.\<close>

theorem cli_denied_changes_nothing:
  assumes "connects W c (enqueue_body fl ty) decoded i" and "denied srv c" and "valid (efPayload fl)"
  shows "runEnqueue valid (over_wire W srv he) c fl ty s = (Err (ErrNew (deniedMessage c)), s) \<and>
    runRetry (over_wire W srv he) c i s = (Err (ErrNew (deniedMessage c)), s) \<and>
    runCancel (over_wire W srv he) c i s = (Err (ErrNew (deniedMessage c)), s)"
proof -
  have deny: "(srvApiKey srv = '''' \<or> clApiKey c = srvApiKey srv) = False"
    using assms(2) by (simp add: denied_def)
  have code: "400 \<le> rsCode (answer W (writeError 401 m))" for m by (simp add: writeError_def)
  note do = client_do_connected [OF assms(1), of srv he s, unfolded deny if_False]
  show ?thesis
    unfolding runEnqueue_def runRetry_def runCancel_def eqTrueI [OF assms(3)] not_True_eq_False if_False
      bindS.simps do readS_def checkStatus_def decodeOrError_def
    by (simp add: code denied_answer)
qed





section \<open>A sample connection\<close>


definition sampleServer :: "mem server" where
  "sampleServer = \<lparr>srvBackend = RedisBackend memRedis, srvApiKey = ''k''\<rparr>"

definition sampleWire :: wire where
  "sampleWire =
     \<lparr>wrParse = (\<lambda>u. None), wrHeader = (\<lambda>h. h),
      wrRoute = (\<lambda>m u b.
        if u = ''h/v1/jobs'' then Inr (PostJobs b)
        else if u = ''h/v1/jobs/u1/cancel'' then Inr (PostCancel ''u1'')
        else if u = ''h/v1/jobs/u1/retry'' then Inr (PostRetry ''u1'') else Inl 404),
      wrStatus = (\<lambda>c. ''''), wrBadBody = ErrNew ''EOF''\<rparr>"

lemma sample_connects:
  "clBaseURL c = ''h'' \<Longrightarrow> connects sampleWire c (enqueue_body fl ty)
     ((enqueue_body fl ty)\<lparr>rqPayload := efPayload fl\<rparr>) ''u1''"
  by (simp add: connects_def sampleWire_def enqueue_body_def)

theorem cli_denied_changes_nothing_witness:
  "runEnqueue (\<lambda>p. True) (over_wire sampleWire sampleServer sampleHenv) (NewClient ''h'' ''x'') enqueueDefaults ''mail'' twoJobs
     = (Err (ErrNew ''server error (401): invalid API key''), twoJobs)"
proof -
  let ?c = "NewClient ''h'' ''x''"
  have c: "connects sampleWire ?c (enqueue_body enqueueDefaults ''mail'')
      ((enqueue_body enqueueDefaults ''mail'')\<lparr>rqPayload := efPayload enqueueDefaults\<rparr>) ''u1''"
    by (rule sample_connects) (simp add: NewClient_def)
  have "denied sampleServer ?c" by (simp add: NewClient_def denied_def sampleServer_def)
  from cli_denied_changes_nothing [OF c this, where valid = "\<lambda>p. True" and s = twoJobs and he = sampleHenv] show ?thesis
    by (simp add: deniedMessage_def NewClient_def)
qed


end
