(* ===== verification/Daemon.thy ===== *)
theory Daemon
  imports Dashboard Pool RedisProps
begin

text \<open>
  internal/config/config.go and cmd/queuekitd/main.go: the configuration read from the
  process environment, the choice of the backend and the start of the server and the pool.
  The drivers of the two servers and the parser of Redis URLs are arguments. What happens to
  the process after its start comes as a list of events: the listener fails or is closed, a signal arrives.
\<close>

section \<open>Configuration\<close>

record Config =
  cfgListenAddr :: string
  cfgAPIKey :: string
  cfgBackend :: string
  cfgPostgresDSN :: string
  cfgRedisAddr :: string

text \<open>\<open>os.Getenv\<close> gives the empty string for a variable that is not set.\<close>

definition envOrDefault :: "(string \<Rightarrow> string) \<Rightarrow> string \<Rightarrow> string \<Rightarrow> string" where
  "envOrDefault getenv key fallback = (let v = getenv key in if v \<noteq> '''' then v else fallback)"

definition Load :: "(string \<Rightarrow> string) \<Rightarrow> Config res" where
  "Load getenv =
     (let c = \<lparr>cfgListenAddr = envOrDefault getenv ''QUEUEKIT_LISTEN_ADDR'' '':8080'',
               cfgAPIKey = getenv ''QUEUEKIT_API_KEY'',
               cfgBackend = envOrDefault getenv ''QUEUEKIT_BACKEND'' ''postgres'',
               cfgPostgresDSN = getenv ''QUEUEKIT_POSTGRES_DSN'',
               cfgRedisAddr = envOrDefault getenv ''QUEUEKIT_REDIS_ADDR'' ''localhost:6379''\<rparr>
      in if cfgBackend c = ''postgres'' then
           (if cfgPostgresDSN c = ''''
            then Err (ErrNew ''QUEUEKIT_POSTGRES_DSN is required when backend is postgres'')
            else Ret c)
         else if cfgBackend c = ''redis'' then Ret c
         else Err (ErrNew (''unsupported backend '' @ go_quote (cfgBackend c) @ '': must be postgres or redis'')))"

section \<open>The daemon\<close>

text \<open>\<open>'p\<close> is a pool of connections to PostgreSQL, \<open>'c\<close> a Redis client and \<open>'o\<close> its options.\<close>

record ('p, 'c, 'o) drivers =
  drvPool :: "string \<Rightarrow> 'p res"
  drvPoolPing :: "'p \<Rightarrow> goerr option"
  drvParseURL :: "string \<Rightarrow> 'o option"
  drvAddrOptions :: "string \<Rightarrow> 'o"
  drvClient :: "'o \<Rightarrow> 'c"
  drvClientPing :: "'c \<Rightarrow> goerr option"

datatype ('p, 'c) connection = PostgresConn 'p | RedisConn 'c

text \<open>The constructors of the two backends.\<close>

definition NewFromDSN :: "('p, 'c, 'o) drivers \<Rightarrow> string \<Rightarrow> ('p, 'c) connection res" where
  "NewFromDSN D dsn =
     (case drvPool D dsn of
        Panic p \<Rightarrow> Panic p
      | Err x \<Rightarrow> Err (ErrWrap ''failed to connect to postgres'' x)
      | Ret pl \<Rightarrow>
          (case drvPoolPing D pl of
             Some x \<Rightarrow> Err (ErrWrap ''failed to ping postgres'' x)
           | None \<Rightarrow> Ret (PostgresConn pl)))"

definition NewFromOptions :: "('p, 'c, 'o) drivers \<Rightarrow> 'o \<Rightarrow> ('p, 'c) connection res" where
  "NewFromOptions D opts =
     (let client = drvClient D opts
      in case drvClientPing D client of
           Some x \<Rightarrow> Err (ErrWrap ''failed to connect to redis'' x)
         | None \<Rightarrow> Ret (RedisConn client))"

definition createBackend :: "('p, 'c, 'o) drivers \<Rightarrow> Config \<Rightarrow> ('p, 'c) connection res" where
  "createBackend D cfg =
     (if cfgBackend cfg = ''postgres'' then NewFromDSN D (cfgPostgresDSN cfg)
      else if cfgBackend cfg = ''redis'' then
        (let opts = (case drvParseURL D (''redis://'' @ cfgRedisAddr cfg) of
                       None \<Rightarrow> drvAddrOptions D (cfgRedisAddr cfg) | Some o1 \<Rightarrow> o1)
         in NewFromOptions D opts)
      else Err (ErrNew (''unknown backend: '' @ cfgBackend cfg)))"

text \<open>What the process is: ended with a status, serving HTTP with a running pool, or returned
  from \<open>main\<close> after a shutdown that logged the given errors.\<close>

record 'b daemon =
  dBackend :: 'b
  dAPIKey :: string
  dListenAddr :: string
  dPool :: pool






record version_info =
  viVersion :: string
  viCommit :: string
  viBuildTime :: string

definition defaultVersion :: version_info where
  "defaultVersion = \<lparr>viVersion = ''dev'', viCommit = ''unknown'', viBuildTime = ''unknown''\<rparr>"



section \<open>What the daemon serves\<close>

text \<open>The dashboard is mounted beside the routes of the API, outside the group that asks for the
  key.\<close>

datatype drequest = ApiRequest string route | DashRequest droute

fun daemon_serve ::
    "(string \<Rightarrow> string option) \<Rightarrow> 's backend daemon \<Rightarrow> henv \<Rightarrow> drequest \<Rightarrow> 's \<Rightarrow> (response + dresponse) \<times> 's" where
  "daemon_serve indent d he (ApiRequest auth r) s =
     (case serve (NewServer (dBackend d) (dAPIKey d)) he auth r s of (x, s1) \<Rightarrow> (Inl x, s1))"
| "daemon_serve indent d he (DashRequest r) s =
     (case dash_dispatch indent (dBackend d) he r s of (x, s1) \<Rightarrow> (Inr x, s1))"

section \<open>Properties\<close>

text \<open>\<open>Load\<close> accepts exactly the environments that name Redis, or name PostgreSQL or
  nothing and give a DSN; and for a configuration it returns, \<open>createBackend\<close> never takes its
  default branch: the result is that of one of the two constructors.\<close>

lemma config_load_decides:
  "(case Load getenv of
      Ret c \<Rightarrow> (\<exists>o1. createBackend D c =
          (if getenv ''QUEUEKIT_BACKEND'' = ''redis'' then NewFromOptions D o1
           else NewFromDSN D (getenv ''QUEUEKIT_POSTGRES_DSN''))) \<and>
        (if getenv ''QUEUEKIT_BACKEND'' = ''redis'' then True
         else getenv ''QUEUEKIT_BACKEND'' \<in> {'''', ''postgres''} \<and> getenv ''QUEUEKIT_POSTGRES_DSN'' \<noteq> '''')
    | Err x \<Rightarrow> getenv ''QUEUEKIT_BACKEND'' \<noteq> ''redis'' \<and>
        (if getenv ''QUEUEKIT_BACKEND'' \<in> {'''', ''postgres''} then getenv ''QUEUEKIT_POSTGRES_DSN'' = '''' else True)
    | Panic p \<Rightarrow> False)"
  by (auto simp: Load_def envOrDefault_def createBackend_def Let_def)



text \<open>C17. The key does not guard the dashboard. Retrying a job from the dashboard, for which no key
  is asked, does to the store exactly what a retry through the API with the right key does,
  and both report the new job alike; through the API without the key nothing happens.\<close>

theorem dashboard_retry_without_key:
  assumes "\<And>j s1. beGetJob (dBackend d) (heBackend he 0) i s = (Ret j, s1) \<Longrightarrow> jID j = i"
    and "daemon_serve indent d he (DashRequest (DashRetryJob i)) s = (x, s1)"
    and "daemon_serve indent d he (ApiRequest (''Bearer '' @ dAPIKey d) (PostRetry i)) s = (y, s2)"
  shows "s1 = s2 \<and>
    (x = Inr (Redirect (''/dashboard/jobs/'' @ heUUID he)) \<longleftrightarrow>
      (\<exists>j. y = Inl (Resp 200 (JJob j)) \<and> jID j = heUUID he)) \<and>
    (\<forall>auth. dAPIKey d \<noteq> '''' \<and> auth \<noteq> ''Bearer '' @ dAPIKey d \<longrightarrow>
      snd (daemon_serve indent d he (ApiRequest auth (PostRetry i)) s) = s)"
proof -
  note retry = dash_retry_store [of "dBackend d" he i s, OF assms(1)]
  have "x = Inr (fst (dashRetryJob (dBackend d) he i s))" "s1 = snd (dashRetryJob (dBackend d) he i s)"
    using assms(2) by (auto split: prod.splits)
  moreover have "y = Inl (fst (handleRetryJob (dBackend d) he i s))" "s2 = snd (handleRetryJob (dBackend d) he i s)"
    using assms(3) by (auto simp: serve_auth NewServer_def split: prod.splits)
  ultimately show ?thesis using retry by (auto simp: serve_auth NewServer_def)
qed

definition sampleDaemon :: "mem backend daemon" where
  "sampleDaemon =
     \<lparr>dBackend = RedisBackend memRedis, dAPIKey = ''k'', dListenAddr = '':8080'', dPool = NewPool [] []\<rparr>"

theorem dashboard_retry_without_key_witness:
  "snd (daemon_serve (\<lambda>v. None) sampleDaemon \<lparr>heBackend = (\<lambda>n. envAt (10 * second)), heNow = 10 * second, heUUID = ''u1''\<rparr>
     (ApiRequest '''' (PostRetry ''a'')) twoJobs) = twoJobs"
proof -
  let ?he = "\<lparr>heBackend = (\<lambda>n. envAt (10 * second)), heNow = 10 * second, heUUID = ''u1''\<rparr>"
  have "beGetJob (dBackend sampleDaemon) (heBackend ?he 0) ''a'' twoJobs
      = (Ret (rd_norm (sampleJob ''a'' PriorityNormal 3)), twoJobs)"
    using job_store.get_law [OF mem_redis.contract twoJobs(1) calm_10, of "''a''"] twoJobs(2)
    by (simp add: sampleDaemon_def)
  then have get: "jID j = ''a''"
    if "beGetJob (dBackend sampleDaemon) (heBackend ?he 0) ''a'' twoJobs = (Ret j, s1)" for j s1
    using that by (auto simp: rd_norm_def sampleJob_def)
  obtain x s1 where x: "daemon_serve (\<lambda>v. None) sampleDaemon ?he (DashRequest (DashRetryJob ''a'')) twoJobs = (x, s1)"
    by (cases rule: prod.exhaust)
  obtain y s2 where y: "daemon_serve (\<lambda>v. None) sampleDaemon ?he
      (ApiRequest (''Bearer '' @ dAPIKey sampleDaemon) (PostRetry ''a'')) twoJobs = (y, s2)"
    by (cases rule: prod.exhaust)
  from dashboard_retry_without_key [OF get x y] show ?thesis by (simp add: sampleDaemon_def)
qed

end
