(* ===== verification/Migrations.thy ===== *)
theory Migrations
  imports Postgres
begin

text \<open>
  internal/backend/postgres/migrations.go: the address that is given to the migration library,
  and \<open>RunMigrations\<close>. The library and the pool of connections are the record \<open>migrate\<close>: the
  configuration of a pool (\<open>None\<close> is the nil pointer), the source of the migration files, a
  migrator for a source and an address, and what \<open>Up\<close> does to the database \<open>'n\<close>.
\<close>

record conn_config =
  ccUser :: string
  ccPassword :: string
  ccHost :: string
  ccPort :: nat
  ccDatabase :: string

definition connString :: "conn_config \<Rightarrow> string" where
  "connString c =
     ''postgres://'' @ ccUser c @ '':'' @ ccPassword c @ ''@'' @ ccHost c @ '':''
       @ itoa (int (ccPort c)) @ ''/'' @ ccDatabase c @ ''?sslmode='' @ ''disable''"

record ('p, 'src, 'm, 'n) migrate =
  mgConfig :: "'p option \<Rightarrow> conn_config res"
  mgSource :: "'src res"
  mgNew :: "'src \<Rightarrow> string \<Rightarrow> 'm res"
  mgUp :: "'m \<Rightarrow> 'n \<Rightarrow> unit res \<times> 'n"
  mgErrNoChange :: goerr

definition RunMigrations :: "('p, 'src, 'm, 'n) migrate \<Rightarrow> 'p option \<Rightarrow> 'n \<Rightarrow> unit res \<times> 'n" where
  "RunMigrations M pool n =
     (case mgConfig M pool of
        Panic p \<Rightarrow> (Panic p, n)
      | Err x \<Rightarrow> (Err x, n)
      | Ret config \<Rightarrow>
         (case mgSource M of
            Panic p \<Rightarrow> (Panic p, n)
          | Err x \<Rightarrow> (Err (ErrWrap ''failed to create migration source'' x), n)
          | Ret source \<Rightarrow>
             (case mgNew M source (connString config) of
                Panic p \<Rightarrow> (Panic p, n)
              | Err x \<Rightarrow> (Err (ErrWrap ''failed to create migrator'' x), n)
              | Ret m \<Rightarrow>
                 (case mgUp M m n of
                    (Panic p, n1) \<Rightarrow> (Panic p, n1)
                  | (Err x, n1) \<Rightarrow>
                      if x \<noteq> mgErrNoChange M then (Err (ErrWrap ''failed to run migrations'' x), n1)
                      else (Ret (), n1)
                  | (Ret u, n1) \<Rightarrow> (Ret (), n1)))))"

section \<open>The address\<close>

text \<open>A part of the address that none of the separators occurs in.\<close>

definition plain_part :: "string \<Rightarrow> bool" where
  "plain_part v \<longleftrightarrow> set v \<inter> set '':@/?'' = {}"

lemma cut_at:
  assumes "c \<notin> set a" "c \<notin> set b" "a @ c # x = b @ c # y"
  shows "a = b \<and> x = y"
  using assms by (induction a arbitrary: b) (case_tac b, auto)+

lemma connString_parts:
  "connString c = ''postgres://'' @ ccUser c @ CHR '':'' # ccPassword c @ CHR ''@'' # ccHost c @ CHR '':'' #
     itoa (int (ccPort c)) @ CHR ''/'' # ccDatabase c @ CHR ''?'' # ''sslmode=disable''"
  by (simp add: connString_def)

lemma nat_digits_digits: "set (nat_digits n) \<subseteq> set ''0123456789''"
proof (induction n rule: nat_digits.induct)
  case (1 n)
  have "''0123456789'' ! (n mod 10) \<in> set ''0123456789''" by (rule nth_mem) simp
  with 1 show ?case by (subst nat_digits.simps) (auto simp: Let_def)
qed

lemma itoa_no_slash: "CHR ''/'' \<notin> set (itoa (int n))"
  using nat_digits_digits [of n] by (auto simp: itoa_def)

text \<open>Two configurations whose user, password, host and database are free of the separators
  have the same address only if they are the same.\<close>

lemma connString_inj:
  assumes a: "plain_part (ccUser a)" "plain_part (ccPassword a)" "plain_part (ccHost a)" "plain_part (ccDatabase a)"
    and b: "plain_part (ccUser b)" "plain_part (ccPassword b)" "plain_part (ccHost b)" "plain_part (ccDatabase b)"
    and port: "int64_ok (int (ccPort a))" "int64_ok (int (ccPort b))"
    and eq: "connString a = connString b"
  shows "a = b"
proof -
  note eq' = eq [unfolded connString_parts, THEN iffD1 [OF same_append_eq]]
  have 1: "ccUser a = ccUser b \<and> ccPassword a @ CHR ''@'' # ccHost a @ CHR '':'' #
        itoa (int (ccPort a)) @ CHR ''/'' # ccDatabase a @ CHR ''?'' # ''sslmode=disable'' =
      ccPassword b @ CHR ''@'' # ccHost b @ CHR '':'' #
        itoa (int (ccPort b)) @ CHR ''/'' # ccDatabase b @ CHR ''?'' # ''sslmode=disable''"
    by (rule cut_at [OF _ _ eq']) (use a b in \<open>auto simp: plain_part_def\<close>)
  have 2: "ccPassword a = ccPassword b \<and> ccHost a @ CHR '':'' #
        itoa (int (ccPort a)) @ CHR ''/'' # ccDatabase a @ CHR ''?'' # ''sslmode=disable'' =
      ccHost b @ CHR '':'' # itoa (int (ccPort b)) @ CHR ''/'' # ccDatabase b @ CHR ''?'' # ''sslmode=disable''"
    by (rule cut_at [OF _ _ 1 [THEN conjunct2]]) (use a b in \<open>auto simp: plain_part_def\<close>)
  have 3: "ccHost a = ccHost b \<and>
        itoa (int (ccPort a)) @ CHR ''/'' # ccDatabase a @ CHR ''?'' # ''sslmode=disable'' =
      itoa (int (ccPort b)) @ CHR ''/'' # ccDatabase b @ CHR ''?'' # ''sslmode=disable''"
    by (rule cut_at [OF _ _ 2 [THEN conjunct2]]) (use a b in \<open>auto simp: plain_part_def\<close>)
  have 4: "itoa (int (ccPort a)) = itoa (int (ccPort b)) \<and>
      ccDatabase a @ CHR ''?'' # ''sslmode=disable'' = ccDatabase b @ CHR ''?'' # ''sslmode=disable''"
    by (rule cut_at [OF itoa_no_slash itoa_no_slash 3 [THEN conjunct2]])
  have "Some (int (ccPort a)) = Some (int (ccPort b))"
    using arg_cong [OF 4 [THEN conjunct1], of parse_int] unfolding parse_itoa [OF port(1)] parse_itoa [OF port(2)] .
  then have "ccPort a = ccPort b" by simp
  then show ?thesis using 1 2 3 4 by (intro conn_config.equality) auto
qed

text \<open>Nothing is escaped, so with a separator in a part two configurations are confused.\<close>

lemma connString_ambiguous:
  "connString \<lparr>ccUser = ''a:b'', ccPassword = ''c'', ccHost = h, ccPort = p, ccDatabase = d\<rparr> =
   connString \<lparr>ccUser = ''a'', ccPassword = ''b:c'', ccHost = h, ccPort = p, ccDatabase = d\<rparr>"
  by (simp add: connString_def)

section \<open>Running the migrations\<close>

text \<open>Migrating is repeatable. When a run has succeeded and the library reports a second
  \<open>Up\<close> with nothing left to do as \<open>ErrNoChange\<close>, then a second run succeeds too and leaves the
  database as it is; an error of the library other than this one is returned, wrapped.\<close>

lemma migrations_repeatable:
  assumes "\<And>m n n1. mgUp M m n = (Ret (), n1) \<Longrightarrow> mgUp M m n1 = (Err (mgErrNoChange M), n1)"
    and "\<And>m n n1. mgUp M m n = (Err (mgErrNoChange M), n1) \<Longrightarrow> n1 = n"
    and "RunMigrations M pool n = (r, n1)"
  shows "(r = Ret () \<longrightarrow> RunMigrations M pool n1 = (Ret (), n1)) \<and>
    (\<forall>config source m x. mgConfig M pool = Ret config \<and> mgSource M = Ret source \<and>
       mgNew M source (connString config) = Ret m \<and> fst (mgUp M m n) = Err x \<longrightarrow>
       r = (if x = mgErrNoChange M then Ret () else Err (ErrWrap ''failed to run migrations'' x)))"
proof (intro conjI impI allI)
  assume r: "r = Ret ()"
  then obtain config source m where lib: "mgConfig M pool = Ret config" "mgSource M = Ret source"
    "mgNew M source (connString config) = Ret m" "mgUp M m n = (Ret (), n1) \<or> mgUp M m n = (Err (mgErrNoChange M), n1)"
    using assms(3) by (auto simp: RunMigrations_def split: res.splits prod.splits if_splits)
  then have "mgUp M m n1 = (Err (mgErrNoChange M), n1)" using assms(1,2) by metis
  with lib show "RunMigrations M pool n1 = (Ret (), n1)" by (simp add: RunMigrations_def)
next
  fix config source m x
  assume "mgConfig M pool = Ret config \<and> mgSource M = Ret source \<and>
    mgNew M source (connString config) = Ret m \<and> fst (mgUp M m n) = Err x"
  then show "r = (if x = mgErrNoChange M then Ret () else Err (ErrWrap ''failed to run migrations'' x))"
    using assms(3) by (cases "mgUp M m n") (auto simp: RunMigrations_def split: if_splits)
qed

text \<open>A library that counts the one migration of the repository.\<close>

definition countMigrate :: "(unit, unit, unit, nat) migrate" where
  "countMigrate =
     \<lparr>mgConfig = (\<lambda>p. case p of
        None \<Rightarrow> Panic ''nil pointer dereference''
      | Some u \<Rightarrow> Ret \<lparr>ccUser = ''u'', ccPassword = ''p'', ccHost = ''h'', ccPort = 5432, ccDatabase = ''d''\<rparr>),
      mgSource = Ret (), mgNew = (\<lambda>src url. Ret ()),
      mgUp = (\<lambda>m n. if n = 0 then (Ret (), 1) else (Err (ErrExt ''no change''), n)),
      mgErrNoChange = ErrExt ''no change''\<rparr>"

lemma migrations_repeatable_witness:
  "RunMigrations countMigrate (Some ()) 0 = (Ret (), 1) \<and> RunMigrations countMigrate (Some ()) 1 = (Ret (), 1)"
proof -
  have 1: "RunMigrations countMigrate (Some ()) 0 = (Ret (), 1)"
    by (simp add: RunMigrations_def countMigrate_def)
  have again: "mgUp countMigrate m n1 = (Err (mgErrNoChange countMigrate), n1)" if "mgUp countMigrate m n = (Ret (), n1)" for m n n1
    using that by (simp add: countMigrate_def split: if_splits)
  have same: "n1 = n" if "mgUp countMigrate m n = (Err (mgErrNoChange countMigrate), n1)" for m n n1
    using that by (simp add: countMigrate_def split: if_splits)
  have "RunMigrations countMigrate (Some ()) 1 = (Ret (), 1)"
    by (rule migrations_repeatable [OF _ _ 1, THEN conjunct1, rule_format]) (erule again | erule same | rule refl)+
  with 1 show ?thesis ..
qed

end
