(* ===== verification/Spec2Isabelle.thy ===== *)
theory Spec2Isabelle
  imports PostgresFresh QueueStats LiveProps SystemProps EndToEnd Daemon Examples
begin

text \<open>
  A model of QueueKit, a job queue in Go with PostgreSQL and Redis storage, a worker pool, a
  REST API, a dashboard and a command line client, and the properties that make it correct.

  \<^bold>\<open>The program.\<close> A job (internal/queue/job.go) is written by \<open>Enqueue\<close> to a store that
  implements the interface \<open>Backend\<close> (internal/backend/backend.go). A worker
  (internal/worker/worker.go) reserves a due job of its queue, runs the handler registered for
  the job's type and reports the outcome by \<open>Ack\<close> or \<open>Nack\<close>; \<open>Nack\<close> counts the attempt and
  reschedules the job after a back-off or buries it. The REST API (internal/httpapi), the
  dashboard (internal/dashboard) and, through the API, the client (internal/cli) enqueue,
  read, retry, cancel, delete and list jobs on the same store.

  \<^bold>\<open>The theories, in the order of the code.\<close>
  \<^item> QKPrelude and GoLang: lemmas on lists and maps; the Go runtime as the program uses it.
    \<open>'a res\<close> is a returned value, an error or a panic; \<open>env\<close> is what a call meets: the clock
    and, for each exchange with a server, whether it takes place (\<open>Up\<close>), is lost before it
    has an effect (\<open>Lost\<close>) or takes effect and its reply is lost (\<open>ReplyLost\<close>). \<open>int\<close> values
    are unbounded with \<open>wrap64\<close> where Go's 64-bit arithmetic can overflow. A time is a number
    of nanoseconds since the epoch. Strings are lists of bytes.
  \<^item> Float64: Go's \<open>float64\<close> with rounding to nearest even, infinities, and \<open>math.Pow\<close> for
    integral exponents as the loop over the bits of the exponent. The sign of a zero is not
    kept; underflow is gradual.
  \<^item> Job and Backend: the record \<open>job\<close> with \<open>NewJob\<close>, \<open>Validate\<close> and the transitions; the
    statistics of a queue; the interface as the record \<open>'s backend\<close> over a store \<open>'s\<close>; its
    promises as the locale \<open>job_store\<close>: a map from ids to jobs and what each operation does to
    it. Clients are verified inside the locale, once for both stores. The locale \<open>live_store\<close>
    extends it by what a client needs to make progress.
  \<^item> Postgres, PostgresTable, PostgresStore, PostgresProps, PostgresLive, PostgresFresh:
    internal/backend/postgres/postgres.go over the list of rows of the table; each SQL
    statement is a function, each method its transaction. The server and the driver are the
    record \<open>pg_engine\<close> with the laws of the locale \<open>pg_server\<close>. PostgresTable proves that the
    check constraints survive and that failed calls roll back, PostgresStore that the backend
    is a \<open>job_store\<close>, PostgresLive that it is a \<open>live_store\<close> when every row can be scanned and no
    other transaction holds one, PostgresProps the properties, and PostgresFresh what happens to
    a pool on an empty table. Migrations is migrations.go over the migration library.
  \<^item> RedisServer, RedisBackend, RedisStore, RedisContract, RedisProps, RedisLive:
    internal/backend/redis/redis.go and scripts.go over the commands of a Redis server, which
    is the record \<open>redis\<close> with the laws of the locale \<open>redis_server\<close>; \<open>memRedis\<close> is a server in
    memory that keeps them. RedisContract proves the invariant \<open>rd_inv\<close> that ties the hashes
    to the sorted sets and that the backend is a \<open>job_store\<close>, RedisLive that it is a
    \<open>live_store\<close>.
  \<^item> Backoff, QueueHealth, Worker, Pool: internal/worker and the health score of
    internal/queue/queue.go. The loop of a worker is a function on the list of its events,
    ticks and the end of the context, so it needs no fuel. WorkerContract and WorkerProps: a
    worker over any \<open>job_store\<close>; WorkerLive and LiveProps: a worker over any \<open>live_store\<close>
    empties its queue, by a measure that every tick lowers while a job is due.
  \<^item> HttpApi, Dashboard, ApiProps: the handlers as functions of the decoded request, the
    authentication and the routes; the properties over both stores.
  \<^item> System: workers and clients that call one store in any order, as the step relation
    \<open>sys_step\<close>. PoolRun: the goroutines of a started pool, which interleave between the two
    halves of a tick, as the step relation \<open>pool_step\<close>, a refinement of \<open>sys_step\<close>. QueueStats:
    the statistics as a function of the jobs, and what the backends report. SystemProps: the
    other properties that span components.
  \<^item> Cli and EndToEnd: internal/cli, and its commands over a connection (record \<open>wire\<close>) to the
    server of HttpApi.
  \<^item> Daemon: internal/config and cmd/queuekitd from the flags to the shutdown, with what the
    process serves. Examples: the two programs of the directory examples.

  \<^bold>\<open>What is shown.\<close> Both backends implement the contract of the interface. A reservation
  hands out a best candidate and never the same job to two workers, however the workers of a pool interleave;
  a worker settles each job it reserves by the outcome of its handler, empties its queue within a known number
  of ticks, and tries no job more often than it may. What the command line enqueues arrives in the store as
  its flags say. The two backends report the same statistics for the same jobs. No failure of the network
  loses a waiting job in Redis, and a failed PostgreSQL call has
  no effect unless only its reply was lost. The back-off is the documented
  table although it is computed in floating point. Handlers answer as documented, pages hold the right slices,
  and the key guards the API. Where the code does not do what it means to, the property states what it does: a
  job that was never nacked cannot be scanned from PostgreSQL, so a pool on an empty table never runs one; a
  shutdown strands the job whose Ack fails; nothing recovers the job of a worker that died; cancelling and
  retrying are not atomic; Redis acknowledges ids that do not exist, ignores priorities and misses queues in
  its listings; all dashboard pages render the list of queues, and retrying a job there needs no key; the
  daemon starts no workers.

  \<^bold>\<open>Bounds.\<close> The laws of \<open>job_store\<close> hold in a calm environment: no exchange fails and the
  clock is between one second and \<open>2 ^ 52\<close> seconds after the epoch, so that Redis scores are
  exact doubles. Attempts and limits are below \<open>2 ^ 31\<close>, the INTEGER columns of the table.
  Payloads, ids and names are arbitrary within what the store accepts (\<open>pg_storable\<close>,
  \<open>rd_storable\<close>). Recursion is structural except for decimal digits and \<open>math.Pow\<close>,
  which halve or divide a natural number; nothing needs fuel.

  \<^bold>\<open>What is not modelled.\<close> The JSON codec, the chi router and its recoverer, the HTML text,
  the parsing of flags and of configuration files by cobra and viper, the delivery of signals
  and requests by the runtime, the drivers behind the constructors and \<open>Close\<close> of the backends,
  the migration library, and log lines other than the errors a worker reports: they are libraries
  the program calls, and where it relies on what they answer they are arguments of the
  definitions.
  A nil payload and an empty one are the same value. A handler may use the store only as an
  argument of the properties allows; \<open>pure_handler\<close> says that it leaves it alone. The mutexes
  of the worker and the pool protect their own fields, whose updates are single steps here.
\<close>

end
